(* ===== verification/Go_Prelude.thy ===== *)
theory Go_Prelude
  imports Main "HOL-Library.AList" "HOL-Library.Monad_Syntax" "HOL-Library.Multiset"
begin

text \<open>
  The vocabulary the components share.

  A Go function that may panic (nil dereference, slice index out of range) has a result of
  type \<open>'a go\<close>: \<open>None\<close> is the panic, \<open>Some\<close> the normal return.  A Go \<open>error\<close> result is
  \<open>string option\<close>: \<open>None\<close> is \<open>nil\<close>, \<open>Some msg\<close> an error with that message.
  A Go map is an association list with distinct keys (\<open>gmap\<close>); the order of the list is
  the order in which a \<open>range\<close> over it visits the entries.  Go leaves that order open and may choose another
  one each time: where that can be seen, the model takes the order of each \<open>range\<close> as a choice of its
  own (\<open>ranged\<close>, the choices of the executor); elsewhere a statement about a \<open>range\<close> is made for every list.  Strings are byte strings, as in Go.
\<close>

named_theorems go_defs "definitions of the Go vocabulary that proofs unfold"

type_synonym 'a go = "'a option"
type_synonym goerr = "string option"
type_synonym ('k, 'v) gmap = "('k \<times> 'v) list"

section \<open>Loops over lists with panics\<close>

text \<open>\<open>for _, x := range xs { s = f(x, s) }\<close>, where the body may panic.\<close>

fun ofold :: "('a \<Rightarrow> 's \<Rightarrow> 's go) \<Rightarrow> 'a list \<Rightarrow> 's \<Rightarrow> 's go" where
  "ofold f [] s = Some s"
| "ofold f (x # xs) s = Option.bind (f x s) (ofold f xs)"

lemma ofold_cong [fundef_cong]:
  "xs = ys \<Longrightarrow> s = t \<Longrightarrow> (\<And>x s. x \<in> set ys \<Longrightarrow> f x s = g x s) \<Longrightarrow> ofold f xs s = ofold g ys t"
proof (induction xs arbitrary: ys s t)
  case Nil
  then show ?case by auto
next
  case (Cons x xs)
  have ys: "ys = x # xs" and st: "s = t" using Cons.prems(1,2) by simp_all
  have "f x = g x" using Cons.prems(3) ys by (intro ext) simp
  moreover have "ofold f xs = ofold g xs"
    by (rule ext, rule Cons.IH [OF refl refl]) (simp add: Cons.prems(3) ys)
  ultimately show ?case unfolding ys st ofold.simps by simp
qed

lemma ofold_append: "ofold f (xs @ ys) s = Option.bind (ofold f xs s) (ofold f ys)"
proof (induction xs arbitrary: s)
  case (Cons x xs)
  then show ?case by (cases "f x s") auto
qed simp

text \<open>An invariant of the loop body is an invariant of the loop.\<close>

lemma ofold_inv:
  assumes "ofold f xs s = Some t" and "P s"
    and "\<And>x s t. x \<in> set xs \<Longrightarrow> P s \<Longrightarrow> f x s = Some t \<Longrightarrow> P t"
  shows "P t"
  using assms
proof (induction xs arbitrary: s)
  case Nil
  then show ?case by simp
next
  case (Cons x xs)
  from Cons.prems(1) obtain u where u: "f x s = Some u" "ofold f xs u = Some t"
    by (auto simp: bind_eq_Some_conv)
  have "P u" by (rule Cons.prems(3) [OF _ Cons.prems(2) u(1)]) simp
  show ?case
  proof (rule Cons.IH [OF u(2) \<open>P u\<close>])
    fix y v w
    assume "y \<in> set xs" "P v" "f y v = Some w"
    then show "P w" by (intro Cons.prems(3) [of y v w]) simp_all
  qed
qed

text \<open>A relation between the state before and after the body, when it is a preorder,
  relates the state before and after the loop.\<close>

lemma ofold_rel:
  assumes "ofold f xs s = Some t"
    and "\<And>s. R s s" and "\<And>s t u. R s t \<Longrightarrow> R t u \<Longrightarrow> R s u"
    and "\<And>x s t. x \<in> set xs \<Longrightarrow> f x s = Some t \<Longrightarrow> R s t"
  shows "R s t"
  using ofold_inv [where P = "R s", OF assms(1) assms(2)] assms(3,4) by blast

text \<open>A loop whose body returns under an invariant returns.\<close>

lemma ofold_total:
  assumes "P s" and "\<And>x s. x \<in> set xs \<Longrightarrow> P s \<Longrightarrow> \<exists>t. f x s = Some t \<and> P t"
  shows "\<exists>t. ofold f xs s = Some t \<and> P t"
  using assms
proof (induction xs arbitrary: s)
  case Nil
  then show ?case by simp
next
  case (Cons x xs)
  obtain u where u: "f x s = Some u" "P u" using Cons.prems(2) [of x s] Cons.prems(1) by auto
  have "\<exists>t. ofold f xs u = Some t \<and> P t"
    by (rule Cons.IH [OF u(2)]) (simp add: Cons.prems(2))
  with u(1) show ?case by simp
qed

lemma ofold_None:
  assumes "x \<in> set xs" and "P s"
    and "\<And>y s t. y \<in> set xs \<Longrightarrow> P s \<Longrightarrow> f y s = Some t \<Longrightarrow> P t"
    and "\<And>s. P s \<Longrightarrow> f x s = None"
  shows "ofold f xs s = None"
  using assms
proof (induction xs arbitrary: s)
  case Nil
  then show ?case by simp
next
  case (Cons y ys)
  show ?case
  proof (cases "x = y \<or> f y s = None")
    case True
    then show ?thesis using Cons.prems(2,4) by auto
  next
    case False
    then obtain u where u: "f y s = Some u" by auto
    have "P u" by (rule Cons.prems(3) [OF _ Cons.prems(2) u]) simp
    moreover have "x \<in> set ys" using Cons.prems(1) False by simp
    ultimately have "ofold f ys u = None"
      using Cons.IH [of u] Cons.prems(3,4) by (metis list.set_intros(2))
    with u show ?thesis by simp
  qed
qed

section \<open>Go maps\<close>

abbreviation gget :: "('k, 'v) gmap \<Rightarrow> 'k \<Rightarrow> 'v option" where
  "gget \<equiv> map_of"

abbreviation gput :: "'k \<Rightarrow> 'v \<Rightarrow> ('k, 'v) gmap \<Rightarrow> ('k, 'v) gmap" where
  "gput \<equiv> AList.update"

abbreviation gkeys :: "('k, 'v) gmap \<Rightarrow> 'k list" where
  "gkeys m \<equiv> map fst m"

abbreviation gwf :: "('k, 'v) gmap \<Rightarrow> bool" where
  "gwf m \<equiv> distinct (map fst m)"

lemma gget_gput [simp]: "gget (gput k v m) = (gget m)(k \<mapsto> v)"
  by (simp add: update_conv')

lemma gwf_gput [simp]: "gwf m \<Longrightarrow> gwf (gput k v m)"
  by (rule distinct_update)

lemma set_gkeys_gput [simp]: "set (gkeys (gput k v m)) = insert k (set (gkeys m))"
  by (induction m) auto

lemma gput_fresh: "k \<notin> set (gkeys m) \<Longrightarrow> gput k v m = m @ [(k, v)]"
  by (induction m) auto

lemma gget_in_set: "gwf m \<Longrightarrow> gget m k = Some v \<longleftrightarrow> (k, v) \<in> set m"
  by simp

lemma gkeys_gput: "k \<in> set (gkeys m) \<Longrightarrow> gkeys (gput k v m) = gkeys m"
  by (simp add: update_keys)

lemma gget_None_iff: "gget m k = None \<longleftrightarrow> k \<notin> set (gkeys m)"
  by (metis map_of_eq_None_iff image_set)

lemma gget_Some_key: "gget m k = Some v \<Longrightarrow> k \<in> set (gkeys m)"
  by (metis gget_None_iff option.distinct(1))

lemma length_gput: "length (gput k v m) = (if k \<in> set (gkeys m) then length m else Suc (length m))"
  by (induction m) auto

text \<open>The entries of one map put over another.\<close>

lemma gget_fold_gput: "gwf m \<Longrightarrow> gget (fold (\<lambda>(k, v). gput k v) m n) = gget n ++ gget m"
proof (induction m arbitrary: n)
  case (Cons e m)
  obtain k v where e: "e = (k, v)" by (cases e)
  have "k \<notin> dom (gget m)" using Cons.prems by (auto simp: e dom_map_of_conv_image_fst)
  then have "(gget n)(k \<mapsto> v) ++ gget m = (gget n ++ gget m)(k \<mapsto> v)"
    by (auto simp: map_add_def fun_eq_iff split: option.splits)
  moreover have "gget (fold (\<lambda>(k, v). gput k v) m (gput k v n)) = gget (gput k v n) ++ gget m"
    using Cons by simp
  ultimately show ?case by (simp add: e) (simp add: map_add_def fun_eq_iff split: option.splits)
qed simp

text \<open>\<open>if s, ok := m[k]; ok { for x := range s }\<close>: an absent entry has nothing to range over.\<close>

fun elems :: "'a list option \<Rightarrow> 'a list" where
  "elems None = []"
| "elems (Some xs) = xs"

section \<open>Ranges in random order\<close>

text \<open>A \<open>range\<close> over a map visits the entries in an order Go chooses anew each time.  Where the order can be seen,
  the choice is a parameter: the positions to take next among the entries left.  Every choice gives a
  permutation, and every permutation has its choice.\<close>

fun ranged :: "nat list \<Rightarrow> 'a list \<Rightarrow> 'a list" where
  "ranged ns [] = []"
| "ranged [] (x # xs) = x # xs"
| "ranged (n # ns) (x # xs) =
     (let k = n mod length (x # xs)
      in (x # xs) ! k # ranged ns (take k (x # xs) @ drop (Suc k) (x # xs)))"

lemma ranged_Cons:
  "xs \<noteq> [] \<Longrightarrow> ranged (n # ns) xs =
     xs ! (n mod length xs) # ranged ns (take (n mod length xs) xs @ drop (Suc (n mod length xs)) xs)"
  by (cases xs) (simp_all add: Let_def)

lemma mset_ranged [simp]: "mset (ranged ns xs) = mset xs"
proof (induction ns arbitrary: xs)
  case Nil
  then show ?case by (cases xs) simp_all
next
  case (Cons n ns)
  show ?case
  proof (cases "xs = []")
    case False
    define k where "k = n mod length xs"
    have "xs = take k xs @ xs ! k # drop (Suc k) xs"
      using False by (intro id_take_nth_drop) (simp add: k_def)
    from arg_cong [OF this, of mset] show ?thesis
      by (simp add: ranged_Cons [OF False] Cons.IH k_def [symmetric] del: ranged.simps)
  qed simp
qed

lemma set_ranged [simp]: "set (ranged ns xs) = set xs"
  by (rule mset_eq_setD) simp

lemma ranged_short [simp]: "length xs \<le> 1 \<Longrightarrow> ranged ns xs = xs"
  by (cases xs; cases ns) simp_all

lemma ranged_every: "mset ys = mset xs \<Longrightarrow> \<exists>ns. ranged ns xs = ys"
proof (induction ys arbitrary: xs)
  case (Cons y ys)
  then have "y \<in> set xs" by (metis list.set_intros(1) mset_eq_setD)
  then obtain k where k: "k < length xs" "xs ! k = y" by (auto simp: in_set_conv_nth)
  let ?rest = "take k xs @ drop (Suc k) xs"
  have "xs = take k xs @ y # drop (Suc k) xs" using id_take_nth_drop [OF k(1)] k(2) by simp
  from arg_cong [OF this, of mset] have "mset ys = mset ?rest" using Cons.prems by simp
  from Cons.IH [OF this] obtain ns where "ranged ns ?rest = ys" ..
  then have "ranged (k # ns) xs = y # ys" using k by (subst ranged_Cons) auto
  then show ?case ..
qed simp

section \<open>The parts of package strings the code uses\<close>

text \<open>\<open>strings.Count(s, sep)\<close>, \<open>strings.SplitN(s, sep, n)\<close> with \<open>n > 0\<close> and
  \<open>strings.Split(s, sep)\<close> for a separator of one byte, \<open>strings.Contains\<close>,
  \<open>strings.Join\<close>.\<close>

definition strCount :: "string \<Rightarrow> char \<Rightarrow> nat" where
  "strCount s c = length (filter (\<lambda>x. x = c) s)"

fun strSplitN :: "string \<Rightarrow> char \<Rightarrow> nat \<Rightarrow> string list" where
  "strSplitN s c n =
     (if n \<le> 1 \<or> c \<notin> set s then [s]
      else takeWhile (\<lambda>x. x \<noteq> c) s # strSplitN (tl (dropWhile (\<lambda>x. x \<noteq> c) s)) c (n - 1))"

declare strSplitN.simps [simp del]

definition strSplit :: "string \<Rightarrow> char \<Rightarrow> string list" where
  "strSplit s c = strSplitN s c (Suc (strCount s c))"

fun strHasPrefix :: "string \<Rightarrow> string \<Rightarrow> bool" where
  "strHasPrefix s [] = True"
| "strHasPrefix [] (c # cs) = False"
| "strHasPrefix (d # ds) (c # cs) = (d = c \<and> strHasPrefix ds cs)"

fun strContains :: "string \<Rightarrow> string \<Rightarrow> bool" where
  "strContains [] t = (t = [])"
| "strContains (c # s) t = (strHasPrefix (c # s) t \<or> strContains s t)"

fun strJoin :: "string list \<Rightarrow> string \<Rightarrow> string" where
  "strJoin [] sep = []"
| "strJoin [x] sep = x"
| "strJoin (x # xs) sep = x @ sep @ strJoin xs sep"

lemma strHasPrefix_iff: "strHasPrefix s t \<longleftrightarrow> (\<exists>r. s = t @ r)"
  by (induction s t rule: strHasPrefix.induct) auto

lemma strContains_iff: "strContains s t \<longleftrightarrow> (\<exists>a b. s = a @ t @ b)"
proof (induction s)
  case Nil
  then show ?case by auto
next
  case (Cons c s)
  have "(\<exists>a b. c # s = a @ t @ b) \<longleftrightarrow> (\<exists>b. c # s = t @ b) \<or> (\<exists>a b. s = a @ t @ b)"
    by (metis append_Cons append_Nil neq_Nil_conv list.inject)
  with Cons show ?case by (simp add: strHasPrefix_iff)
qed

lemma strSplitN_Cons:
  assumes "c \<notin> set x" and "1 < n"
  shows "strSplitN (x @ c # r) c n = x # strSplitN r c (n - 1)"
proof -
  have "takeWhile (\<lambda>y. y \<noteq> c) (x @ c # r) = x" "dropWhile (\<lambda>y. y \<noteq> c) (x @ c # r) = c # r"
    using assms(1) by (auto simp: takeWhile_append dropWhile_append)
  with assms(2) show ?thesis by (subst strSplitN.simps) simp
qed

lemma strSplitN_last: "n \<le> 1 \<or> c \<notin> set s \<Longrightarrow> strSplitN s c n = [s]"
  by (subst strSplitN.simps) auto

end
