(* ===== verification/Dag.thy ===== *)
theory Dag
  imports Go_Prelude
begin

text \<open>
  The directed graph of pkg/ccutils/dag: dag.go and transitive\_reduction.go.

  A \<open>dag\<close> holds the vertices with their payload, the two edge maps (a Go
  \<open>map[string]map[string]struct{}\<close> each: the inner map is a set, here the list of its
  keys) and the depth map of the reduction.  The reader/writer locks serialise the single
  operations and have no counterpart here.

  The reduction walks the graph in the order in which Go ranges over its maps.  That order
  is a parameter (\<open>orders\<close>): one choice for the vertices, and one for the successors of
  every visit of a walk, which is identified by the vertex the reduction started from, the
  phase and the path that led to the visit.  So every run of the Go code is an instance.
\<close>

section \<open>State and operations (dag.go)\<close>

record 'v dag =
  vertices :: "(string, 'v) gmap"
  downEdges :: "string \<rightharpoonup> string list"
  upEdges :: "string \<rightharpoonup> string list"
  vertexDepth :: "string \<rightharpoonup> int"

definition New :: "'v dag" where
  "New = \<lparr>vertices = [], downEdges = Map.empty, upEdges = Map.empty, vertexDepth = Map.empty\<rparr>"

definition AddVertex :: "string \<Rightarrow> 'v \<Rightarrow> 'v dag \<Rightarrow> goerr \<times> 'v dag" where
  "AddVertex s v r =
     (case gget (vertices r) s of
        Some _ \<Rightarrow> (Some (''duplicate vertex entry: '' @ s), r)
      | None \<Rightarrow> (None, r\<lparr>vertices := gput s v (vertices r)\<rparr>))"

definition GetVertices :: "'v dag \<Rightarrow> (string, 'v) gmap" where
  "GetVertices r = vertices r"

definition VertexExists :: "'v dag \<Rightarrow> string \<Rightarrow> bool" where
  "VertexExists r s = (gget (vertices r) s \<noteq> None)"

definition GetVertex :: "'v dag \<Rightarrow> string \<Rightarrow> 'v option" where
  "GetVertex r s = gget (vertices r) s"

text \<open>The inner maps: \<open>addTo\<close> initialises the entry of \<open>from\<close> and inserts \<open>to\<close>,
  \<open>delFrom\<close> deletes \<open>to\<close> when both entries exist.\<close>

definition addTo :: "string \<Rightarrow> string \<Rightarrow> (string \<rightharpoonup> string list) \<Rightarrow> (string \<rightharpoonup> string list)" where
  "addTo from to m =
     (let ts = elems (m from) in
      m(from \<mapsto> (if to \<in> set ts then ts else ts @ [to])))"

definition delFrom :: "string \<Rightarrow> string \<Rightarrow> (string \<rightharpoonup> string list) \<Rightarrow> (string \<rightharpoonup> string list)" where
  "delFrom from to m =
     (case m from of
        None \<Rightarrow> m
      | Some ts \<Rightarrow> if to \<in> set ts then m(from \<mapsto> filter (\<lambda>t. t \<noteq> to) ts) else m)"

definition AddDownEdge :: "string \<Rightarrow> string \<Rightarrow> 'v dag \<Rightarrow> 'v dag" where
  "AddDownEdge from to r = r\<lparr>downEdges := addTo from to (downEdges r)\<rparr>"

definition AddUpEdge :: "string \<Rightarrow> string \<Rightarrow> 'v dag \<Rightarrow> 'v dag" where
  "AddUpEdge from to r = r\<lparr>upEdges := addTo from to (upEdges r)\<rparr>"

definition DeleteDownEdge :: "string \<Rightarrow> string \<Rightarrow> 'v dag \<Rightarrow> 'v dag" where
  "DeleteDownEdge from to r = r\<lparr>downEdges := delFrom from to (downEdges r)\<rparr>"

definition DeleteUpEdge :: "string \<Rightarrow> string \<Rightarrow> 'v dag \<Rightarrow> 'v dag" where
  "DeleteUpEdge from to r = r\<lparr>upEdges := delFrom from to (upEdges r)\<rparr>"

definition Connect :: "string \<Rightarrow> string \<Rightarrow> 'v dag \<Rightarrow> 'v dag" where
  "Connect from to r = AddUpEdge to from (AddDownEdge from to r)"

definition Disconnect :: "string \<Rightarrow> string \<Rightarrow> 'v dag \<Rightarrow> 'v dag" where
  "Disconnect from to r = DeleteUpEdge to from (DeleteDownEdge from to r)"

definition GetDownVertexes :: "'v dag \<Rightarrow> string \<Rightarrow> string list" where
  "GetDownVertexes r from = elems (downEdges r from)"

definition GetUpVertexes :: "'v dag \<Rightarrow> string \<Rightarrow> string list" where
  "GetUpVertexes r from = elems (upEdges r from)"

record Edge =
  From :: string
  To :: string

definition GetUpEdges :: "'v dag \<Rightarrow> string \<Rightarrow> Edge list" where
  "GetUpEdges r from = map (\<lambda>to. \<lparr>From = from, To = to\<rparr>) (elems (upEdges r from))"

section \<open>The transitive reduction (transitive\_reduction.go)\<close>

definition initVertexDepthMap :: "'v dag \<Rightarrow> 'v dag" where
  "initVertexDepthMap r = r\<lparr>vertexDepth := Map.empty\<rparr>"

definition getVertexDepth :: "'v dag \<Rightarrow> string \<Rightarrow> int" where
  "getVertexDepth r n = (case vertexDepth r n of Some depth \<Rightarrow> depth | None \<Rightarrow> 0)"

definition addVertexDepth :: "string \<Rightarrow> int \<Rightarrow> 'v dag \<Rightarrow> 'v dag" where
  "addVertexDepth n depth r = r\<lparr>vertexDepth := (vertexDepth r)(n \<mapsto> depth)\<rparr>"

definition getbestVertexDepth :: "'v dag \<Rightarrow> string \<Rightarrow> int" where
  "getbestVertexDepth r from =
     fold (\<lambda>upVertex best.
             let upVertexDepth = getVertexDepth r upVertex in
             if upVertexDepth > best then upVertexDepth else best)
       (GetUpVertexes r from) 0"

text \<open>The loop ranges over the snapshot of the predecessors taken when it starts.\<close>

definition processTransitiveReducation :: "string \<Rightarrow> int \<Rightarrow> 'v dag \<Rightarrow> 'v dag" where
  "processTransitiveReducation from depth r =
     (let bestVertexDepth = getbestVertexDepth r from in
      fold (\<lambda>upVertex r.
              if bestVertexDepth \<noteq> 0 then
                if getVertexDepth r upVertex \<noteq> 0 \<and> getVertexDepth r upVertex \<noteq> bestVertexDepth
                then Disconnect upVertex from r else r
              else r)
        (GetUpVertexes r from) r)"

record 'v WalkConfig =
  WalkInitFn :: "('v dag \<Rightarrow> 'v dag) option"
  WalkEntryFn :: "(string \<Rightarrow> int \<Rightarrow> 'v dag \<Rightarrow> 'v dag) option"

text \<open>\<open>trwalk fuel pick path from init depth wc\<close>: the recursive walk.  \<open>pick\<close> orders the
  successors of a visit, given the path from the visit back to the start.  \<open>None\<close>: the
  recursion is deeper than \<open>fuel\<close>; \<open>trwalk_terminates\<close> and \<open>trwalk_diverges\<close> below say
  exactly when that happens for every fuel.\<close>

fun trwalk :: "nat \<Rightarrow> (string list \<Rightarrow> string list \<Rightarrow> string list) \<Rightarrow> string list \<Rightarrow>
    string \<Rightarrow> bool \<Rightarrow> int \<Rightarrow> 'v WalkConfig \<Rightarrow> 'v dag \<Rightarrow> 'v dag option" where
  "trwalk 0 pick path from init depth wc r = None"
| "trwalk (Suc fuel) pick path from init depth wc r =
     (let r1 = (case WalkInitFn wc of Some f \<Rightarrow> (if init then f r else r) | None \<Rightarrow> r);
          r2 = (case WalkEntryFn wc of Some f \<Rightarrow> f from depth r1 | None \<Rightarrow> r1);
          down = pick (from # path) (GetDownVertexes r2 from)
      in if down = [] then Some r2
         else ofold (\<lambda>downEdge r. trwalk fuel pick (from # path) downEdge False (depth + 1) wc r)
                down r2)"

record orders =
  vertexOrder :: "string list \<Rightarrow> string list"
  walkOrder :: "string \<Rightarrow> bool \<Rightarrow> string list \<Rightarrow> string list \<Rightarrow> string list"

text \<open>The two walks of the reduction of one vertex: record the depths, then cut.\<close>

definition depthWalk :: "'v WalkConfig" where
  "depthWalk = \<lparr>WalkInitFn = Some initVertexDepthMap, WalkEntryFn = Some addVertexDepth\<rparr>"

definition cutWalk :: "'v WalkConfig" where
  "cutWalk = \<lparr>WalkInitFn = None, WalkEntryFn = Some processTransitiveReducation\<rparr>"

definition reduceVertex :: "orders \<Rightarrow> nat \<Rightarrow> string \<Rightarrow> 'v dag \<Rightarrow> 'v dag option" where
  "reduceVertex ord fuel vertexName r = do {
     r1 \<leftarrow> trwalk fuel (walkOrder ord vertexName True) [] vertexName True 1 depthWalk r;
     trwalk fuel (walkOrder ord vertexName False) [] vertexName True 1 cutWalk r1 }"

definition TransitiveReduction :: "orders \<Rightarrow> nat \<Rightarrow> 'v dag \<Rightarrow> 'v dag option" where
  "TransitiveReduction ord fuel r =
     ofold (reduceVertex ord fuel) (vertexOrder ord (gkeys (GetVertices r))) r"

text \<open>An order permutes the list it is given; the facts below only need that it keeps its
  elements.\<close>

definition fair :: "(string list \<Rightarrow> string list \<Rightarrow> string list) \<Rightarrow> bool" where
  "fair pick \<longleftrightarrow> (\<forall>p xs. set (pick p xs) = set xs)"

lemma fairD: "fair pick \<Longrightarrow> set (pick p xs) = set xs"
  by (simp add: fair_def)

definition orders_ok :: "orders \<Rightarrow> bool" where
  "orders_ok ord \<longleftrightarrow> (\<forall>xs. set (vertexOrder ord xs) = set xs) \<and> (\<forall>v b. fair (walkOrder ord v b))"

definition id_orders :: orders where
  "id_orders = \<lparr>vertexOrder = (\<lambda>xs. xs), walkOrder = (\<lambda>v b p xs. xs)\<rparr>"

lemma id_orders_ok: "orders_ok id_orders"
  by (simp add: orders_ok_def id_orders_def fair_def)

section \<open>The graph a dag stands for\<close>

definition edges :: "'v dag \<Rightarrow> (string \<times> string) set" where
  "edges r = {(u, v). v \<in> set (GetDownVertexes r u)}"

definition upedges :: "'v dag \<Rightarrow> (string \<times> string) set" where
  "upedges r = {(u, v). u \<in> set (GetUpVertexes r v)}"

lemma edge_iff: "(u, v) \<in> edges r \<longleftrightarrow> v \<in> set (GetDownVertexes r u)"
  by (simp add: edges_def)

lemma upedge_iff: "(u, v) \<in> upedges r \<longleftrightarrow> u \<in> set (GetUpVertexes r v)"
  by (simp add: upedges_def)

text \<open>Well-formed: the two edge maps mirror each other, there are finitely many edges, and
  neither the vertex map nor a set of neighbours has an entry twice.\<close>

definition dag_ok :: "'v dag \<Rightarrow> bool" where
  "dag_ok r \<longleftrightarrow> gwf (vertices r) \<and> finite (edges r) \<and> upedges r = edges r \<and>
     (\<forall>v. distinct (GetDownVertexes r v)) \<and> (\<forall>v. distinct (GetUpVertexes r v))"

named_theorems dag_simps "how the operations act on vertices, edges and depths"

text \<open>The neighbours an edge map records for a vertex.\<close>

definition nbrs :: "(string \<rightharpoonup> string list) \<Rightarrow> string \<Rightarrow> string list" where
  "nbrs m x = elems (m x)"

lemma GetDownVertexes_nbrs: "GetDownVertexes r = nbrs (downEdges r)"
  by (simp add: fun_eq_iff GetDownVertexes_def nbrs_def)

lemma GetUpVertexes_nbrs: "GetUpVertexes r = nbrs (upEdges r)"
  by (simp add: fun_eq_iff GetUpVertexes_def nbrs_def)

lemma nbrs_addTo:
  "nbrs (addTo f t m) x = (if x = f \<and> t \<notin> set (nbrs m x) then nbrs m x @ [t] else nbrs m x)"
  by (cases "x = f") (auto simp: nbrs_def addTo_def Let_def)

lemma filter_absent: "t \<notin> set xs \<Longrightarrow> filter (\<lambda>y. y \<noteq> t) xs = xs"
  by (rule filter_True) auto

lemma nbrs_delFrom:
  "nbrs (delFrom f t m) x = (if x = f then filter (\<lambda>y. y \<noteq> t) (nbrs m x) else nbrs m x)"
  by (cases "m f") (auto simp: nbrs_def delFrom_def filter_absent)

lemma GetDownVertexes_Connect [dag_simps]:
  "GetDownVertexes (Connect f t r) x =
   (if x = f \<and> t \<notin> set (GetDownVertexes r x) then GetDownVertexes r x @ [t] else GetDownVertexes r x)"
  unfolding GetDownVertexes_nbrs by (simp add: Connect_def AddUpEdge_def AddDownEdge_def nbrs_addTo)

lemma GetUpVertexes_Connect [dag_simps]:
  "GetUpVertexes (Connect f t r) x =
   (if x = t \<and> f \<notin> set (GetUpVertexes r x) then GetUpVertexes r x @ [f] else GetUpVertexes r x)"
  unfolding GetUpVertexes_nbrs by (simp add: Connect_def AddUpEdge_def AddDownEdge_def nbrs_addTo)

lemma GetDownVertexes_Disconnect [dag_simps]:
  "GetDownVertexes (Disconnect f t r) x =
   (if x = f then filter (\<lambda>y. y \<noteq> t) (GetDownVertexes r x) else GetDownVertexes r x)"
  unfolding GetDownVertexes_nbrs
  by (simp add: Disconnect_def DeleteUpEdge_def DeleteDownEdge_def nbrs_delFrom)

lemma GetUpVertexes_Disconnect [dag_simps]:
  "GetUpVertexes (Disconnect f t r) x =
   (if x = t then filter (\<lambda>y. y \<noteq> f) (GetUpVertexes r x) else GetUpVertexes r x)"
  unfolding GetUpVertexes_nbrs
  by (simp add: Disconnect_def DeleteUpEdge_def DeleteDownEdge_def nbrs_delFrom)

lemma vertices_edge_ops [dag_simps]:
  "vertices (Connect f t r) = vertices r" "vertices (Disconnect f t r) = vertices r"
  "vertexDepth (Connect f t r) = vertexDepth r" "vertexDepth (Disconnect f t r) = vertexDepth r"
  by (simp_all add: Connect_def Disconnect_def AddUpEdge_def AddDownEdge_def DeleteUpEdge_def
      DeleteDownEdge_def)

lemma edges_Connect [dag_simps]: "edges (Connect f t r) = insert (f, t) (edges r)"
  by (auto simp: edges_def dag_simps split: if_splits)

lemma upedges_Connect [dag_simps]: "upedges (Connect f t r) = insert (f, t) (upedges r)"
  by (auto simp: upedges_def dag_simps split: if_splits)

lemma edges_Disconnect [dag_simps]: "edges (Disconnect f t r) = edges r - {(f, t)}"
  by (auto simp: edges_def dag_simps split: if_splits)

lemma upedges_Disconnect [dag_simps]: "upedges (Disconnect f t r) = upedges r - {(f, t)}"
  by (auto simp: upedges_def dag_simps split: if_splits)

lemma neighbours_depth_ops [dag_simps]:
  "GetDownVertexes (initVertexDepthMap r) = GetDownVertexes r"
  "GetUpVertexes (initVertexDepthMap r) = GetUpVertexes r"
  "GetDownVertexes (addVertexDepth n k r) = GetDownVertexes r"
  "GetUpVertexes (addVertexDepth n k r) = GetUpVertexes r"
  "vertices (initVertexDepthMap r) = vertices r" "vertices (addVertexDepth n k r) = vertices r"
  by (simp_all add: fun_eq_iff GetDownVertexes_def GetUpVertexes_def initVertexDepthMap_def
      addVertexDepth_def)

lemma edges_depth_ops [dag_simps]:
  "edges (initVertexDepthMap r) = edges r" "upedges (initVertexDepthMap r) = upedges r"
  "edges (addVertexDepth n k r) = edges r" "upedges (addVertexDepth n k r) = upedges r"
  by (simp_all add: edges_def upedges_def dag_simps)

lemma dag_ok_New [simp]: "dag_ok New"
  by (simp add: dag_ok_def New_def edges_def upedges_def GetDownVertexes_def GetUpVertexes_def)

lemma edges_New [simp]: "edges New = {}" "vertices New = []"
  by (simp_all add: New_def edges_def GetDownVertexes_def)

lemma AddVertex_edges [dag_simps]:
  "edges (snd (AddVertex s v r)) = edges r" "upedges (snd (AddVertex s v r)) = upedges r"
  "GetDownVertexes (snd (AddVertex s v r)) = GetDownVertexes r"
  "GetUpVertexes (snd (AddVertex s v r)) = GetUpVertexes r"
  by (auto simp: fun_eq_iff AddVertex_def edges_def upedges_def GetDownVertexes_def
      GetUpVertexes_def split: option.splits)

lemma dag_ok_AddVertex [intro]: "dag_ok r \<Longrightarrow> dag_ok (snd (AddVertex s v r))"
  unfolding dag_ok_def dag_simps by (auto simp: AddVertex_def split: option.splits)

lemma dag_ok_Connect [intro]: "dag_ok r \<Longrightarrow> dag_ok (Connect f t r)"
  by (auto simp: dag_ok_def dag_simps)

lemma dag_ok_Disconnect [intro]: "dag_ok r \<Longrightarrow> dag_ok (Disconnect f t r)"
  by (auto simp: dag_ok_def dag_simps)

end
