(* ===== verification/Dag_Reduction.thy ===== *)
theory Dag_Reduction
  imports Dag
begin

text \<open>
  What the transitive reduction of pkg/ccutils/dag does: the contract of a walk as a locale,
  its interpretations on the two walks of the reduction, and from them termination on acyclic
  graphs, divergence on cyclic ones, and the facts every reduction keeps.
\<close>

section \<open>One call of processTransitiveReducation\<close>

text \<open>The predecessors one call cuts off: their depth is known and is not the best one.\<close>

definition cut :: "'v dag \<Rightarrow> int \<Rightarrow> string set" where
  "cut r best = {u. best \<noteq> 0 \<and> getVertexDepth r u \<noteq> 0 \<and> getVertexDepth r u \<noteq> best}"

lemma getVertexDepth_Disconnect [dag_simps]: "getVertexDepth (Disconnect f t r) = getVertexDepth r"
  by (simp add: fun_eq_iff getVertexDepth_def dag_simps)

lemma fold_cut:
  fixes r :: "'v dag"
  defines "body \<equiv> \<lambda>best v u (r :: 'v dag).
     if best \<noteq> 0 then
       if getVertexDepth r u \<noteq> 0 \<and> getVertexDepth r u \<noteq> best then Disconnect u v r else r
     else r"
  shows "edges (fold (body best v) us r) = edges r - (set us \<inter> cut r best) \<times> {v}"
    and "vertices (fold (body best v) us r) = vertices r"
    and "dag_ok r \<Longrightarrow> dag_ok (fold (body best v) us r)"
proof (induction us arbitrary: r)
  case Nil
  { case 1 show ?case by simp } { case 2 show ?case by simp } { case 3 then show ?case by simp }
next
  case (Cons u us)
  have b: "body best v u r = (if u \<in> cut r best then Disconnect u v r else r)" for r :: "'v dag"
    by (simp add: body_def cut_def)
  have c: "cut (body best v u r) best = cut r best" for r :: "'v dag"
    by (simp add: b cut_def dag_simps)
  { case 1 show ?case by (auto simp: Cons c) (auto simp: b dag_simps split: if_splits) }
  { case 2 show ?case by (simp add: Cons) (simp add: b dag_simps) }
  { case 3 then show ?case by (simp add: Cons b dag_ok_Disconnect) }
qed

lemma process_edges:
  "edges (processTransitiveReducation v k r) =
     edges r - (set (GetUpVertexes r v) \<inter> cut r (getbestVertexDepth r v)) \<times> {v}"
  "vertices (processTransitiveReducation v k r) = vertices r"
  "dag_ok r \<Longrightarrow> dag_ok (processTransitiveReducation v k r)"
  unfolding processTransitiveReducation_def Let_def
  by (simp_all add: fold_cut)

text \<open>The best depth is the depth of a predecessor, unless it is 0.\<close>

lemma best_is_depth:
  "getbestVertexDepth r v \<noteq> 0 \<Longrightarrow>
     \<exists>u \<in> set (GetUpVertexes r v). getVertexDepth r u = getbestVertexDepth r v"
proof -
  let ?f = "\<lambda>u best. let d = getVertexDepth r u in if d > best then d else best"
  have "fold ?f us b = b \<or> (\<exists>u \<in> set us. getVertexDepth r u = fold ?f us b)" for us b
  proof (induction us arbitrary: b)
    case (Cons u us)
    show ?case using Cons [of "?f u b"] by (auto simp: Let_def split: if_splits)
  qed simp
  from this [of "GetUpVertexes r v" 0]
  show "getbestVertexDepth r v \<noteq> 0 \<Longrightarrow> ?thesis" by (simp add: getbestVertexDepth_def)
qed

lemma process_Range:
  assumes "dag_ok r"
  shows "Range (edges (processTransitiveReducation v k r)) = Range (edges r)" (is "Range ?E = _")
proof (rule antisym)
  show "Range ?E \<subseteq> Range (edges r)" by (auto simp: process_edges)
  show "Range (edges r) \<subseteq> Range ?E"
  proof
    fix w
    assume "w \<in> Range (edges r)"
    then obtain u where u: "(u, w) \<in> edges r" by auto
    let ?b = "getbestVertexDepth r v"
    show "w \<in> Range ?E"
    proof (cases "w = v \<and> ?b \<noteq> 0")
      case True
      then obtain x where "x \<in> set (GetUpVertexes r v)" "getVertexDepth r x = ?b"
        using best_is_depth by blast
      moreover from this have "(x, v) \<in> edges r"
        using assms by (auto simp: dag_ok_def upedges_def)
      ultimately show ?thesis using True by (auto simp: process_edges cut_def)
    next
      case False
      with u show ?thesis by (auto simp: process_edges cut_def)
    qed
  qed
qed

section \<open>The contract of a walk\<close>

lemma relpow_subset: "A \<subseteq> B \<Longrightarrow> A ^^ n \<subseteq> B ^^ n" for A B :: "('a \<times> 'a) set"
  by (induction n) (auto intro: relcomp_mono [THEN subsetD])

text \<open>
  A walk whose callbacks act by a preorder \<open>R\<close> that never adds edges, as long as they are
  called at vertices satisfying \<open>V\<close>.
\<close>

locale walk_contract =
  fixes wc :: "'v WalkConfig" and R :: "'v dag \<Rightarrow> 'v dag \<Rightarrow> bool" and V :: "string \<Rightarrow> bool"
  assumes R_refl: "R r r"
    and R_trans: "R r s \<Longrightarrow> R s t \<Longrightarrow> R r t"
    and R_edges: "R r s \<Longrightarrow> edges s \<subseteq> edges r"
    and R_init: "WalkInitFn wc = Some f \<Longrightarrow> R r (f r)"
    and R_entry: "V v \<Longrightarrow> WalkEntryFn wc = Some g \<Longrightarrow> R r (g v k r)"
begin

abbreviation visit :: "string \<Rightarrow> bool \<Rightarrow> int \<Rightarrow> 'v dag \<Rightarrow> 'v dag" where
  "visit v i k r \<equiv>
     (let r1 = (case WalkInitFn wc of Some f \<Rightarrow> (if i then f r else r) | None \<Rightarrow> r) in
      case WalkEntryFn wc of Some f \<Rightarrow> f v k r1 | None \<Rightarrow> r1)"

definition closed :: "'v dag \<Rightarrow> bool" where
  "closed r \<longleftrightarrow> (\<forall>a b. (a, b) \<in> edges r \<longrightarrow> V a \<longrightarrow> V b)"

lemma visit_R: "V v \<Longrightarrow> R r (visit v i k r)"
  using R_refl R_trans R_init R_entry
  by (auto simp: Let_def split: option.splits) blast+

lemma closed_R: "closed r \<Longrightarrow> R r s \<Longrightarrow> closed s"
  unfolding closed_def using R_edges by blast

lemma trwalk_step:
  "trwalk (Suc n) pick p v i k wc r =
     ofold (\<lambda>w. trwalk n pick (v # p) w False (k + 1) wc)
       (pick (v # p) (GetDownVertexes (visit v i k r) v)) (visit v i k r)"
  by (auto simp: Let_def)

lemma trwalk_rel:
  assumes "trwalk n pick p v i k wc r = Some s" and "V v" and "closed r"
    and fair: "fair pick"
  shows "R r s"
  using assms(1-3)
proof (induction n arbitrary: p v i k r s)
  case 0
  then show ?case by simp
next
  case (Suc n)
  let ?r = "visit v i k r"
  have R: "R r ?r" by (rule visit_R) (rule Suc.prems)
  then have cl: "closed ?r" using Suc.prems closed_R by blast
  have "R ?r s \<and> closed s"
  proof (rule ofold_inv [where P = "\<lambda>s. R ?r s \<and> closed s"])
    show "ofold (\<lambda>w. trwalk n pick (v # p) w False (k + 1) wc)
       (pick (v # p) (GetDownVertexes ?r v)) ?r = Some s"
      using Suc.prems(1) unfolding trwalk_step .
    show "R ?r ?r \<and> closed ?r" using R_refl cl by simp
  next
    fix w t u
    assume w: "w \<in> set (pick (v # p) (GetDownVertexes ?r v))" and t: "R ?r t \<and> closed t"
      and u: "trwalk n pick (v # p) w False (k + 1) wc t = Some u"
    have "V w" using w cl Suc.prems(2) by (auto simp: fairD [OF fair] closed_def edges_def)
    then have "R t u" using Suc.IH [OF u] t by blast
    then show "R ?r u \<and> closed u" using t R_trans closed_R by blast
  qed
  with R show ?case using R_trans by blast
qed

lemma trwalk_total:
  assumes "\<forall>w. (v, w) \<notin> edges r ^^ n" and "V v" and "closed r"
    and fair: "fair pick"
  shows "\<exists>s. trwalk n pick p v i k wc r = Some s"
  using assms(1-3)
proof (induction n arbitrary: p v i k r)
  case 0
  then show ?case by auto
next
  case (Suc n)
  let ?r = "visit v i k r"
  have R: "R r ?r" by (rule visit_R) (rule Suc.prems)
  then have cl: "closed ?r" using Suc.prems closed_R by blast
  have "\<exists>s. ofold (\<lambda>w. trwalk n pick (v # p) w False (k + 1) wc)
       (pick (v # p) (GetDownVertexes ?r v)) ?r = Some s \<and> R ?r s \<and> closed s"
  proof (rule ofold_total)
    show "R ?r ?r \<and> closed ?r" using R_refl cl by simp
  next
    fix w t
    assume w: "w \<in> set (pick (v # p) (GetDownVertexes ?r v))" and t: "R ?r t \<and> closed t"
    have vw: "(v, w) \<in> edges ?r" using w by (simp add: fairD [OF fair] edges_def)
    then have "V w" using cl Suc.prems(2) by (auto simp: closed_def)
    have sub: "edges t \<subseteq> edges r" using R_edges [OF R] R_edges t by blast
    have "(w, x) \<notin> edges t ^^ n" for x
    proof
      assume "(w, x) \<in> edges t ^^ n"
      then have "(w, x) \<in> edges r ^^ n" using relpow_subset [OF sub] by blast
      moreover have "(v, w) \<in> edges r" using vw R_edges [OF R] by blast
      ultimately show False using Suc.prems(1) relpow_Suc_I2 by metis
    qed
    then obtain u where u: "trwalk n pick (v # p) w False (k + 1) wc t = Some u"
      using Suc.IH \<open>V w\<close> t by blast
    with t have "R t u" using trwalk_rel [OF _ \<open>V w\<close> _ fair] by blast
    with u t show "\<exists>u. trwalk n pick (v # p) w False (k + 1) wc t = Some u \<and> R ?r u \<and> closed u"
      using R_trans closed_R by blast
  qed
  then show ?case unfolding trwalk_step by blast
qed

end

text \<open>A walk that does not touch the edges runs out of every fuel on a long path.\<close>

locale exact_walk = walk_contract +
  assumes R_same: "R r s \<Longrightarrow> edges s = edges r"
begin

lemma trwalk_diverges:
  assumes "(v, w) \<in> edges r ^^ n" and "V v" and "closed r"
    and fair: "fair pick"
  shows "trwalk n pick p v i k wc r = None"
  using assms(1-3)
proof (induction n arbitrary: p v i k r)
  case 0
  then show ?case by simp
next
  case (Suc n)
  let ?r = "visit v i k r"
  have R: "R r ?r" by (rule visit_R) (rule Suc.prems)
  then have cl: "closed ?r" using Suc.prems closed_R by blast
  obtain x where x: "(v, x) \<in> edges r" "(x, w) \<in> edges r ^^ n"
    using Suc.prems(1) by (meson relpow_Suc_D2)
  have V: "V y" if "y \<in> set (pick (v # p) (GetDownVertexes ?r v))" for y
    using that cl Suc.prems(2) by (auto simp: fairD [OF fair] closed_def edges_def)
  have "x \<in> set (pick (v # p) (GetDownVertexes ?r v))"
    using x(1) R_same [OF R] by (simp add: fairD [OF fair] flip: edge_iff)
  then have "ofold (\<lambda>w. trwalk n pick (v # p) w False (k + 1) wc)
       (pick (v # p) (GetDownVertexes ?r v)) ?r = None"
  proof (rule ofold_None [where P = "\<lambda>s. R ?r s \<and> closed s"])
    show "R ?r ?r \<and> closed ?r" using R_refl cl by simp
  next
    fix y s t
    assume "y \<in> set (pick (v # p) (GetDownVertexes ?r v))" and s: "R ?r s \<and> closed s"
      and "trwalk n pick (v # p) y False (k + 1) wc s = Some t"
    then have "R s t" using trwalk_rel [OF _ V _ fair] by blast
    then show "R ?r t \<and> closed t" using s R_trans closed_R by blast
  next
    fix s
    assume s: "R ?r s \<and> closed s"
    then have "edges s = edges r" using R_same [OF R] R_same by blast
    then show "trwalk n pick (v # p) x False (k + 1) wc s = None"
      using Suc.IH x(2) s V x(1) R_same [OF R] by (simp add: fairD [OF fair] flip: edge_iff)
  qed
  then show ?case unfolding trwalk_step .
qed

end

section \<open>The two walks of the reduction\<close>

text \<open>The depth walk leaves the graph alone; the cutting walk removes edges, and leaves every
  vertex that has a predecessor with one.\<close>

definition same_graph :: "'v dag \<Rightarrow> 'v dag \<Rightarrow> bool" where
  "same_graph r s \<longleftrightarrow> vertices s = vertices r \<and> GetDownVertexes s = GetDownVertexes r \<and>
     GetUpVertexes s = GetUpVertexes r"

definition shrinks :: "'v dag \<Rightarrow> 'v dag \<Rightarrow> bool" where
  "shrinks r s \<longleftrightarrow> vertices s = vertices r \<and> edges s \<subseteq> edges r \<and>
     (dag_ok r \<longrightarrow> dag_ok s \<and> Range (edges s) = Range (edges r))"

definition spares :: "string set \<Rightarrow> 'v dag \<Rightarrow> 'v dag \<Rightarrow> bool" where
  "spares C r s \<longleftrightarrow> edges s \<subseteq> edges r \<and> {(a, b) \<in> edges r. b \<in> C} \<subseteq> edges s"

lemma same_graph_edges: "same_graph r s \<Longrightarrow> edges s = edges r"
  by (simp add: same_graph_def edges_def)

lemma same_graph_shrinks: "same_graph r s \<Longrightarrow> shrinks r s"
  by (simp add: same_graph_def shrinks_def dag_ok_def edges_def upedges_def)

lemma shrinks_refl: "shrinks r r"
  by (simp add: shrinks_def)

lemma shrinks_trans: "shrinks r s \<Longrightarrow> shrinks s t \<Longrightarrow> shrinks r t"
  by (auto simp: shrinks_def)

lemma process_shrinks: "shrinks r (processTransitiveReducation v k r)"
  using process_Range [of r v k] by (auto simp: shrinks_def process_edges)

lemma spares_refl: "spares C r r"
  by (auto simp: spares_def)

lemma spares_trans: "spares C r s \<Longrightarrow> spares C s t \<Longrightarrow> spares C r t"
  by (auto simp: spares_def)

interpretation depth_walk: exact_walk depthWalk same_graph "\<lambda>_. True"
  by unfold_locales (auto simp: same_graph_def depthWalk_def dag_simps same_graph_edges edges_def)

interpretation cut_walk: walk_contract cutWalk shrinks "\<lambda>_. True"
  by unfold_locales
    (auto simp: shrinks_refl cutWalk_def process_shrinks intro: shrinks_trans, auto simp: shrinks_def)

interpretation spare_walk: walk_contract cutWalk "spares C" "\<lambda>v. v \<notin> C" for C
  by unfold_locales
    (auto simp: spares_refl cutWalk_def process_edges spares_def intro: spares_trans)

lemma depth_walk_same:
  "trwalk n pick p v i k depthWalk r = Some s \<Longrightarrow> fair pick \<Longrightarrow> same_graph r s"
  by (rule depth_walk.trwalk_rel) (auto simp: depth_walk.closed_def)

lemma cut_walk_shrinks:
  "trwalk n pick p v i k cutWalk r = Some s \<Longrightarrow> fair pick \<Longrightarrow> shrinks r s"
  by (rule cut_walk.trwalk_rel) (auto simp: cut_walk.closed_def)

lemma reduceVertex_shrinks:
  assumes "reduceVertex ord n v r = Some s" and "orders_ok ord"
  shows "shrinks r s"
proof -
  from assms(1) obtain r1 where
    1: "trwalk n (walkOrder ord v True) [] v True 1 depthWalk r = Some r1" and
    2: "trwalk n (walkOrder ord v False) [] v True 1 cutWalk r1 = Some s"
    by (auto simp: reduceVertex_def bind_eq_Some_conv)
  have "shrinks r r1" using depth_walk_same [OF 1] assms(2) same_graph_shrinks
    by (auto simp: orders_ok_def)
  moreover have "shrinks r1 s" using cut_walk_shrinks [OF 2] assms(2) by (auto simp: orders_ok_def)
  ultimately show ?thesis by (rule shrinks_trans)
qed

lemma TransitiveReduction_shrinks:
  assumes "TransitiveReduction ord n r = Some s" and "orders_ok ord"
  shows "shrinks r s"
  using assms(1) unfolding TransitiveReduction_def
  by (rule ofold_rel [where R = shrinks])
    (auto intro: shrinks_refl shrinks_trans reduceVertex_shrinks assms(2))

section \<open>Termination\<close>

lemma reduceVertex_total:
  assumes "\<forall>w. (v, w) \<notin> edges r ^^ n" and "orders_ok ord"
  shows "\<exists>s. reduceVertex ord n v r = Some s"
proof -
  have f: "fair (walkOrder ord v b)" for b using assms(2) by (simp add: orders_ok_def)
  obtain r1 where 1: "trwalk n (walkOrder ord v True) [] v True 1 depthWalk r = Some r1"
    using depth_walk.trwalk_total [OF assms(1) TrueI _ f, of True "[]" True 1]
    by (auto simp: depth_walk.closed_def)
  have "\<forall>w. (v, w) \<notin> edges r1 ^^ n"
    using assms(1) same_graph_edges [OF depth_walk_same [OF 1 f]] by simp
  then obtain s where "trwalk n (walkOrder ord v False) [] v True 1 cutWalk r1 = Some s"
    using cut_walk.trwalk_total [where v = v and r = r1 and n = n and p = "[]" and i = True
        and k = 1 and pick = "walkOrder ord v False"] f by (auto simp: cut_walk.closed_def)
  with 1 show ?thesis by (simp add: reduceVertex_def)
qed

lemma TransitiveReduction_total:
  assumes "\<forall>v w. (v, w) \<notin> edges r ^^ n" and "orders_ok ord"
  shows "\<exists>s. TransitiveReduction ord n r = Some s"
proof -
  have "\<exists>s. TransitiveReduction ord n r = Some s \<and> edges s \<subseteq> edges r"
    unfolding TransitiveReduction_def
  proof (rule ofold_total)
    fix v s
    assume s: "edges s \<subseteq> edges r"
    then have "\<forall>w. (v, w) \<notin> edges s ^^ n" using assms(1) relpow_subset by blast
    then obtain t where t: "reduceVertex ord n v s = Some t"
      using reduceVertex_total assms(2) by blast
    moreover have "edges t \<subseteq> edges r"
      using reduceVertex_shrinks [OF t assms(2)] s by (auto simp: shrinks_def)
    ultimately show "\<exists>t. reduceVertex ord n v s = Some t \<and> edges t \<subseteq> edges r" by blast
  qed simp
  then show ?thesis by blast
qed

text \<open>In a finite acyclic graph no path is longer than the number of vertices with a
  predecessor.\<close>

lemma acyclic_path_bound:
  assumes "finite E" and "acyclic E" and "(v, w) \<in> E ^^ n"
  shows "n \<le> card (Range E)"
proof -
  obtain f where f: "\<And>i. i < n \<Longrightarrow> (f i, f (Suc i)) \<in> E"
    using assms(3) by (auto simp: relpow_fun_conv)
  have lt: "(f i, f j) \<in> E\<^sup>+" if "i < j" "j \<le> n" for i j
    using that
  proof (induction j)
    case (Suc j)
    have "(f j, f (Suc j)) \<in> E" using Suc.prems by (intro f) simp
    then show ?case using Suc by (cases "i = j") (auto intro: trancl_into_trancl)
  qed simp
  have "inj_on f {1..n}"
  proof (rule linorder_inj_onI)
    fix i j
    assume "i < j" "i \<in> {1..n}" "j \<in> {1..n}"
    then have "(f i, f j) \<in> E\<^sup>+" by (intro lt) auto
    then show "f i \<noteq> f j" using assms(2) by (auto simp: acyclic_def)
  qed auto
  moreover have "f ` {1..n} \<subseteq> Range E"
  proof
    fix y
    assume "y \<in> f ` {1..n}"
    then obtain i where "i < n" "y = f (Suc i)" by (auto simp: image_iff) (metis Suc_le_D Suc_le_eq One_nat_def)
    then show "y \<in> Range E" using f by blast
  qed
  ultimately have "card {1..n} \<le> card (Range E)"
    using assms(1) by (intro card_inj_on_le) (auto simp: finite_Range)
  then show ?thesis by simp
qed

section \<open>Divergence on a cycle\<close>

lemma relpow_into_spared:
  assumes "(x, w) \<in> E ^^ n" and "{(a, b) \<in> E. (b, w) \<in> E\<^sup>*} \<subseteq> E'"
  shows "(x, w) \<in> E' ^^ n"
  using assms(1)
proof (induction n arbitrary: x)
  case 0
  then show ?case by simp
next
  case (Suc n)
  then obtain y where y: "(x, y) \<in> E" "(y, w) \<in> E ^^ n" by (meson relpow_Suc_D2)
  then have "(x, y) \<in> E'" using assms(2) relpow_imp_rtrancl by fastforce
  with Suc.IH [OF y(2)] show ?case by (meson relpow_Suc_I2)
qed

lemma cycle_long_path:
  assumes "(v, w) \<in> E\<^sup>*" and "(w, w) \<in> E\<^sup>+"
  shows "\<exists>m \<ge> n. (v, w) \<in> E ^^ m"
proof (induction n)
  case 0
  then show ?case using assms(1) by (auto simp: rtrancl_power)
next
  case (Suc n)
  then obtain m where m: "m \<ge> n" "(v, w) \<in> E ^^ m" by blast
  obtain k where k: "0 < k" "(w, w) \<in> E ^^ k" using assms(2) by (auto simp: trancl_power)
  have "(v, w) \<in> E ^^ (m + k)" using m(2) k(2) by (auto simp: relpow_add)
  then show ?case using m(1) k(1) by (intro exI [of _ "m + k"]) auto
qed

lemma reduceVertex_diverges:
  assumes "(v, w) \<in> edges r ^^ m" and "n \<le> m" and "orders_ok ord"
  shows "reduceVertex ord n v r = None"
proof -
  have f: "fair (walkOrder ord v True)" using assms(3) by (simp add: orders_ok_def)
  have "(v, w) \<in> edges r ^^ (n + (m - n))" using assms(1,2) by simp
  then obtain z where "(v, z) \<in> edges r ^^ n" by (auto simp: relpow_add)
  then have "trwalk n (walkOrder ord v True) [] v True 1 depthWalk r = None"
    by (rule depth_walk.trwalk_diverges) (auto simp: f depth_walk.closed_def)
  then show ?thesis by (simp add: reduceVertex_def)
qed

lemma reduceVertex_spares:
  assumes "reduceVertex ord n v r = Some s" and "orders_ok ord" and "v \<notin> C"
    and closed: "\<forall>a b. (a, b) \<in> edges r \<longrightarrow> b \<in> C \<longrightarrow> a \<in> C"
  shows "spares C r s"
proof -
  have f: "fair (walkOrder ord v b)" for b using assms(2) by (simp add: orders_ok_def)
  from assms(1) obtain r1 where
    1: "trwalk n (walkOrder ord v True) [] v True 1 depthWalk r = Some r1" and
    2: "trwalk n (walkOrder ord v False) [] v True 1 cutWalk r1 = Some s"
    by (auto simp: reduceVertex_def bind_eq_Some_conv)
  have e: "edges r1 = edges r" using same_graph_edges [OF depth_walk_same [OF 1 f]] .
  have "spares C r1 s"
    using spare_walk.trwalk_rel [OF 2 assms(3) _ f] closed e by (auto simp: spare_walk.closed_def)
  then show ?thesis by (simp add: spares_def e)
qed

section \<open>Acyclic and cyclic graphs\<close>

lemma reduction_of_acyclic:
  assumes "dag_ok r" and "acyclic (edges r)" and "orders_ok ord" and "card (Range (edges r)) < fuel"
  shows "\<exists>s. TransitiveReduction ord fuel r = Some s"
proof (rule TransitiveReduction_total [OF _ assms(3)])
  have "finite (edges r)" using assms(1) by (simp add: dag_ok_def)
  then show "\<forall>v w. (v, w) \<notin> edges r ^^ fuel"
    using acyclic_path_bound [OF _ assms(2)] assms(4) by (meson not_le)
qed

lemma reduction_of_cycle:
  assumes "orders_ok ord" and "VertexExists r v" and "(v, w) \<in> (edges r)\<^sup>*" and "(w, w) \<in> (edges r)\<^sup>+"
  shows "TransitiveReduction ord fuel r = None"
proof -
  let ?C = "{x. (x, w) \<in> (edges r)\<^sup>*}"
  have long: "\<exists>m \<ge> fuel. (x, w) \<in> edges s ^^ m" if s: "spares ?C r s" and x: "x \<in> ?C" for x s
  proof -
    obtain m where "m \<ge> fuel" "(x, w) \<in> edges r ^^ m"
      using cycle_long_path [OF _ assms(4)] x by blast
    then show ?thesis using relpow_into_spared [of x w m "edges r" "edges s"] s
      by (auto simp: spares_def)
  qed
  have "v \<in> set (vertexOrder ord (gkeys (GetVertices r)))"
    using assms(1,2) gget_Some_key [of "vertices r" v]
    by (auto simp: orders_ok_def VertexExists_def GetVertices_def)
  then show ?thesis unfolding TransitiveReduction_def
  proof (rule ofold_None [where P = "spares ?C r"])
    fix y s t
    assume s: "spares ?C r s" and t: "reduceVertex ord fuel y s = Some t"
    then have "y \<notin> ?C" using long [OF s] reduceVertex_diverges [OF _ _ assms(1)] by fastforce
    moreover have "\<forall>a b. (a, b) \<in> edges s \<longrightarrow> b \<in> ?C \<longrightarrow> a \<in> ?C"
      using s by (auto simp: spares_def intro: converse_rtrancl_into_rtrancl)
    ultimately have "spares ?C s t" by (rule reduceVertex_spares [OF t assms(1)])
    then show "spares ?C r t" by (rule spares_trans [OF s])
  next
    fix s
    assume "spares ?C r s"
    then show "reduceVertex ord fuel v s = None"
      using long [of s v] assms(3) reduceVertex_diverges [OF _ _ assms(1)] by blast
  qed (rule spares_refl)
qed

end
