(* ===== verification/Dag_Properties.thy ===== *)
theory Dag_Properties
  imports Dag_Reduction
begin

text \<open>
  The properties of the transitive reduction of pkg/ccutils/dag: when it returns, what it
  keeps, and what it loses, each with a run on a small graph.
\<close>

section \<open>Properties of the reduction\<close>

text \<open>Sample graphs: a root \<open>r\<close> with the branches \<open>r a b d\<close> and \<open>r c d\<close>; the same with the
  redundant edge \<open>r d\<close> instead of the second branch; a cycle.\<close>

definition two_branches :: "unit dag" where
  "two_branches =
     Connect ''c'' ''d'' (Connect ''r'' ''c'' (Connect ''b'' ''d'' (Connect ''a'' ''b''
       (Connect ''r'' ''a'' (New\<lparr>vertices := map (\<lambda>v. (v, ())) [''r'', ''a'', ''b'', ''c'', ''d'']\<rparr>)))))"

definition shortcut :: "unit dag" where
  "shortcut =
     Connect ''r'' ''b'' (Connect ''a'' ''b'' (Connect ''r'' ''a''
       (New\<lparr>vertices := map (\<lambda>v. (v, ())) [''r'', ''a'', ''b'']\<rparr>)))"

definition two_cycle :: "unit dag" where
  "two_cycle = Connect ''b'' ''a'' (Connect ''a'' ''b'' (Connect ''r'' ''a''
       (New\<lparr>vertices := map (\<lambda>v. (v, ())) [''r'', ''a'', ''b'']\<rparr>)))"

lemma dag_ok_vertices: "gwf vs \<Longrightarrow> dag_ok (New\<lparr>vertices := vs\<rparr>)"
  by (simp add: dag_ok_def New_def edges_def upedges_def GetDownVertexes_def GetUpVertexes_def)

lemma edges_New_vertices [simp]: "edges (New\<lparr>vertices := vs\<rparr>) = {}"
  by (simp add: New_def edges_def GetDownVertexes_def)

lemma dag_ok_samples: "dag_ok two_branches" "dag_ok shortcut" "dag_ok two_cycle"
  unfolding two_branches_def shortcut_def two_cycle_def
  by (intro dag_ok_Connect dag_ok_vertices; simp)+

lemma edges_samples:
  "edges two_branches = {(''r'', ''a''), (''a'', ''b''), (''b'', ''d''), (''r'', ''c''), (''c'', ''d'')}"
  "edges shortcut = {(''r'', ''a''), (''a'', ''b''), (''r'', ''b'')}"
  "edges two_cycle = {(''r'', ''a''), (''a'', ''b''), (''b'', ''a'')}"
  by (auto simp: two_branches_def shortcut_def two_cycle_def edges_Connect)

lemma two_branches_reduced:
  "map_option (\<lambda>s. GetDownVertexes s ''c'') (TransitiveReduction id_orders 6 two_branches) = Some []"
  by code_simp

text \<open>A relation that follows a rank is acyclic.\<close>

lemma acyclic_rank: "(\<And>a b. (a, b) \<in> E \<Longrightarrow> (rank a :: nat) < rank b) \<Longrightarrow> acyclic E"
  by (rule acyclic_subset [of "inv_image less_than rank"])
    (auto intro: wf_acyclic wf_inv_image)

lemma acyclic_two_branches: "acyclic (edges two_branches)"
  by (rule acyclic_rank [of _ "\<lambda>v. if v = ''r'' then 0 else if v = ''a'' then 1
        else if v = ''d'' then 3 else 2"]) (auto simp: edges_samples)

text \<open>C18: TransitiveReduction returns on every well-formed acyclic graph, in whatever order Go
  ranges over its maps, as soon as the recursion may go deeper than the number of vertices with
  a predecessor.\<close>

theorem TransitiveReduction_terminates:
  assumes "dag_ok r" and "acyclic (edges r)" and "orders_ok ord" and "card (Range (edges r)) < fuel"
  shows "\<exists>s. TransitiveReduction ord fuel r = Some s"
  using assms by (rule reduction_of_acyclic)

theorem TransitiveReduction_terminates_witness:
  "\<exists>s. TransitiveReduction id_orders 6 two_branches = Some s"
proof (rule TransitiveReduction_terminates [OF dag_ok_samples(1) acyclic_two_branches id_orders_ok])
  have "Range (edges two_branches) \<subseteq> set [''a'', ''b'', ''c'', ''d'']" by (auto simp: edges_samples)
  then have "card (Range (edges two_branches)) \<le> card (set [''a'', ''b'', ''c'', ''d''])"
    by (intro card_mono) simp_all
  also have "\<dots> \<le> 4" by (rule order_trans [OF card_length]) simp
  finally show "card (Range (edges two_branches)) < 6" by simp
qed

text \<open>On a graph in which some vertex reaches a cycle, TransitiveReduction does not return:
  it exceeds every recursion depth, in every order (in Go, the stack overflows).\<close>

lemma TransitiveReduction_cycle_diverges:
  assumes "orders_ok ord" and "VertexExists r v" and "(v, w) \<in> (edges r)\<^sup>*" and "(w, w) \<in> (edges r)\<^sup>+"
  shows "TransitiveReduction ord fuel r = None"
  using assms by (rule reduction_of_cycle)

theorem TransitiveReduction_cycle_diverges_witness:
  "\<forall>fuel. TransitiveReduction id_orders fuel two_cycle = None"
proof
  fix fuel
  have e: "(''r'', ''a'') \<in> edges two_cycle" "(''a'', ''b'') \<in> edges two_cycle" "(''b'', ''a'') \<in> edges two_cycle"
    by (simp_all add: edges_samples)
  have "(''r'', ''a'') \<in> (edges two_cycle)\<^sup>*" "(''a'', ''a'') \<in> (edges two_cycle)\<^sup>+"
    using e(1) trancl_into_trancl [OF r_into_trancl [OF e(2)] e(3)] by auto
  moreover have "VertexExists two_cycle ''r''"
    by (simp add: VertexExists_def two_cycle_def dag_simps)
  ultimately show "TransitiveReduction id_orders fuel two_cycle = None"
    by (intro TransitiveReduction_cycle_diverges [OF id_orders_ok])
qed

text \<open>C10: TransitiveReduction keeps the graph well-formed (both edge maps in step, no duplicate
  neighbours) and acyclic, keeps all vertices, adds no edge, and leaves exactly the vertices that
  had a predecessor with one.\<close>

theorem TransitiveReduction_invariant:
  assumes "TransitiveReduction ord fuel r = Some s" and "orders_ok ord" and "dag_ok r"
  shows "dag_ok s \<and> vertices s = vertices r \<and> edges s \<subseteq> edges r \<and>
    Range (edges s) = Range (edges r) \<and> (acyclic (edges r) \<longrightarrow> acyclic (edges s))"
  using TransitiveReduction_shrinks [OF assms(1,2)] assms(3)
  by (auto simp: shrinks_def intro: acyclic_subset)

theorem TransitiveReduction_invariant_witness:
  "dag_ok (the (TransitiveReduction id_orders 4 shortcut)) \<and>
   GetDownVertexes (the (TransitiveReduction id_orders 4 shortcut)) ''r'' = [''a'']"
proof -
  have e: "map_option (\<lambda>s. GetDownVertexes s ''r'') (TransitiveReduction id_orders 4 shortcut)
      = Some [''a'']"
    by code_simp
  then obtain s where s: "TransitiveReduction id_orders 4 shortcut = Some s" by auto
  with TransitiveReduction_invariant [OF s id_orders_ok dag_ok_samples(2)] e show ?thesis by simp
qed

text \<open>C12: on a well-formed acyclic graph whose edges all start at vertices reachable from the
  root, every vertex reachable from the root before TransitiveReduction is reachable from it
  afterwards, so the executor still gets to every vertex.\<close>

theorem TransitiveReduction_keeps_root_reachability:
  assumes "TransitiveReduction ord fuel r = Some s" and "orders_ok ord" and "dag_ok r"
    and "acyclic (edges r)"
    and rooted: "\<And>a b. (a, b) \<in> edges r \<Longrightarrow> (root, a) \<in> (edges r)\<^sup>*"
    and "(root, v) \<in> (edges r)\<^sup>*"
  shows "(root, v) \<in> (edges s)\<^sup>*"
proof -
  have sub: "edges s \<subseteq> edges r" and rng: "Range (edges s) = Range (edges r)" and "dag_ok s"
    using TransitiveReduction_invariant [OF assms(1-3)] by blast+
  then have "wf (edges s)" using assms(4) by (intro finite_acyclic_wf acyclic_subset [OF assms(4)])
      (simp_all add: dag_ok_def)
  then show ?thesis using assms(6)
  proof (induction v rule: wf_induct_rule)
    case (less v)
    show ?case
    proof (cases "v = root")
      case False
      with less.prems have "v \<in> Range (edges r)" by (metis RangeI rtranclE)
      then obtain u where u: "(u, v) \<in> edges s" using rng by blast
      then have "(root, u) \<in> (edges s)\<^sup>*" using less.IH rooted sub by blast
      then show ?thesis using u by (rule rtrancl_into_rtrancl)
    qed simp
  qed
qed

theorem TransitiveReduction_keeps_root_reachability_witness:
  "\<exists>s. TransitiveReduction id_orders 6 two_branches = Some s \<and> (''r'', ''d'') \<in> (edges s)\<^sup>*"
proof -
  obtain s where s: "TransitiveReduction id_orders 6 two_branches = Some s"
    using two_branches_reduced by auto
  have e: "(''r'', ''a'') \<in> edges two_branches" "(''a'', ''b'') \<in> edges two_branches"
    "(''b'', ''d'') \<in> edges two_branches" "(''r'', ''c'') \<in> edges two_branches"
    by (simp_all add: edges_samples)
  have ra: "(''r'', ''a'') \<in> (edges two_branches)\<^sup>*" using e(1) by blast
  then have rb: "(''r'', ''b'') \<in> (edges two_branches)\<^sup>*" using e(2) by (rule rtrancl_into_rtrancl)
  then have rd: "(''r'', ''d'') \<in> (edges two_branches)\<^sup>*" using e(3) by (rule rtrancl_into_rtrancl)
  have rc: "(''r'', ''c'') \<in> (edges two_branches)\<^sup>*" using e(4) by blast
  have "(''r'', ''d'') \<in> (edges s)\<^sup>*"
    by (rule TransitiveReduction_keeps_root_reachability
          [OF s id_orders_ok dag_ok_samples(1) acyclic_two_branches])
      (use ra rb rc rd in \<open>auto simp: edges_samples(1)\<close>)
  with s show ?thesis by blast
qed

text \<open>TransitiveReduction is not a transitive reduction: it compares the depths of the
  predecessors, and so cuts an edge that no other path replaces.  With the two branches
  \<open>r a b d\<close> and \<open>r c d\<close> it cuts the edge from \<open>c\<close> to \<open>d\<close>, after which \<open>d\<close> no longer depends
  on \<open>c\<close>.\<close>

lemma TransitiveReduction_cuts_dependency:
  "\<exists>s. TransitiveReduction id_orders 6 two_branches = Some s \<and>
     (''c'', ''d'') \<in> edges two_branches \<and> (''c'', ''d'') \<notin> (edges s)\<^sup>*"
proof -
  note e = two_branches_reduced
  then obtain s where s: "TransitiveReduction id_orders 6 two_branches = Some s" by auto
  have "(''c'', ''d'') \<notin> (edges s)\<^sup>*"
  proof
    assume "(''c'', ''d'') \<in> (edges s)\<^sup>*"
    then show False using e s by (cases rule: converse_rtranclE) (simp_all add: edges_def)
  qed
  with s show ?thesis by (auto simp: edges_samples)
qed

end
