(* ===== verification/Config.thy ===== *)
theory Config
  imports Go_Prelude
begin

text \<open>
  The controller configuration of pkg/api/controllerconfig/v1 (types.go, interface.go) and the
  group-version-kind strings of pkg/meta/gvk.go.

  The entries of \<open>vars\<close>, \<open>tasks\<close> and \<open>block\<close> are pointers the code tests for \<open>nil\<close>, hence
  \<open>option\<close>; the pointers of the other maps and of the list of pipelines are taken as
  not nil, although a YAML null would make them so and the walk would dereference it.  A nil map
  and an empty map behave alike except for \<open>Output\<close>, which the code compares with \<open>nil\<close>.
  \<open>encoding/json\<close> on a resource and the k8s parser of an apiVersion are the parameter
  \<open>k8slib\<close>.
\<close>

section \<open>Types (types.go)\<close>

record gvk =
  gvk_Group :: string
  gvk_Version :: string
  gvk_Kind :: string

type_synonym raw = string

datatype FunctionType =
  RootType | QueryType | SliceType | MapType | JQType | ContainerType | WasmType
| GoTemplateType | BlockType | OtherType string

datatype Block = Block (BRange: "RangeValue option") (BCondition: "ConditionExpression option")
  and RangeValue = RangeValue (RValue: string) (RBlock: Block)
  and ConditionExpression = ConditionExpression (CExpression: string) (CBlock: Block)

record Input =
  in_Selector :: "(string, string) gmap option"
  in_Key :: string
  in_Value :: string
  in_GenericInput :: "(string, string) gmap"
  in_Expression :: string
  in_Resource :: raw
  in_Template :: string

record Output =
  out_Internal :: bool
  out_Conditioned :: bool
  out_Resource :: raw

record Executor =
  ex_Image :: string
  ex_Exec :: string

record Function =
  fn_Block :: Block
  fn_Executor :: Executor
  fn_Vars :: "(string, string) gmap"
  fn_Type :: FunctionType
  fn_Config :: string
  fn_Input :: "Input option"
  fn_Output :: "(string, Output) gmap option"
  fn_DependsOn :: "string list"

datatype FunctionElement =
  FunctionElement (fe_Function: Function) (fe_FunctionBlock: "(string \<times> FunctionElement option) list")

record Pipeline =
  pl_Name :: string
  pl_Vars :: "(string, FunctionElement option) gmap"
  pl_Tasks :: "(string, FunctionElement option) gmap"

record GvkObject =
  go_Resource :: raw
  go_ApplyPipelineRef :: string
  go_DeletePipelineRef :: string

record ControllerConfig =
  cc_Name :: string
  cc_For :: "(string, GvkObject) gmap"
  cc_Own :: "(string, GvkObject) gmap"
  cc_Watch :: "(string, GvkObject) gmap"
  cc_Pipelines :: "Pipeline list"
  cc_Services :: "(string, Function) gmap"

text \<open>Zero values, as Go initialises a struct.\<close>

definition Block0 :: Block where
  "Block0 = Block None None"

definition Input0 :: Input where
  "Input0 = \<lparr>in_Selector = None, in_Key = '''', in_Value = '''', in_GenericInput = [],
     in_Expression = '''', in_Resource = '''', in_Template = ''''\<rparr>"

definition Function0 :: Function where
  "Function0 = \<lparr>fn_Block = Block0, fn_Executor = \<lparr>ex_Image = '''', ex_Exec = ''''\<rparr>, fn_Vars = [],
     fn_Type = OtherType '''', fn_Config = '''', fn_Input = None, fn_Output = None,
     fn_DependsOn = []\<rparr>"

section \<open>Accessors (interface.go)\<close>

text \<open>Third-party decoding: apiVersion and kind of a resource, group and version of an
  apiVersion; \<open>Inl\<close> is the error message.\<close>

record k8slib =
  unmarshalTypeMeta :: "raw \<Rightarrow> string + (string \<times> string)"
  ParseGroupVersion :: "string \<Rightarrow> string + (string \<times> string)"

definition GetGVK :: "k8slib \<Rightarrow> raw \<Rightarrow> gvk option \<times> goerr" where
  "GetGVK K gvr =
     (case unmarshalTypeMeta K gvr of
        Inl err \<Rightarrow> (None, Some err)
      | Inr (apiVersion, kind) \<Rightarrow>
          (case ParseGroupVersion K apiVersion of
             Inl err \<Rightarrow> (None, Some err)
           | Inr (g, v) \<Rightarrow> (Some \<lparr>gvk_Group = g, gvk_Version = v, gvk_Kind = kind\<rparr>, None)))"

fun getGvkList :: "k8slib \<Rightarrow> (string, GvkObject) gmap \<Rightarrow> gvk list option \<times> goerr" where
  "getGvkList K [] = (Some [], None)"
| "getGvkList K ((_, gvrObj) # rest) =
     (case GetGVK K (go_Resource gvrObj) of
        (_, Some err) \<Rightarrow> (None, Some err)
      | (None, None) \<Rightarrow> getGvkList K rest
      | (Some g, None) \<Rightarrow>
          (case getGvkList K rest of
             (Some gs, None) \<Rightarrow> (Some (g # gs), None)
           | (_, err) \<Rightarrow> (None, err)))"

definition GetForGvk :: "k8slib \<Rightarrow> ControllerConfig \<Rightarrow> gvk list option \<times> goerr" where
  "GetForGvk K r = getGvkList K (cc_For r)"

definition GetOwnGvks :: "k8slib \<Rightarrow> ControllerConfig \<Rightarrow> gvk list option \<times> goerr" where
  "GetOwnGvks K r = getGvkList K (cc_Own r)"

definition GetWatchGvks :: "k8slib \<Rightarrow> ControllerConfig \<Rightarrow> gvk list option \<times> goerr" where
  "GetWatchGvks K r = getGvkList K (cc_Watch r)"

definition GetRootVertexName :: "ControllerConfig \<Rightarrow> string" where
  "GetRootVertexName r = (case cc_For r of [] \<Rightarrow> '''' | (vertexName, _) # _ \<Rightarrow> vertexName)"

definition GetServices :: "ControllerConfig \<Rightarrow> (string, Function) gmap" where
  "GetServices r = cc_Services r"

definition HasBlock :: "Function \<Rightarrow> bool" where
  "HasBlock v \<longleftrightarrow> BRange (fn_Block v) \<noteq> None \<or> BCondition (fn_Block v) \<noteq> None"

fun HasRange :: "Block \<Rightarrow> bool" where
  "HasRange (Block (Some r) c) = True"
| "HasRange (Block None None) = False"
| "HasRange (Block None (Some (ConditionExpression e b))) = HasRange b"

fun findPipeline :: "string \<Rightarrow> Pipeline list \<Rightarrow> Pipeline option" where
  "findPipeline s [] = None"
| "findPipeline s (p # ps) = (if pl_Name p = s then Some p else findPipeline s ps)"

definition GetPipeline :: "ControllerConfig \<Rightarrow> string \<Rightarrow> Pipeline option" where
  "GetPipeline r s = findPipeline s (cc_Pipelines r)"

lemma findPipeline_Some: "findPipeline s ps = Some p \<Longrightarrow> pl_Name p = s \<and> p \<in> set ps"
  by (induction s ps rule: findPipeline.induct) (auto split: if_splits)

lemma GetPipeline_Some: "GetPipeline r s = Some p \<Longrightarrow> pl_Name p = s \<and> p \<in> set (cc_Pipelines r)"
  unfolding GetPipeline_def by (rule findPipeline_Some)

lemma GetGVK_result: "(\<exists>g. GetGVK K r = (Some g, None)) \<or> (\<exists>e. GetGVK K r = (None, Some e))"
  by (auto simp: GetGVK_def split: sum.splits prod.splits)

section \<open>Strings of a group, version and kind (pkg/meta/gvk.go)\<close>

definition GVKToString :: "gvk option \<Rightarrow> string" where
  "GVKToString gvk =
     (case gvk of
        None \<Rightarrow> ''empty gvk''
      | Some g \<Rightarrow>
          if gvk_Kind g = '''' then ''empty kind in gvk''
          else gvk_Kind g @ (if gvk_Version g \<noteq> '''' then ''.'' @ gvk_Version g else '''')
                 @ (if gvk_Group g \<noteq> '''' then ''.'' @ gvk_Group g else ''''))"

definition StringToGroupVersionKind :: "string \<Rightarrow> string \<times> string \<times> string" where
  "StringToGroupVersionKind s =
     (if 2 \<le> strCount s CHR ''.'' then
        (let p = strSplitN s CHR ''.'' 3 in (p ! 2, p ! 1, p ! 0))
      else ('''', '''', ''''))"

definition StringToGVK :: "string \<Rightarrow> gvk" where
  "StringToGVK s =
     (case StringToGroupVersionKind s of (grp, ver, kind) \<Rightarrow>
        \<lparr>gvk_Group = grp, gvk_Version = ver, gvk_Kind = kind\<rparr>)"

text \<open>C39: the string of a group, version and kind parses back to them, for a kind and a version
  that are not empty and have no dot, and a non-empty group.\<close>

theorem GVK_roundtrip:
  assumes "gvk_Kind g \<noteq> ''''" and "gvk_Version g \<noteq> ''''" and "gvk_Group g \<noteq> ''''"
    and "CHR ''.'' \<notin> set (gvk_Kind g)" and "CHR ''.'' \<notin> set (gvk_Version g)"
  shows "StringToGVK (GVKToString (Some g)) = g"
proof -
  let ?s = "gvk_Kind g @ CHR ''.'' # gvk_Version g @ CHR ''.'' # gvk_Group g"
  have s: "GVKToString (Some g) = ?s" using assms by (simp add: GVKToString_def)
  have "strSplitN ?s CHR ''.'' 3 = [gvk_Kind g, gvk_Version g, gvk_Group g]"
    using assms(4,5) by (simp add: strSplitN_Cons strSplitN_last)
  then show ?thesis
    by (simp add: s StringToGVK_def StringToGroupVersionKind_def strCount_def)
qed

theorem GVK_roundtrip_witness:
  "StringToGVK (GVKToString (Some \<lparr>gvk_Group = ''apps.io'', gvk_Version = ''v1'', gvk_Kind = ''Pod''\<rparr>))
     = \<lparr>gvk_Group = ''apps.io'', gvk_Version = ''v1'', gvk_Kind = ''Pod''\<rparr>"
  by (rule GVK_roundtrip) simp_all

text \<open>For the core group, whose name is empty, the round trip loses everything: the string
  has one dot only and parses to the empty group, version and kind.\<close>

lemma GVK_core_group_lost:
  assumes "gvk_Kind g \<noteq> ''''" and "gvk_Version g \<noteq> ''''" and "gvk_Group g = ''''"
    and "CHR ''.'' \<notin> set (gvk_Kind g)" and "CHR ''.'' \<notin> set (gvk_Version g)"
  shows "StringToGVK (GVKToString (Some g)) = \<lparr>gvk_Group = '''', gvk_Version = '''', gvk_Kind = ''''\<rparr>"
proof -
  have "filter (\<lambda>x. x = CHR ''.'') (gvk_Kind g) = []" "filter (\<lambda>x. x = CHR ''.'') (gvk_Version g) = []"
    using assms(4,5) by (auto simp: filter_empty_conv)
  then show ?thesis using assms
    by (simp add: GVKToString_def StringToGVK_def StringToGroupVersionKind_def strCount_def)
qed

theorem GVK_core_group_lost_witness:
  "StringToGVK (GVKToString (Some \<lparr>gvk_Group = '''', gvk_Version = ''v1'', gvk_Kind = ''Pod''\<rparr>))
     = \<lparr>gvk_Group = '''', gvk_Version = '''', gvk_Kind = ''''\<rparr>"
  by (rule GVK_core_group_lost) simp_all

end
