(* ===== verification/Walker.thy ===== *)
theory Walker
  imports Config
begin

text \<open>
  The walk over a controller configuration that every phase of the parser is built on:
  pkg/ccsyntax/parser\_result.go and parser\_walker\_config.go.

  A phase supplies callbacks over a state \<open>'s\<close>; \<open>None\<close> is a panic of the callback.  The
  origin context a callback gets is a fresh copy in the code, and the fields a callback writes
  in it (\<open>GVK\<close>, \<open>LocalVarName\<close>, \<open>BlockVertexName\<close>) are not read by the walk afterwards, except
  the \<open>GVK\<close>, which \<open>gvkObjectFn\<close> also returns.  An error result keeps the origin context at the
  time it is recorded and the fixed text of the message, without the Go dump of the value.
\<close>

section \<open>Origins and results (parser\_result.go)\<close>

datatype FOWS = FOWFor | FOWOwn | FOWWatch | FOWService

datatype Operation = OperationApply | OperationDelete | OperationNone | OperationUnset

datatype Origin = OriginInvalid | OriginFow | OriginService | OriginVariable | OriginFunction
| OriginUnset

record OriginContext =
  oc_FOWS :: FOWS
  oc_RootVertexName :: string
  oc_GVK :: "gvk option"
  oc_Operation :: Operation
  oc_Pipeline :: string
  oc_Origin :: Origin
  oc_Block :: bool
  oc_BlockIndex :: int
  oc_BlockVertexName :: string
  oc_VertexName :: string
  oc_LocalVarName :: string
  oc_LocalVars :: "(string, string) gmap"

definition DeepCopy :: "OriginContext option \<Rightarrow> OriginContext option" where
  "DeepCopy oc = (case oc of None \<Rightarrow> None | Some oc \<Rightarrow> Some oc)"

record Result =
  res_OriginContext :: OriginContext
  res_Error :: string

text \<open>A context with the given fields and Go's zero values elsewhere.\<close>

definition originFow :: "FOWS \<Rightarrow> string \<Rightarrow> OriginContext" where
  "originFow fow vertexName =
     \<lparr>oc_FOWS = fow, oc_RootVertexName = vertexName, oc_GVK = None, oc_Operation = OperationUnset,
      oc_Pipeline = '''', oc_Origin = (if fow = FOWService then OriginService else OriginFow),
      oc_Block = False, oc_BlockIndex = 0, oc_BlockVertexName = '''', oc_VertexName = vertexName,
      oc_LocalVarName = '''', oc_LocalVars = []\<rparr>"

text \<open>The result keeps a copy of the origin, where the code keeps the pointer.\<close>

definition recordResult :: "OriginContext \<Rightarrow> string \<Rightarrow> Result list \<Rightarrow> Result list" where
  "recordResult oc err rs = rs @ [\<lparr>res_OriginContext = oc, res_Error = err\<rparr>]"

text \<open>\<open>if err != nil { recordResult(...) }\<close>\<close>

definition recordErr :: "OriginContext \<Rightarrow> goerr \<Rightarrow> Result list \<Rightarrow> Result list" where
  "recordErr oc err rs = (case err of None \<Rightarrow> rs | Some e \<Rightarrow> recordResult oc e rs)"

section \<open>Callbacks and walk (parser\_walker\_config.go)\<close>

record 's ccWalkConfig =
  cfgPreHookFn :: "(ControllerConfig \<Rightarrow> 's \<Rightarrow> 's go) option"
  cfgPostHookFn :: "(ControllerConfig \<Rightarrow> 's \<Rightarrow> 's go) option"
  gvkObjectFn :: "(OriginContext \<Rightarrow> GvkObject \<Rightarrow> 's \<Rightarrow> (gvk option \<times> 's) go) option"
  emptyPipelineFn :: "(OriginContext \<Rightarrow> GvkObject \<Rightarrow> 's \<Rightarrow> 's go) option"
  pipelinePreHookFn :: "(OriginContext \<Rightarrow> Pipeline \<Rightarrow> 's \<Rightarrow> 's go) option"
  emptyFunctionElementFn :: "(OriginContext \<Rightarrow> 's \<Rightarrow> 's go) option"
  functionBlockFn :: "(OriginContext \<Rightarrow> FunctionElement \<Rightarrow> 's \<Rightarrow> 's go) option"
  functionFn :: "(OriginContext \<Rightarrow> Function \<Rightarrow> 's \<Rightarrow> 's go) option"
  pipelinePostHookFn :: "(OriginContext \<Rightarrow> Pipeline \<Rightarrow> 's \<Rightarrow> 's go) option"
  serviceFn :: "(OriginContext \<Rightarrow> Function \<Rightarrow> 's \<Rightarrow> 's go) option"

definition noCallbacks :: "'s ccWalkConfig" where
  "noCallbacks = \<lparr>cfgPreHookFn = None, cfgPostHookFn = None, gvkObjectFn = None,
     emptyPipelineFn = None, pipelinePreHookFn = None, emptyFunctionElementFn = None,
     functionBlockFn = None, functionFn = None, pipelinePostHookFn = None, serviceFn = None\<rparr>"

text \<open>\<open>if f != nil { f(x, v) }\<close>\<close>

definition call1 :: "('a \<Rightarrow> 's \<Rightarrow> 's go) option \<Rightarrow> 'a \<Rightarrow> 's \<Rightarrow> 's go" where
  "call1 f x s = (case f of None \<Rightarrow> Some s | Some g \<Rightarrow> g x s)"

definition call2 :: "('a \<Rightarrow> 'b \<Rightarrow> 's \<Rightarrow> 's go) option \<Rightarrow> 'a \<Rightarrow> 'b \<Rightarrow> 's \<Rightarrow> 's go" where
  "call2 f x y s = (case f of None \<Rightarrow> Some s | Some g \<Rightarrow> g x y s)"

definition blockOrigin :: "OriginContext \<Rightarrow> string \<Rightarrow> OriginContext" where
  "blockOrigin oc vertexName =
     \<lparr>oc_FOWS = oc_FOWS oc, oc_RootVertexName = oc_RootVertexName oc, oc_GVK = oc_GVK oc,
      oc_Operation = oc_Operation oc, oc_Pipeline = oc_Pipeline oc, oc_Origin = oc_Origin oc,
      oc_Block = True, oc_BlockIndex = oc_BlockIndex oc + 1, oc_BlockVertexName = oc_VertexName oc,
      oc_VertexName = vertexName, oc_LocalVarName = '''', oc_LocalVars = oc_LocalVars oc\<rparr>"

lemma size_FunctionBlock:
  "(n, Some fe) \<in> set bl \<Longrightarrow> size fe < size (FunctionElement f bl)"
proof -
  assume "(n, Some fe) \<in> set bl"
  then have "size_prod (\<lambda>_. 0) (size_option size) (n, Some fe)
      \<le> size_list (size_prod (\<lambda>_. 0) (size_option size)) bl"
    by (rule size_list_estimation') simp
  then show ?thesis by simp
qed

function walkFunctionElement ::
  "'s ccWalkConfig \<Rightarrow> OriginContext \<Rightarrow> FunctionElement option \<Rightarrow> 's \<Rightarrow> 's go" where
  "walkFunctionElement fnc oc None s = call1 (emptyFunctionElementFn fnc) oc s"
| "walkFunctionElement fnc oc (Some v) s =
     (if fn_Type (fe_Function v) = BlockType then do {
        s1 \<leftarrow> call2 (functionBlockFn fnc) oc v s;
        s2 \<leftarrow> call2 (functionFn fnc) (oc\<lparr>oc_Block := True\<rparr>) (fe_Function v) s1;
        ofold (\<lambda>(vertexName, w) s. walkFunctionElement fnc (blockOrigin oc vertexName) w s)
          (fe_FunctionBlock v) s2 }
      else call2 (functionFn fnc) oc (fe_Function v) s)"
  by pat_completeness auto
termination
proof (relation "measure (\<lambda>(_, _, v, _). case v of None \<Rightarrow> 0 | Some fe \<Rightarrow> Suc (size fe))", goal_cases)
  case (2 fnc oc v s s1 s2 x s' vertexName w)
  then show ?case
    using size_FunctionBlock [of vertexName _ "fe_FunctionBlock v" "fe_Function v"]
    by (cases v; cases w) auto
qed simp

declare walkFunctionElement.simps [simp del]

text \<open>The entries of \<open>vars\<close> and \<open>tasks\<close>: \<open>LocalVars: v.Vars\<close> dereferences the entry before
  \<open>walkFunctionElement\<close> tests it for nil.\<close>

definition elementOrigin :: "OriginContext \<Rightarrow> string \<Rightarrow> Origin \<Rightarrow> string \<Rightarrow> Function \<Rightarrow> OriginContext" where
  "elementOrigin oc pipelineName origin vertexName f =
     (originFow (oc_FOWS oc) vertexName)
       \<lparr>oc_RootVertexName := oc_RootVertexName oc, oc_Operation := oc_Operation oc,
        oc_GVK := oc_GVK oc, oc_Pipeline := pipelineName, oc_Origin := origin,
        oc_LocalVars := fn_Vars f\<rparr>"

definition walkElements ::
  "'s ccWalkConfig \<Rightarrow> OriginContext \<Rightarrow> string \<Rightarrow> Origin \<Rightarrow> (string, FunctionElement option) gmap \<Rightarrow> 's \<Rightarrow> 's go"
  where
  "walkElements fnc oc pipelineName origin elements =
     ofold (\<lambda>(vertexName, v) s.
       case v of
         None \<Rightarrow> None
       | Some fe \<Rightarrow>
           walkFunctionElement fnc (elementOrigin oc pipelineName origin vertexName (fe_Function fe)) v s)
       elements"

definition pipelineOrigin :: "OriginContext \<Rightarrow> string \<Rightarrow> OriginContext" where
  "pipelineOrigin oc pipelineName =
     (originFow (oc_FOWS oc) (oc_VertexName oc))
       \<lparr>oc_RootVertexName := oc_RootVertexName oc, oc_Operation := oc_Operation oc,
        oc_GVK := oc_GVK oc, oc_Pipeline := pipelineName, oc_Origin := oc_Origin oc\<rparr>"

definition walkPipeline :: "'s ccWalkConfig \<Rightarrow> OriginContext \<Rightarrow> Pipeline \<Rightarrow> 's \<Rightarrow> 's go" where
  "walkPipeline fnc oc v s = do {
     s \<leftarrow> call2 (pipelinePreHookFn fnc) (pipelineOrigin oc (pl_Name v)) v s;
     s \<leftarrow> walkElements fnc oc (pl_Name v) OriginVariable (pl_Vars v) s;
     s \<leftarrow> walkElements fnc oc (pl_Name v) OriginFunction (pl_Tasks v) s;
     call2 (pipelinePostHookFn fnc) (pipelineOrigin oc (pl_Name v)) v s }"

definition walkRef ::
  "'s ccWalkConfig \<Rightarrow> ControllerConfig \<Rightarrow> OriginContext \<Rightarrow> GvkObject \<Rightarrow> string \<Rightarrow> 's \<Rightarrow> 's go" where
  "walkRef fnc cfg oc v ref s =
     (case GetPipeline cfg ref of
        None \<Rightarrow> call2 (emptyPipelineFn fnc) oc v s
      | Some p \<Rightarrow> walkPipeline fnc oc p s)"

definition processGvkObject ::
  "'s ccWalkConfig \<Rightarrow> ControllerConfig \<Rightarrow> OriginContext \<Rightarrow> GvkObject \<Rightarrow> 's \<Rightarrow> 's go" where
  "processGvkObject fnc cfg oc v s =
     (case gvkObjectFn fnc of
        None \<Rightarrow> Some s
      | Some f \<Rightarrow> do {
          (gvk, s) \<leftarrow> f oc v s;
          let oc = oc\<lparr>oc_GVK := gvk\<rparr>;
          s \<leftarrow> walkRef fnc cfg (oc\<lparr>oc_Operation := OperationApply\<rparr>) v (go_ApplyPipelineRef v) s;
          walkRef fnc cfg (oc\<lparr>oc_Operation := OperationDelete\<rparr>) v (go_DeletePipelineRef v) s })"

definition walkGvkObjects ::
  "'s ccWalkConfig \<Rightarrow> ControllerConfig \<Rightarrow> FOWS \<Rightarrow> (string, GvkObject) gmap \<Rightarrow> 's \<Rightarrow> 's go" where
  "walkGvkObjects fnc cfg fow =
     ofold (\<lambda>(vertexName, v). processGvkObject fnc cfg (originFow fow vertexName) v)"

definition walkServices :: "'s ccWalkConfig \<Rightarrow> ControllerConfig \<Rightarrow> 's \<Rightarrow> 's go" where
  "walkServices fnc cfg s =
     (case serviceFn fnc of
        None \<Rightarrow> Some s
      | Some f \<Rightarrow> ofold (\<lambda>(vertexName, fn). f (originFow FOWService vertexName) fn) (GetServices cfg) s)"

definition walkLcncConfig :: "'s ccWalkConfig \<Rightarrow> ControllerConfig \<Rightarrow> 's \<Rightarrow> 's go" where
  "walkLcncConfig fnc cfg s = do {
     s \<leftarrow> call1 (cfgPreHookFn fnc) cfg s;
     s \<leftarrow> walkGvkObjects fnc cfg FOWFor (cc_For cfg) s;
     s \<leftarrow> walkGvkObjects fnc cfg FOWOwn (cc_Own cfg) s;
     s \<leftarrow> walkGvkObjects fnc cfg FOWWatch (cc_Watch cfg) s;
     s \<leftarrow> walkServices fnc cfg s;
     call1 (cfgPostHookFn fnc) cfg s }"

section \<open>The walk as a sequence of events\<close>

text \<open>
  Which callbacks a walk calls, in which order and on what, does not depend on the state: it is
  a list of events computed from the configuration and from the group-version-kind of every
  resource (\<open>G\<close>).  A phase is then the fold of its callbacks over that list.
\<close>

datatype event =
  PreHook | PostHook
| GvkObjectAt OriginContext GvkObject
| EmptyPipelineAt OriginContext GvkObject
| PipelinePre OriginContext Pipeline
| PipelinePost OriginContext Pipeline
| EmptyElementAt OriginContext
| BlockElementAt OriginContext FunctionElement
| FunctionAt OriginContext Function
| ServiceAt OriginContext Function
| NilEntry

fun handle :: "'s ccWalkConfig \<Rightarrow> ControllerConfig \<Rightarrow> event \<Rightarrow> 's \<Rightarrow> 's go" where
  "handle fnc cfg PreHook s = call1 (cfgPreHookFn fnc) cfg s"
| "handle fnc cfg PostHook s = call1 (cfgPostHookFn fnc) cfg s"
| "handle fnc cfg (GvkObjectAt oc v) s =
     (case gvkObjectFn fnc of None \<Rightarrow> Some s | Some f \<Rightarrow> map_option snd (f oc v s))"
| "handle fnc cfg (EmptyPipelineAt oc v) s = call2 (emptyPipelineFn fnc) oc v s"
| "handle fnc cfg (PipelinePre oc p) s = call2 (pipelinePreHookFn fnc) oc p s"
| "handle fnc cfg (PipelinePost oc p) s = call2 (pipelinePostHookFn fnc) oc p s"
| "handle fnc cfg (EmptyElementAt oc) s = call1 (emptyFunctionElementFn fnc) oc s"
| "handle fnc cfg (BlockElementAt oc fe) s = call2 (functionBlockFn fnc) oc fe s"
| "handle fnc cfg (FunctionAt oc fn) s = call2 (functionFn fnc) oc fn s"
| "handle fnc cfg (ServiceAt oc fn) s = call2 (serviceFn fnc) oc fn s"
| "handle fnc cfg NilEntry s = None"

function elementEvents :: "OriginContext \<Rightarrow> FunctionElement option \<Rightarrow> event list" where
  "elementEvents oc None = [EmptyElementAt oc]"
| "elementEvents oc (Some v) =
     (if fn_Type (fe_Function v) = BlockType then
        BlockElementAt oc v # FunctionAt (oc\<lparr>oc_Block := True\<rparr>) (fe_Function v) #
        concat (map (\<lambda>(vertexName, w). elementEvents (blockOrigin oc vertexName) w) (fe_FunctionBlock v))
      else [FunctionAt oc (fe_Function v)])"
  by pat_completeness auto
termination
proof (relation "measure (\<lambda>(_, v). case v of None \<Rightarrow> 0 | Some fe \<Rightarrow> Suc (size fe))", goal_cases)
  case (2 oc v x vertexName w)
  then show ?case
    using size_FunctionBlock [of vertexName _ "fe_FunctionBlock v" "fe_Function v"]
    by (cases v; cases w) auto
qed simp

declare elementEvents.simps [simp del]

definition entryEvents ::
  "OriginContext \<Rightarrow> string \<Rightarrow> Origin \<Rightarrow> string \<times> FunctionElement option \<Rightarrow> event list" where
  "entryEvents oc pn og e =
     (case e of (vertexName, v) \<Rightarrow> case v of
        None \<Rightarrow> [NilEntry]
      | Some fe \<Rightarrow> elementEvents (elementOrigin oc pn og vertexName (fe_Function fe)) v)"

definition pipelineEvents :: "OriginContext \<Rightarrow> Pipeline \<Rightarrow> event list" where
  "pipelineEvents oc p =
     PipelinePre (pipelineOrigin oc (pl_Name p)) p #
     concat (map (entryEvents oc (pl_Name p) OriginVariable) (pl_Vars p)) @
     concat (map (entryEvents oc (pl_Name p) OriginFunction) (pl_Tasks p)) @
     [PipelinePost (pipelineOrigin oc (pl_Name p)) p]"

definition refEvents :: "ControllerConfig \<Rightarrow> OriginContext \<Rightarrow> GvkObject \<Rightarrow> string \<Rightarrow> event list" where
  "refEvents cfg oc v ref =
     (case GetPipeline cfg ref of None \<Rightarrow> [EmptyPipelineAt oc v] | Some p \<Rightarrow> pipelineEvents oc p)"

definition objectEvents ::
  "(raw \<Rightarrow> gvk option) \<Rightarrow> ControllerConfig \<Rightarrow> FOWS \<Rightarrow> string \<times> GvkObject \<Rightarrow> event list" where
  "objectEvents G cfg fow e =
     (case e of (vertexName, v) \<Rightarrow>
        let oc = originFow fow vertexName; oc1 = oc\<lparr>oc_GVK := G (go_Resource v)\<rparr> in
        GvkObjectAt oc v #
        refEvents cfg (oc1\<lparr>oc_Operation := OperationApply\<rparr>) v (go_ApplyPipelineRef v) @
        refEvents cfg (oc1\<lparr>oc_Operation := OperationDelete\<rparr>) v (go_DeletePipelineRef v))"

definition configEvents :: "(raw \<Rightarrow> gvk option) \<Rightarrow> ControllerConfig \<Rightarrow> event list" where
  "configEvents G cfg =
     PreHook #
     concat (map (objectEvents G cfg FOWFor) (cc_For cfg)) @
     concat (map (objectEvents G cfg FOWOwn) (cc_Own cfg)) @
     concat (map (objectEvents G cfg FOWWatch) (cc_Watch cfg)) @
     map (\<lambda>(vertexName, fn). ServiceAt (originFow FOWService vertexName) fn) (GetServices cfg) @
     [PostHook]"

lemma ofold_concat: "ofold h (concat (map g xs)) s = ofold (\<lambda>x. ofold h (g x)) xs s"
proof (induction xs arbitrary: s)
  case (Cons x xs)
  then have "ofold h (concat (map g xs)) = ofold (\<lambda>x. ofold h (g x)) xs" by (intro ext)
  then show ?case by (simp add: ofold_append)
qed simp

lemma ofold_map: "ofold h (map g xs) s = ofold (\<lambda>x. h (g x)) xs s"
proof (induction xs arbitrary: s)
  case (Cons x xs)
  then have "ofold h (map g xs) = ofold (\<lambda>x. h (g x)) xs" by (intro ext)
  then show ?case by simp
qed simp

lemma ofold_single [simp]: "ofold h [x] s = h x s"
  by (cases "h x s") simp_all

lemma bind_ofold_Nil [simp]: "Option.bind m (ofold h []) = m"
  by (cases m) simp_all

lemma ofold_skip: "(\<And>x s. x \<in> set xs \<Longrightarrow> h x s = Some s) \<Longrightarrow> ofold h xs s = Some s"
  by (induction xs arbitrary: s) auto

lemma handle_element:
  "walkFunctionElement fnc oc v s = ofold (handle fnc cfg) (elementEvents oc v) s"
proof (induction fnc oc v s rule: walkFunctionElement.induct)
  case (1 fnc oc s)
  show ?case by (simp add: walkFunctionElement.simps elementEvents.simps)
next
  case (2 fnc oc v s)
  show ?case
  proof (cases "fn_Type (fe_Function v) = BlockType")
    case True
    have "ofold (\<lambda>(vertexName, w). walkFunctionElement fnc (blockOrigin oc vertexName) w)
        (fe_FunctionBlock v) s2 =
      ofold (handle fnc cfg) (concat (map (\<lambda>(vertexName, w). elementEvents (blockOrigin oc vertexName) w)
        (fe_FunctionBlock v))) s2"
      if "call2 (functionBlockFn fnc) oc v s = Some s1"
        "call2 (functionFn fnc) (oc\<lparr>oc_Block := True\<rparr>) (fe_Function v) s1 = Some s2" for s1 s2
      unfolding ofold_concat
      by (rule ofold_cong [OF refl refl]) (use 2 True that in \<open>auto split: prod.splits\<close>)
    then show ?thesis using True
      by (auto simp: walkFunctionElement.simps elementEvents.simps bind_eq_Some_conv
          intro!: Option.bind_cong)
  next
    case False
    then show ?thesis by (simp add: walkFunctionElement.simps elementEvents.simps)
  qed
qed

lemma handle_entries:
  "walkElements fnc oc pn og es s = ofold (handle fnc cfg) (concat (map (entryEvents oc pn og) es)) s"
  unfolding walkElements_def ofold_concat
  by (rule ofold_cong [OF refl refl])
    (auto simp: entryEvents_def handle_element [of _ _ _ _ cfg] split: option.splits)

lemma handle_pipeline:
  "walkPipeline fnc oc p s = ofold (handle fnc cfg) (pipelineEvents oc p) s"
  by (simp add: walkPipeline_def pipelineEvents_def ofold_append handle_entries [of _ _ _ _ _ _ cfg]
      cong: Option.bind_cong)

lemma handle_ref: "walkRef fnc cfg oc v ref = ofold (handle fnc cfg) (refEvents cfg oc v ref)"
  by (rule ext) (simp add: walkRef_def refEvents_def handle_pipeline [of _ _ _ _ cfg] split: option.splits)

text \<open>A phase: its callback for a resource returns the group-version-kind of the resource,
  whatever its state.\<close>

locale phase =
  fixes fnc :: "'s ccWalkConfig" and G :: "raw \<Rightarrow> gvk option"
    and f :: "OriginContext \<Rightarrow> GvkObject \<Rightarrow> 's \<Rightarrow> (gvk option \<times> 's) go"
  assumes gvkObject: "gvkObjectFn fnc = Some f"
    and gvk: "f oc v s = Some (g, t) \<Longrightarrow> g = G (go_Resource v)"
begin

lemma handle_object:
  "processGvkObject fnc cfg (originFow fow n) v s =
     ofold (handle fnc cfg) (objectEvents G cfg fow (n, v)) s"
proof (cases "f (originFow fow n) v s")
  case (Some r)
  then obtain t where "f (originFow fow n) v s = Some (G (go_Resource v), t)"
    using gvk by (cases r) auto
  then show ?thesis
    by (simp add: processGvkObject_def objectEvents_def gvkObject ofold_append handle_ref Let_def)
qed (simp add: processGvkObject_def objectEvents_def gvkObject Let_def)

lemma handle_objects:
  "walkGvkObjects fnc cfg fow vs s =
     ofold (handle fnc cfg) (concat (map (objectEvents G cfg fow) vs)) s"
  unfolding walkGvkObjects_def ofold_concat
  by (rule ofold_cong [OF refl refl]) (auto simp: handle_object split: prod.splits)

lemma handle_services:
  "walkServices fnc cfg s =
     ofold (handle fnc cfg)
       (map (\<lambda>(vertexName, fn). ServiceAt (originFow FOWService vertexName) fn) (GetServices cfg)) s"
proof (cases "serviceFn fnc")
  case None
  then show ?thesis
    by (simp add: walkServices_def ofold_map call2_def split_def)
      (rule ofold_skip [symmetric], simp add: call2_def)
next
  case (Some g)
  then show ?thesis
    by (simp add: walkServices_def ofold_map split_def)
      (rule ofold_cong [OF refl refl], simp add: call2_def)
qed

lemma walk_events: "walkLcncConfig fnc cfg s = ofold (handle fnc cfg) (configEvents G cfg) s"
  by (simp add: walkLcncConfig_def configEvents_def ofold_append handle_objects handle_services
      cong: Option.bind_cong)

end

section \<open>Nil entries\<close>

text \<open>The entries of the vars and tasks of a pipeline, nil ones included.\<close>

definition pipeline_entries :: "Pipeline \<Rightarrow> FunctionElement option set" where
  "pipeline_entries p = snd ` set (pl_Vars p) \<union> snd ` set (pl_Tasks p)"

text \<open>A nil entry among the vars or tasks of a pipeline makes every walk over that pipeline
  panic, whatever the callbacks do; the callback for an empty function element, which the
  validator uses to report it, is never reached.\<close>

lemma nil_entry_panics:
  assumes "None \<in> pipeline_entries p"
  shows "walkPipeline fnc oc p s = None"
proof -
  have nil: "walkElements fnc oc n og es s = None" if n: "None \<in> snd ` set es" for n og es s
  proof -
    from n obtain k where "(k, None) \<in> set es" by auto
    then show ?thesis unfolding walkElements_def
      by (rule ofold_None [where P = "\<lambda>_. True"]) auto
  qed
  consider "None \<in> snd ` set (pl_Vars p)" | "None \<in> snd ` set (pl_Tasks p)"
    using assms by (auto simp: pipeline_entries_def)
  then show ?thesis
    by cases (simp_all add: walkPipeline_def bind_eq_None_conv nil)
qed

theorem nil_entry_panics_witness:
  "walkPipeline (noCallbacks :: nat ccWalkConfig) (originFow FOWFor ''a'')
     \<lparr>pl_Name = ''p'', pl_Vars = [], pl_Tasks = [(''t'', None)]\<rparr> 0 = None"
  by (rule nil_entry_panics) (simp add: pipeline_entries_def)

end
