(* ===== verification/Reference.thy ===== *)
theory Reference
  imports Go_Prelude
begin

text \<open>
  References to variables inside configuration strings: pkg/ccsyntax/reference.go.  The scan
  follows the code, byte by byte with the index of the last dollar sign; \<open>refNames\<close> says
  without indices which names it finds, and the first theorem shows that they agree.
\<close>

datatype ReferenceKind = RangeReferenceKind | RegularReferenceKind

record Reference =
  ref_Kind :: ReferenceKind
  ref_Value :: string

definition mkReference :: "string \<Rightarrow> Reference" where
  "mkReference val =
     (if val = ''VALUE'' \<or> val = ''KEY'' \<or> val = ''INDEX''
      then \<lparr>ref_Kind = RangeReferenceKind, ref_Value = val\<rparr>
      else \<lparr>ref_Kind = RegularReferenceKind, ref_Value = val\<rparr>)"

definition addReference :: "Reference list \<Rightarrow> string \<Rightarrow> Reference list" where
  "addReference refs val = refs @ [mkReference val]"

text \<open>\<open>s[i:j]\<close>\<close>

definition substr :: "string \<Rightarrow> nat \<Rightarrow> nat \<Rightarrow> string" where
  "substr s i j = take (j - i) (drop i s)"

fun scanReferences :: "string \<Rightarrow> nat \<Rightarrow> string \<Rightarrow> nat \<Rightarrow> bool \<Rightarrow> Reference list \<Rightarrow> Reference list" where
  "scanReferences s k [] idx found refs =
     (if found then addReference refs (substr s (idx + 1) (length s)) else refs)"
| "scanReferences s k (v # vs) idx found refs =
     (if v = CHR ''$'' then scanReferences s (k + 1) vs k True refs
      else if (v = CHR ''.'' \<or> v = CHR '' '' \<or> v = CHR '')'' \<or> v = CHR ''['') \<and> found
      then scanReferences s (k + 1) vs idx False (addReference refs (substr s (idx + 1) k))
      else scanReferences s (k + 1) vs idx found refs)"

definition GetReferences :: "string \<Rightarrow> Reference list" where
  "GetReferences s = scanReferences s 0 s 0 False []"

section \<open>What the scan finds\<close>

definition nameChar :: "char \<Rightarrow> bool" where
  "nameChar c \<longleftrightarrow> c \<notin> {CHR ''$'', CHR ''.'', CHR '' '', CHR '')'', CHR ''[''}"

text \<open>A name is what follows a dollar sign up to the next delimiter or the end; a name that the
  next dollar sign cuts short is dropped.\<close>

fun refNames :: "string \<Rightarrow> string list" where
  "refNames [] = []"
| "refNames (c # cs) =
     (if c \<noteq> CHR ''$'' then refNames cs
      else let name = takeWhile nameChar cs; rest = dropWhile nameChar cs in
           if rest = [] then [name]
           else if hd rest = CHR ''$'' then refNames cs
           else name # refNames cs)"

lemma scan_spec:
  assumes "s = pre @ vs" and "k = length pre"
    and "found \<Longrightarrow> pre = p0 @ CHR ''$'' # w \<and> idx = length p0 \<and> (\<forall>c \<in> set w. nameChar c)"
  shows "map ref_Value (scanReferences s k vs idx found refs) =
    map ref_Value refs @
    (if found then
       let name = w @ takeWhile nameChar vs; rest = dropWhile nameChar vs in
       if rest = [] then [name] else if hd rest = CHR ''$'' then refNames vs
       else name # refNames vs
     else refNames vs)"
  using assms
proof (induction vs arbitrary: pre k idx found refs p0 w)
  case Nil
  have "ref_Value (mkReference x) = x" for x by (simp add: mkReference_def)
  with Nil show ?case by (auto simp: addReference_def substr_def)
next
  case (Cons v vs)
  have mk: "ref_Value (mkReference x) = x" for x by (simp add: mkReference_def)
  show ?case
  proof (cases "v = CHR ''$''")
    case True
    have "map ref_Value (scanReferences s (k + 1) vs k True refs) = map ref_Value refs @
      (let name = [] @ takeWhile nameChar vs; rest = dropWhile nameChar vs in
       if rest = [] then [name] else if hd rest = CHR ''$'' then refNames vs
       else name # refNames vs)"
      using Cons.IH [of "pre @ [v]" "k + 1" True pre "[]" k refs] Cons.prems(1,2) True by simp
    then show ?thesis using True by (auto simp: Let_def nameChar_def)
  next
    case nd: False
    show ?thesis
    proof (cases found)
      case False
      have e: "scanReferences s k (v # vs) idx found refs = scanReferences s (k + 1) vs idx found refs"
        using False nd by simp
      show ?thesis
        unfolding e using Cons.IH [of "pre @ [v]" "k + 1" False p0 w idx refs] Cons.prems False nd
        by simp
    next
      case found: True
      show ?thesis
      proof (cases "nameChar v")
        case True
        then have e: "scanReferences s k (v # vs) idx found refs = scanReferences s (k + 1) vs idx found refs"
          using nd by (simp add: nameChar_def)
        show ?thesis
          unfolding e using Cons.IH [of "pre @ [v]" "k + 1" True p0 "w @ [v]" idx refs] Cons.prems
            found True nd by (simp add: Let_def)
      next
        case False
        then have v: "v = CHR ''.'' \<or> v = CHR '' '' \<or> v = CHR '')'' \<or> v = CHR ''[''"
          using nd by (auto simp: nameChar_def)
        have sub: "substr s (idx + 1) k = w" using Cons.prems found by (simp add: substr_def)
        have e: "scanReferences s k (v # vs) idx found refs =
            scanReferences s (k + 1) vs idx False (addReference refs w)"
          using v nd found sub by simp
        show ?thesis
          unfolding e
          using Cons.IH [of "pre @ [v]" "k + 1" False p0 w idx "addReference refs w"] Cons.prems
            False nd found
          by (simp add: addReference_def mk Let_def)
      qed
    qed
  qed
qed

text \<open>C20: the index-based scan of GetReferences returns exactly the names that follow a dollar
  sign and end at a dot, a blank, a closing parenthesis, an opening bracket or the end of the
  string.\<close>

theorem GetReferences_names: "map ref_Value (GetReferences s) = refNames s"
  unfolding GetReferences_def using scan_spec [of s "[]" s 0 False "[]" "[]" 0 "[]"] by simp

lemma refNames_shape:
  "n \<in> set (refNames s) \<Longrightarrow> (\<forall>c \<in> set n. nameChar c) \<and> (\<exists>a b. s = a @ CHR ''$'' # n @ b)"
proof (induction s)
  case (Cons c cs)
  let ?n = "takeWhile nameChar cs"
  have n: "(\<forall>c \<in> set ?n. nameChar c)" "cs = ?n @ dropWhile nameChar cs"
    by (auto dest: set_takeWhileD)
  from Cons.prems consider "n \<in> set (refNames cs)" | "c = CHR ''$''" "n = ?n"
    by (auto simp: Let_def split: if_splits)
  then show ?case
  proof cases
    case 1
    then show ?thesis using Cons.IH by (metis append_Cons)
  next
    case 2
    then have "c # cs = [] @ CHR ''$'' # n @ dropWhile nameChar cs" using n(2) by simp
    then show ?thesis using 2 n(1) by blast
  qed
qed simp

lemma GetReferences_kind:
  "r \<in> set (GetReferences s) \<Longrightarrow>
     (ref_Kind r = RangeReferenceKind \<longleftrightarrow> ref_Value r \<in> {''VALUE'', ''KEY'', ''INDEX''})"
proof -
  have mk: "(ref_Kind (mkReference x) = RangeReferenceKind) = (ref_Value (mkReference x) \<in> {''VALUE'', ''KEY'', ''INDEX''})"
    for x by (simp add: mkReference_def)
  let ?ok = "\<lambda>refs. \<forall>r \<in> set refs. (ref_Kind r = RangeReferenceKind) = (ref_Value r \<in> {''VALUE'', ''KEY'', ''INDEX''})"
  have add: "?ok refs \<Longrightarrow> ?ok (addReference refs x)" for refs x
    using mk [of x] by (simp add: addReference_def)
  have "?ok refs \<Longrightarrow> ?ok (scanReferences s k vs idx found refs)" for k vs idx found refs
  proof (induction vs arbitrary: k idx found refs)
    case Nil
    then show ?case using add by (cases found) (simp_all only: scanReferences.simps if_True if_False)
  next
    case (Cons v vs)
    consider (dollar) "v = CHR ''$''"
      | (delim) "v \<noteq> CHR ''$''" "(v = CHR ''.'' \<or> v = CHR '' '' \<or> v = CHR '')'' \<or> v = CHR ''['') \<and> found"
      | (other) "v \<noteq> CHR ''$''" "\<not> ((v = CHR ''.'' \<or> v = CHR '' '' \<or> v = CHR '')'' \<or> v = CHR ''['') \<and> found)"
      by blast
    then show ?case
    proof cases
      case dollar
      show ?thesis unfolding scanReferences.simps(2) if_P [OF dollar] by (rule Cons.IH) (rule Cons.prems)
    next
      case delim
      show ?thesis unfolding scanReferences.simps(2) if_not_P [OF delim(1)] if_P [OF delim(2)]
        by (rule Cons.IH) (rule add, rule Cons.prems)
    next
      case other
      show ?thesis unfolding scanReferences.simps(2) if_not_P [OF other(1)] if_not_P [OF other(2)]
        by (rule Cons.IH) (rule Cons.prems)
    qed
  qed
  from this [of "[]" 0 s 0 False]
  show "r \<in> set (GetReferences s) \<Longrightarrow> ?thesis" unfolding GetReferences_def by simp
qed

text \<open>Every reference that GetReferences returns stands in the string after a dollar sign and
  holds no delimiter, and it is a range reference exactly when it is VALUE, KEY or INDEX.\<close>

lemma GetReferences_sound:
  assumes "r \<in> set (GetReferences s)"
  shows "(\<forall>c \<in> set (ref_Value r). nameChar c) \<and> (\<exists>a b. s = a @ CHR ''$'' # ref_Value r @ b) \<and>
    (ref_Kind r = RangeReferenceKind \<longleftrightarrow> ref_Value r \<in> {''VALUE'', ''KEY'', ''INDEX''})"
proof -
  have "ref_Value r \<in> set (map ref_Value (GetReferences s))" using assms by simp
  then have "ref_Value r \<in> set (refNames s)"
    unfolding GetReferences_def using scan_spec [of s "[]" s 0 False "[]" "[]" 0 "[]"] by simp
  then show ?thesis using refNames_shape GetReferences_kind [OF assms] by blast
qed

theorem GetReferences_sound_witness:
  "GetReferences ''$x.a + $KEY'' = [mkReference ''x'', mkReference ''KEY''] \<and>
   ref_Kind (mkReference ''KEY'') = RangeReferenceKind"
proof -
  have e: "GetReferences ''$x.a + $KEY'' = [mkReference ''x'', mkReference ''KEY'']"
    by (simp add: GetReferences_def addReference_def substr_def)
  have "mkReference ''KEY'' \<in> set (GetReferences ''$x.a + $KEY'')" by (simp add: e)
  from GetReferences_sound [OF this] e show ?thesis by (simp add: mkReference_def)
qed

end
