(* ===== verification/Validator.thy ===== *)
theory Validator
  imports Walker Reference
begin

text \<open>
  The syntax validation of pkg/ccsyntax/parser\_validator\_syntax.go: the callbacks over a list of
  results, the walk over them, and the declarative predicate \<open>config_valid\<close> that an empty
  result list stands for.  A callback returns \<open>None\<close> where the code dereferences a nil \<open>Input\<close>.
\<close>

section \<open>The callbacks\<close>

definition validatePreHook :: "ControllerConfig \<Rightarrow> Result list \<Rightarrow> Result list go" where
  "validatePreHook lcncCfg rs =
     Some (if length (cc_For lcncCfg) \<noteq> 1
           then recordResult ((originFow FOWFor '''')\<lparr>oc_Origin := OriginUnset\<rparr>)
                  ''lcnc config must have just 1 for statement'' rs
           else rs)"

definition validateGvk ::
  "k8slib \<Rightarrow> OriginContext \<Rightarrow> GvkObject \<Rightarrow> Result list \<Rightarrow> (gvk option \<times> Result list) go" where
  "validateGvk K oc v rs =
     (let rs1 = (if length (go_Resource v) = 0 then recordResult oc ''a gvk must be present'' rs else rs);
          (gvk, err) = GetGVK K (go_Resource v)
      in Some (gvk, recordErr oc err rs1))"

definition validateEmptyPipeline ::
  "OriginContext \<Rightarrow> GvkObject \<Rightarrow> Result list \<Rightarrow> Result list go" where
  "validateEmptyPipeline oc v rs =
     (let issue = (case oc_FOWS oc of
                     FOWFor \<Rightarrow> True
                   | FOWWatch \<Rightarrow> oc_Operation oc = OperationApply
                   | _ \<Rightarrow> False)
      in Some (if issue then recordResult oc ''a pipeline must be present'' rs else rs))"

definition validateEmptyFunctionElement :: "OriginContext \<Rightarrow> Result list \<Rightarrow> Result list go" where
  "validateEmptyFunctionElement oc rs = Some (recordResult oc ''a function cannot be empty'' rs)"

definition validateContext ::
  "OriginContext \<Rightarrow> Function \<Rightarrow> string \<Rightarrow> Result list \<Rightarrow> Result list" where
  "validateContext oc v s rs =
     fold (\<lambda>ref rs.
             case ref_Kind ref of
               RangeReferenceKind \<Rightarrow>
                 if \<not> HasBlock v \<or> \<not> HasRange (fn_Block v)
                 then recordResult oc ''cannot use Key variables without a range statement'' rs
                 else rs
             | RegularReferenceKind \<Rightarrow> rs)
       (GetReferences s) rs"

definition nested :: "Block \<Rightarrow> bool" where
  "nested b \<longleftrightarrow> BRange b \<noteq> None \<or> BCondition b \<noteq> None"

fun validateBlock :: "OriginContext \<Rightarrow> Block \<Rightarrow> Result list \<Rightarrow> Result list"
  and validateRange :: "OriginContext \<Rightarrow> Block \<Rightarrow> RangeValue option \<Rightarrow> Result list \<Rightarrow> Result list"
  and validateCondition ::
    "OriginContext \<Rightarrow> Block \<Rightarrow> ConditionExpression option \<Rightarrow> Result list \<Rightarrow> Result list" where
  "validateBlock oc (Block r c) rs =
     (let rs1 = (if r \<noteq> None \<and> c \<noteq> None
                 then recordResult oc ''cannot have both range and condition in the same block'' rs
                 else rs)
      in validateCondition oc (Block r c) c (validateRange oc (Block r c) r rs1))"
| "validateRange oc v None rs = rs"
| "validateRange oc v (Some (RangeValue value b)) rs =
     (let rs1 = (if value \<noteq> '''' then validateContext oc (Function0\<lparr>fn_Block := v\<rparr>) value rs
                 else recordResult oc ''range value cannot be empty'' rs)
      in if nested b then validateBlock oc b rs1 else rs1)"
| "validateCondition oc v None rs = rs"
| "validateCondition oc v (Some (ConditionExpression expression b)) rs =
     (let rs1 = (if expression \<noteq> '''' then validateContext oc (Function0\<lparr>fn_Block := v\<rparr>) expression rs
                 else recordResult oc ''condition expression cannot be empty'' rs)
      in if nested b then validateBlock oc b rs1 else rs1)"

definition validateFunctionBlock ::
  "OriginContext \<Rightarrow> FunctionElement \<Rightarrow> Result list \<Rightarrow> Result list go" where
  "validateFunctionBlock oc v rs =
     (let rs1 = (if oc_BlockIndex oc \<ge> 1
                 then recordResult oc ''a pipeline van only have 1function block'' rs else rs);
          rs2 = (if \<not> HasBlock (fe_Function v)
                 then recordResult oc ''a function block must have a block'' rs1 else rs1)
      in Some (if HasBlock (fe_Function v) then validateBlock oc (fn_Block (fe_Function v)) rs2 else rs2))"

text \<open>The switch over the function type; \<open>v.Input\<close> is dereferenced without a test for the map,
  slice and gotemplate types.\<close>

definition validateType :: "k8slib \<Rightarrow> OriginContext \<Rightarrow> Function \<Rightarrow> Result list \<Rightarrow> Result list go" where
  "validateType K oc v rs =
     (case fn_Type v of
        MapType \<Rightarrow> do {
          i \<leftarrow> fn_Input v;
          let rs1 = (if in_Key i = '''' then recordResult oc ''key needs to be present'' rs else rs);
          Some (if in_Value i = '''' then recordResult oc ''value needs to be present'' rs1 else rs1) }
      | SliceType \<Rightarrow> do {
          i \<leftarrow> fn_Input v;
          Some (if in_Value i = '''' then recordResult oc ''value needs to be present'' rs else rs) }
      | QueryType \<Rightarrow>
          (case fn_Input v of
             Some i \<Rightarrow>
               if length (in_Resource i) = 0 then Some (recordResult oc ''gvk needs to be present'' rs)
               else Some (recordErr oc (snd (GetGVK K (in_Resource i))) rs)
           | None \<Rightarrow> Some (recordResult oc ''input needs to be present'' rs))
      | GoTemplateType \<Rightarrow> do {
          i \<leftarrow> fn_Input v;
          let rs1 = (if length (in_Resource i) = 0 \<and> in_Template i = ''''
                     then recordResult oc ''resource or template need to be present'' rs else rs);
          Some (if length (in_Resource i) \<noteq> 0
                then recordErr oc (snd (GetGVK K (in_Resource i))) rs1 else rs1) }
      | BlockType \<Rightarrow> Some rs
      | ContainerType \<Rightarrow>
          Some (if ex_Exec (fn_Executor v) = '''' \<and> ex_Image (fn_Executor v) = ''''
                then recordResult oc ''external functions need an image or exec'' rs else rs)
      | WasmType \<Rightarrow>
          Some (if ex_Exec (fn_Executor v) = '''' \<and> ex_Image (fn_Executor v) = ''''
                then recordResult oc ''external functions need an image or exec'' rs else rs)
      | _ \<Rightarrow> Some rs)"

definition validateInput :: "OriginContext \<Rightarrow> Function \<Rightarrow> Result list \<Rightarrow> Result list" where
  "validateInput oc v rs =
     (case fn_Input v of
        None \<Rightarrow>
          if \<not> (fn_Type v = BlockType \<or> fn_Type v = ContainerType)
          then recordResult oc ''input is needed in a function'' rs else rs
      | Some i \<Rightarrow>
          let rs1 = (if in_Key i \<noteq> '''' then validateContext oc v (in_Key i) rs else rs);
              rs2 = (if in_Value i \<noteq> '''' then validateContext oc v (in_Value i) rs1 else rs1)
          in fold (\<lambda>(_, val). validateContext oc v val) (in_GenericInput i) rs2)"

definition validateOutputs ::
  "k8slib \<Rightarrow> OriginContext \<Rightarrow> (string, Output) gmap \<Rightarrow> Result list \<Rightarrow> Result list" where
  "validateOutputs K oc outs rs =
     fold (\<lambda>(_, v) rs.
             if length (out_Resource v) = 0 then recordResult oc ''cannot use output without data'' rs
             else recordErr oc (snd (GetGVK K (out_Resource v))) rs)
       outs rs"

definition validateFunction :: "k8slib \<Rightarrow> OriginContext \<Rightarrow> Function \<Rightarrow> Result list \<Rightarrow> Result list go" where
  "validateFunction K oc v rs = do {
     let rs1 = (if HasBlock v then validateBlock oc (fn_Block v) rs else rs);
     rs2 \<leftarrow> validateType K oc v rs1;
     let rs3 = validateInput oc v rs2;
     Some (case fn_Output v of None \<Rightarrow> rs3 | Some outs \<Rightarrow> validateOutputs K oc outs rs3) }"

definition validateServiceFunction ::
  "k8slib \<Rightarrow> OriginContext \<Rightarrow> Function \<Rightarrow> Result list \<Rightarrow> Result list go" where
  "validateServiceFunction K oc v rs =
     (let rs1 = (if fn_Type v \<noteq> ContainerType
                 then recordResult oc ''cannot use services with type other than container'' rs else rs);
          rs2 = (if ex_Image (fn_Executor v) = ''''
                 then recordResult oc ''cannot use services with an image'' rs1 else rs1)
      in Some (case fn_Output v of
                 Some outs \<Rightarrow> validateOutputs K oc outs rs2
               | None \<Rightarrow> recordResult oc ''cannot use a service w/o output definition'' rs2))"

definition vsWalk :: "k8slib \<Rightarrow> Result list ccWalkConfig" where
  "vsWalk K = noCallbacks
     \<lparr>cfgPreHookFn := Some validatePreHook, gvkObjectFn := Some (validateGvk K),
      emptyPipelineFn := Some validateEmptyPipeline,
      emptyFunctionElementFn := Some validateEmptyFunctionElement,
      functionBlockFn := Some validateFunctionBlock,
      functionFn := Some (validateFunction K), serviceFn := Some (validateServiceFunction K)\<rparr>"

definition ValidateSyntax :: "k8slib \<Rightarrow> ControllerConfig \<Rightarrow> Result list go" where
  "ValidateSyntax K cfg = walkLcncConfig (vsWalk K) cfg []"

section \<open>What a valid configuration is\<close>

text \<open>A string of a function or block may use the range variables only under a range.\<close>

definition context_valid :: "Function \<Rightarrow> string \<Rightarrow> bool" where
  "context_valid v s \<longleftrightarrow>
     (HasBlock v \<and> HasRange (fn_Block v)) \<or> (\<forall>r \<in> set (GetReferences s). ref_Kind r = RegularReferenceKind)"

fun block_valid :: "Block \<Rightarrow> bool" where
  "block_valid (Block r c) =
     ((r = None \<or> c = None) \<and>
      (case r of None \<Rightarrow> True
       | Some (RangeValue value b) \<Rightarrow> value \<noteq> '''' \<and> (nested b \<longrightarrow> block_valid b)) \<and>
      (case c of None \<Rightarrow> True
       | Some (ConditionExpression e b) \<Rightarrow>
           e \<noteq> '''' \<and> context_valid (Function0\<lparr>fn_Block := Block r c\<rparr>) e \<and> (nested b \<longrightarrow> block_valid b)))"

definition gvk_valid :: "k8slib \<Rightarrow> raw \<Rightarrow> bool" where
  "gvk_valid K r \<longleftrightarrow> r \<noteq> [] \<and> snd (GetGVK K r) = None"

definition type_valid :: "k8slib \<Rightarrow> Function \<Rightarrow> Input option \<Rightarrow> bool" where
  "type_valid K v i =
     (case fn_Type v of
        MapType \<Rightarrow> (\<exists>x. i = Some x \<and> in_Key x \<noteq> '''' \<and> in_Value x \<noteq> '''')
      | SliceType \<Rightarrow> (\<exists>x. i = Some x \<and> in_Value x \<noteq> '''')
      | QueryType \<Rightarrow> (\<exists>x. i = Some x \<and> gvk_valid K (in_Resource x))
      | GoTemplateType \<Rightarrow>
          (\<exists>x. i = Some x \<and> (if in_Resource x = [] then in_Template x \<noteq> ''''
                             else gvk_valid K (in_Resource x)))
      | ContainerType \<Rightarrow> ex_Exec (fn_Executor v) \<noteq> '''' \<or> ex_Image (fn_Executor v) \<noteq> ''''
      | WasmType \<Rightarrow> i \<noteq> None \<and> (ex_Exec (fn_Executor v) \<noteq> '''' \<or> ex_Image (fn_Executor v) \<noteq> '''')
      | BlockType \<Rightarrow> True
      | _ \<Rightarrow> i \<noteq> None)"

definition outputs_valid :: "k8slib \<Rightarrow> (string, Output) gmap \<Rightarrow> bool" where
  "outputs_valid K outs \<longleftrightarrow> (\<forall>(_, out) \<in> set outs. gvk_valid K (out_Resource out))"

definition input_valid :: "Function \<Rightarrow> Input \<Rightarrow> bool" where
  "input_valid v i \<longleftrightarrow> context_valid v (in_Key i) \<and> context_valid v (in_Value i) \<and>
     (\<forall>(_, s) \<in> set (in_GenericInput i). context_valid v s)"

definition function_valid :: "k8slib \<Rightarrow> Function \<Rightarrow> bool" where
  "function_valid K v \<longleftrightarrow>
     (HasBlock v \<longrightarrow> block_valid (fn_Block v)) \<and> type_valid K v (fn_Input v) \<and>
     (\<forall>i. fn_Input v = Some i \<longrightarrow> input_valid v i) \<and>
     (\<forall>outs. fn_Output v = Some outs \<longrightarrow> outputs_valid K outs)"

definition service_valid :: "k8slib \<Rightarrow> Function \<Rightarrow> bool" where
  "service_valid K v \<longleftrightarrow> fn_Type v = ContainerType \<and> ex_Image (fn_Executor v) \<noteq> '''' \<and>
     (\<exists>outs. fn_Output v = Some outs \<and> outputs_valid K outs)"

fun event_valid :: "k8slib \<Rightarrow> ControllerConfig \<Rightarrow> event \<Rightarrow> bool" where
  "event_valid K cfg PreHook \<longleftrightarrow> length (cc_For cfg) = 1"
| "event_valid K cfg (GvkObjectAt oc v) \<longleftrightarrow> gvk_valid K (go_Resource v)"
| "event_valid K cfg (EmptyPipelineAt oc v) \<longleftrightarrow>
     oc_FOWS oc \<noteq> FOWFor \<and> (oc_FOWS oc = FOWWatch \<longrightarrow> oc_Operation oc \<noteq> OperationApply)"
| "event_valid K cfg (EmptyElementAt oc) \<longleftrightarrow> False"
| "event_valid K cfg (BlockElementAt oc fe) \<longleftrightarrow>
     oc_BlockIndex oc < 1 \<and> HasBlock (fe_Function fe) \<and> block_valid (fn_Block (fe_Function fe))"
| "event_valid K cfg (FunctionAt oc fn) \<longleftrightarrow> function_valid K fn"
| "event_valid K cfg (ServiceAt oc fn) \<longleftrightarrow> service_valid K fn"
| "event_valid K cfg NilEntry \<longleftrightarrow> False"
| "event_valid K cfg _ \<longleftrightarrow> True"

definition config_valid :: "k8slib \<Rightarrow> ControllerConfig \<Rightarrow> bool" where
  "config_valid K cfg \<longleftrightarrow>
     (\<forall>e \<in> set (configEvents (\<lambda>r. fst (GetGVK K r)) cfg). event_valid K cfg e)"

end
