(* ===== verification/Validator_Correct.thy ===== *)
theory Validator_Correct
  imports Validator
begin

text \<open>
  The validator of parser\_validator\_syntax.go against its declarative specification: every
  callback adds a result exactly when its event is invalid, so an empty list of results stands
  for a valid configuration.
\<close>

section \<open>The validator reports exactly the invalid configurations\<close>

text \<open>A step adds results to the list, and adds none exactly when \<open>valid\<close>.\<close>

definition grows :: "Result list \<Rightarrow> Result list \<Rightarrow> bool \<Rightarrow> bool" where
  "grows rs rs' valid \<longleftrightarrow> (\<exists>new. rs' = rs @ new \<and> (new = [] \<longleftrightarrow> valid))"

lemma grows_refl [intro]: "valid \<Longrightarrow> grows rs rs valid"
  by (simp add: grows_def)

lemma grows_trans:
  assumes "grows rs rs1 a" and "grows rs1 rs2 b"
  shows "grows rs rs2 (a \<and> b)"
proof -
  obtain n m where "rs1 = rs @ n" "n = [] \<longleftrightarrow> a" "rs2 = rs1 @ m" "m = [] \<longleftrightarrow> b"
    using assms by (auto simp: grows_def)
  then show ?thesis by (auto simp: grows_def intro!: exI [of _ "n @ m"])
qed

lemma grows_trans_iff:
  "grows rs rs1 a \<Longrightarrow> grows rs1 rs2 b \<Longrightarrow> (c \<longleftrightarrow> a \<and> b) \<Longrightarrow> grows rs rs2 c"
  using grows_trans by simp

lemma grows_record: "\<not> valid \<Longrightarrow> grows rs (recordResult oc e rs) valid"
  by (simp add: grows_def recordResult_def)

lemma grows_if: "grows rs (if c then recordResult oc e rs else rs) (\<not> c)"
  by (simp add: grows_record grows_refl)

lemma grows_recordErr: "grows rs (recordErr oc err rs) (err = None)"
  by (cases err) (auto simp: recordErr_def intro: grows_record)

lemma grows_fold:
  "(\<And>x rs. x \<in> set xs \<Longrightarrow> grows rs (f x rs) (p x)) \<Longrightarrow> grows rs (fold f xs rs) (\<forall>x \<in> set xs. p x)"
proof (induction xs arbitrary: rs)
  case Nil
  then show ?case by auto
next
  case (Cons x xs)
  have "grows rs (f x rs) (p x)" using Cons.prems by simp
  moreover have "grows (f x rs) (fold f xs (f x rs)) (\<forall>x \<in> set xs. p x)"
    by (rule Cons.IH) (simp add: Cons.prems)
  ultimately show ?case by (simp add: grows_trans)
qed

lemma grows_context: "grows rs (validateContext oc v s rs) (context_valid v s)"
proof -
  let ?ok = "\<lambda>r. ref_Kind r = RangeReferenceKind \<longrightarrow> HasBlock v \<and> HasRange (fn_Block v)"
  have "grows rs (validateContext oc v s rs) (\<forall>r \<in> set (GetReferences s). ?ok r)"
    unfolding validateContext_def
  proof (rule grows_fold)
    fix r rs
    show "grows rs (case ref_Kind r of
        RangeReferenceKind \<Rightarrow>
          if \<not> HasBlock v \<or> \<not> HasRange (fn_Block v)
          then recordResult oc ''cannot use Key variables without a range statement'' rs else rs
      | RegularReferenceKind \<Rightarrow> rs) (?ok r)"
      by (cases "ref_Kind r") (simp_all add: grows_record grows_refl)
  qed
  moreover have "(\<forall>r \<in> set (GetReferences s). ?ok r) = context_valid v s"
  proof -
    have "ref_Kind r = RegularReferenceKind \<longleftrightarrow> ref_Kind r \<noteq> RangeReferenceKind" for r
      by (cases "ref_Kind r") simp_all
    then show ?thesis unfolding context_valid_def by blast
  qed
  ultimately show ?thesis by simp
qed

lemma context_valid_empty: "context_valid v ''''"
  by (simp add: context_valid_def GetReferences_def)

lemma grows_context_opt:
  "grows rs (if s \<noteq> '''' then validateContext oc v s rs else rs) (context_valid v s)"
  by (auto simp: grows_context context_valid_empty)

lemma context_valid_range: "context_valid (Function0\<lparr>fn_Block := Block (Some r) c\<rparr>) s"
  by (simp add: context_valid_def HasBlock_def)

section \<open>Blocks\<close>

text \<open>The conditions the three block callbacks stand for.\<close>

definition range_part :: "RangeValue option \<Rightarrow> bool" where
  "range_part r = (case r of None \<Rightarrow> True
     | Some (RangeValue value b) \<Rightarrow> value \<noteq> '''' \<and> (nested b \<longrightarrow> block_valid b))"

definition condition_part :: "Block \<Rightarrow> ConditionExpression option \<Rightarrow> bool" where
  "condition_part v c = (case c of None \<Rightarrow> True
     | Some (ConditionExpression e b) \<Rightarrow>
         e \<noteq> '''' \<and> context_valid (Function0\<lparr>fn_Block := v\<rparr>) e \<and> (nested b \<longrightarrow> block_valid b))"

lemma block_valid_parts:
  "block_valid (Block r c) \<longleftrightarrow> (r = None \<or> c = None) \<and> range_part r \<and> condition_part (Block r c) c"
  by (simp add: range_part_def condition_part_def)

declare block_valid.simps [simp del] validateBlock.simps [simp del]

lemma grows_block:
  "grows rs (validateBlock oc b rs) (block_valid b)"
  "BRange v = r \<Longrightarrow> grows rs (validateRange oc v r rs) (range_part r)"
  "grows rs (validateCondition oc v c rs) (condition_part v c)"
proof (induction oc b rs and oc v r rs and oc v c rs rule: validateBlock_validateRange_validateCondition.induct)
  case (1 oc r c rs)
  let ?rs1 = "if r \<noteq> None \<and> c \<noteq> None
    then recordResult oc ''cannot have both range and condition in the same block'' rs else rs"
  have r: "grows ?rs1 (validateRange oc (Block r c) r ?rs1) (range_part r)"
    by (rule "1.IH"(1)) simp_all
  have c: "grows (validateRange oc (Block r c) r ?rs1)
      (validateCondition oc (Block r c) c (validateRange oc (Block r c) r ?rs1))
      (condition_part (Block r c) c)"
    by (rule "1.IH"(2)) simp
  show ?case
    unfolding validateBlock.simps Let_def block_valid_parts
    by (rule grows_trans_iff [OF grows_trans [OF grows_if r] c]) auto
next
  case (3 oc v x b rs)
  have c: "context_valid (Function0\<lparr>fn_Block := v\<rparr>) x"
    using "3.prems" by (cases v) (auto intro: context_valid_range)
  let ?rs1 = "if x \<noteq> '''' then validateContext oc (Function0\<lparr>fn_Block := v\<rparr>) x rs
    else recordResult oc ''range value cannot be empty'' rs"
  have a: "grows rs ?rs1 (x \<noteq> '''')"
    using grows_context [of rs oc "Function0\<lparr>fn_Block := v\<rparr>" x] c by (auto intro: grows_record)
  have b: "grows ?rs1 (if nested b then validateBlock oc b ?rs1 else ?rs1) (nested b \<longrightarrow> block_valid b)"
    using "3.IH" [of ?rs1] by auto
  show ?case
    unfolding validateRange.simps Let_def
    by (rule grows_trans_iff [OF a b]) (simp add: range_part_def)
next
  case (5 oc v e b rs)
  let ?rs1 = "if e \<noteq> '''' then validateContext oc (Function0\<lparr>fn_Block := v\<rparr>) e rs
    else recordResult oc ''condition expression cannot be empty'' rs"
  have a: "grows rs ?rs1 (e \<noteq> '''' \<and> context_valid (Function0\<lparr>fn_Block := v\<rparr>) e)"
    using grows_context [of rs oc "Function0\<lparr>fn_Block := v\<rparr>" e] by (auto intro: grows_record)
  have b: "grows ?rs1 (if nested b then validateBlock oc b ?rs1 else ?rs1) (nested b \<longrightarrow> block_valid b)"
    using "5.IH" [of ?rs1] by auto
  show ?case
    unfolding validateCondition.simps Let_def
    by (rule grows_trans_iff [OF a b]) (auto simp: condition_part_def)
qed (auto simp: range_part_def condition_part_def)

section \<open>Functions and services\<close>

text \<open>A step that may panic: it panics only when \<open>valid\<close> does not hold.\<close>

definition go_grows :: "Result list \<Rightarrow> Result list go \<Rightarrow> bool \<Rightarrow> bool" where
  "go_grows rs r valid \<longleftrightarrow> (case r of None \<Rightarrow> \<not> valid | Some rs' \<Rightarrow> grows rs rs' valid)"

lemma go_grows_simps [simp]:
  "go_grows rs None valid \<longleftrightarrow> \<not> valid"
  "go_grows rs (Some rs') valid \<longleftrightarrow> grows rs rs' valid"
  by (simp_all add: go_grows_def)

lemma go_grows_ofold:
  "(\<And>x rs. x \<in> set xs \<Longrightarrow> go_grows rs (f x rs) (p x)) \<Longrightarrow>
   go_grows rs (ofold f xs rs) (\<forall>x \<in> set xs. p x)"
proof (induction xs arbitrary: rs)
  case Nil
  then show ?case by (simp add: grows_refl)
next
  case (Cons x xs)
  have x: "go_grows rs (f x rs) (p x)" using Cons.prems by simp
  have xs: "go_grows rs1 (ofold f xs rs1) (\<forall>x \<in> set xs. p x)" for rs1
    by (rule Cons.IH) (simp add: Cons.prems)
  show ?case
  proof (cases "f x rs")
    case None
    then show ?thesis using x by simp
  next
    case (Some rs1)
    then have "grows rs rs1 (p x)" using x by simp
    then show ?thesis using xs [of rs1] Some grows_trans
      by (cases "ofold f xs rs1") auto
  qed
qed

lemma grows_gvk: "r \<noteq> [] \<Longrightarrow> grows rs (recordErr oc (snd (GetGVK K r)) rs) (gvk_valid K r)"
  using grows_recordErr [of rs oc "snd (GetGVK K r)"] by (simp add: gvk_valid_def)

lemma grows_outputs: "grows rs (validateOutputs K oc outs rs) (outputs_valid K outs)"
proof -
  have "grows rs (validateOutputs K oc outs rs) (\<forall>x \<in> set outs. gvk_valid K (out_Resource (snd x)))"
    unfolding validateOutputs_def
  proof (rule grows_fold)
    fix x :: "string \<times> Output" and rs
    show "grows rs ((case x of (_, v) \<Rightarrow> \<lambda>rs.
        if length (out_Resource v) = 0 then recordResult oc ''cannot use output without data'' rs
        else recordErr oc (snd (GetGVK K (out_Resource v))) rs) rs) (gvk_valid K (out_Resource (snd x)))"
      by (cases x) (auto simp: gvk_valid_def intro: grows_record grows_recordErr)
  qed
  then show ?thesis by (simp add: outputs_valid_def split_def)
qed

lemma grows_input:
  "grows rs (validateInput oc v rs)
     (case fn_Input v of None \<Rightarrow> fn_Type v = BlockType \<or> fn_Type v = ContainerType
      | Some i \<Rightarrow> input_valid v i)"
proof (cases "fn_Input v")
  case None
  then show ?thesis by (auto simp: validateInput_def intro: grows_record)
next
  case (Some i)
  let ?rs1 = "if in_Key i \<noteq> '''' then validateContext oc v (in_Key i) rs else rs"
  let ?rs2 = "if in_Value i \<noteq> '''' then validateContext oc v (in_Value i) ?rs1 else ?rs1"
  have "grows ?rs2 (fold (\<lambda>(_, val). validateContext oc v val) (in_GenericInput i) ?rs2)
      (\<forall>x \<in> set (in_GenericInput i). context_valid v (snd x))"
    by (rule grows_fold) (auto simp: grows_context split: prod.splits)
  then have "grows rs (fold (\<lambda>(_, val). validateContext oc v val) (in_GenericInput i) ?rs2)
      ((context_valid v (in_Key i) \<and> context_valid v (in_Value i)) \<and>
       (\<forall>x \<in> set (in_GenericInput i). context_valid v (snd x)))"
    by (rule grows_trans [OF grows_trans [OF grows_context_opt grows_context_opt]])
  then show ?thesis
    by (simp only: validateInput_def Some option.case Let_def input_valid_def split_def conj_assoc)
qed

text \<open>What the switch over the type checks, the input itself apart.\<close>

definition switch_valid :: "k8slib \<Rightarrow> Function \<Rightarrow> bool" where
  "switch_valid K v =
     (case fn_Type v of
        MapType \<Rightarrow> (\<exists>x. fn_Input v = Some x \<and> in_Key x \<noteq> '''' \<and> in_Value x \<noteq> '''')
      | SliceType \<Rightarrow> (\<exists>x. fn_Input v = Some x \<and> in_Value x \<noteq> '''')
      | QueryType \<Rightarrow> (\<exists>x. fn_Input v = Some x \<and> gvk_valid K (in_Resource x))
      | GoTemplateType \<Rightarrow>
          (\<exists>x. fn_Input v = Some x \<and> (if in_Resource x = [] then in_Template x \<noteq> ''''
                                       else gvk_valid K (in_Resource x)))
      | ContainerType \<Rightarrow> ex_Exec (fn_Executor v) \<noteq> '''' \<or> ex_Image (fn_Executor v) \<noteq> ''''
      | WasmType \<Rightarrow> ex_Exec (fn_Executor v) \<noteq> '''' \<or> ex_Image (fn_Executor v) \<noteq> ''''
      | _ \<Rightarrow> True)"

lemma grows_record2: "\<not> valid \<Longrightarrow> grows rs (recordResult oc e (recordResult oc e' rs)) valid"
  by (simp add: grows_def recordResult_def)

lemma go_grows_type: "go_grows rs (validateType K oc v rs) (switch_valid K v)"
proof (cases "fn_Type v")
  case MapType
  show ?thesis
    by (cases "fn_Input v")
      (auto simp: validateType_def switch_valid_def MapType Let_def intro: grows_record grows_record2)
next
  case SliceType
  show ?thesis
    by (cases "fn_Input v") (auto simp: validateType_def switch_valid_def SliceType intro: grows_record)
next
  case QueryType
  show ?thesis
    by (cases "fn_Input v")
      (auto simp: validateType_def switch_valid_def QueryType gvk_valid_def
        intro: grows_record grows_recordErr)
next
  case GoTemplateType
  show ?thesis
  proof (cases "fn_Input v")
    case (Some i)
    then show ?thesis using GoTemplateType
      by (auto simp: validateType_def switch_valid_def grows_gvk intro: grows_record)
  qed (simp add: validateType_def switch_valid_def GoTemplateType)
qed (auto simp: validateType_def switch_valid_def intro: grows_record)



lemma type_valid_split:
  "type_valid K v (fn_Input v) \<longleftrightarrow>
   switch_valid K v \<and> (fn_Input v = None \<longrightarrow> fn_Type v = BlockType \<or> fn_Type v = ContainerType)"
  by (cases "fn_Type v") (auto simp: type_valid_def switch_valid_def)

lemma go_grows_function: "go_grows rs (validateFunction K oc v rs) (function_valid K v)"
proof -
  let ?rs1 = "if HasBlock v then validateBlock oc (fn_Block v) rs else rs"
  have 1: "grows rs ?rs1 (HasBlock v \<longrightarrow> block_valid (fn_Block v))"
    by (auto intro: grows_block)
  show ?thesis
  proof (cases "validateType K oc v ?rs1")
    case None
    then have "\<not> switch_valid K v" using go_grows_type [of ?rs1 K oc v] by simp
    then show ?thesis using None by (simp add: validateFunction_def function_valid_def type_valid_split)
  next
    case (Some rs2)
    then have 2: "grows ?rs1 rs2 (switch_valid K v)" using go_grows_type [of ?rs1 K oc v] by simp
    let ?rs3 = "validateInput oc v rs2"
    let ?rs4 = "case fn_Output v of None \<Rightarrow> ?rs3 | Some outs \<Rightarrow> validateOutputs K oc outs ?rs3"
    have 4: "grows ?rs3 ?rs4 (\<forall>outs. fn_Output v = Some outs \<longrightarrow> outputs_valid K outs)"
      by (cases "fn_Output v") (auto intro: grows_outputs)
    have "grows rs ?rs4 (function_valid K v)"
      by (rule grows_trans_iff [OF grows_trans [OF 1 2] grows_trans [OF grows_input 4]])
        (auto simp: function_valid_def type_valid_split split: option.splits)
    then show ?thesis using Some by (simp add: validateFunction_def Let_def)
  qed
qed

lemma go_grows_service: "go_grows rs (validateServiceFunction K oc v rs) (service_valid K v)"
proof -
  let ?rs1 = "if fn_Type v \<noteq> ContainerType
    then recordResult oc ''cannot use services with type other than container'' rs else rs"
  let ?rs2 = "if ex_Image (fn_Executor v) = ''''
    then recordResult oc ''cannot use services with an image'' ?rs1 else ?rs1"
  let ?rs3 = "case fn_Output v of
      Some outs \<Rightarrow> validateOutputs K oc outs ?rs2
    | None \<Rightarrow> recordResult oc ''cannot use a service w/o output definition'' ?rs2"
  have 3: "grows ?rs2 ?rs3 (\<exists>outs. fn_Output v = Some outs \<and> outputs_valid K outs)"
    by (cases "fn_Output v") (auto intro: grows_outputs grows_record)
  have "grows rs ?rs3 (service_valid K v)"
    by (rule grows_trans_iff [OF grows_trans [OF grows_if grows_if] 3]) (auto simp: service_valid_def)
  then show ?thesis by (simp only: validateServiceFunction_def Let_def go_grows_simps)
qed

lemma go_grows_function_block:
  "go_grows rs (validateFunctionBlock oc v rs) (event_valid K cfg (BlockElementAt oc v))"
proof -
  let ?rs1 = "if 1 \<le> oc_BlockIndex oc
    then recordResult oc ''a pipeline van only have 1function block'' rs else rs"
  let ?rs2 = "if \<not> HasBlock (fe_Function v)
    then recordResult oc ''a function block must have a block'' ?rs1 else ?rs1"
  let ?rs3 = "if HasBlock (fe_Function v) then validateBlock oc (fn_Block (fe_Function v)) ?rs2 else ?rs2"
  have 3: "grows ?rs2 ?rs3 (HasBlock (fe_Function v) \<longrightarrow> block_valid (fn_Block (fe_Function v)))"
    by (auto intro: grows_block)
  have "grows rs ?rs3 (event_valid K cfg (BlockElementAt oc v))"
    by (rule grows_trans_iff [OF grows_trans [OF grows_if grows_if] 3]) auto
  then show ?thesis by (simp only: validateFunctionBlock_def Let_def go_grows_simps)
qed

section \<open>The whole validation\<close>

interpretation vs: phase "vsWalk K" "\<lambda>r. fst (GetGVK K r)" "validateGvk K" for K
proof
  show "gvkObjectFn (vsWalk K) = Some (validateGvk K)" by (simp add: vsWalk_def)
  show "validateGvk K oc v s = Some (g, t) \<Longrightarrow> g = fst (GetGVK K (go_Resource v))" for oc v s g t
    by (auto simp: validateGvk_def Let_def split: prod.splits)
qed

lemma go_grows_event: "go_grows rs (handle (vsWalk K) cfg e rs) (event_valid K cfg e)"
proof (cases e)
  case PreHook
  then show ?thesis
    by (auto simp: vsWalk_def call1_def validatePreHook_def intro: grows_record)
next
  case (GvkObjectAt oc v)
  let ?rs1 = "if length (go_Resource v) = 0 then recordResult oc ''a gvk must be present'' rs else rs"
  have "grows rs (recordErr oc (snd (GetGVK K (go_Resource v))) ?rs1) (gvk_valid K (go_Resource v))"
    by (rule grows_trans_iff [OF grows_if grows_recordErr]) (simp add: gvk_valid_def)
  then show ?thesis by (simp add: GvkObjectAt vsWalk_def validateGvk_def split_def Let_def)
next
  case (EmptyPipelineAt oc v)
  then show ?thesis
    by (cases "oc_FOWS oc")
      (auto simp: vsWalk_def call2_def validateEmptyPipeline_def intro: grows_record)
next
  case (BlockElementAt oc fe)
  then show ?thesis using go_grows_function_block [of rs oc fe K cfg]
    by (simp add: vsWalk_def call2_def)
next
  case (FunctionAt oc fn)
  then show ?thesis using go_grows_function [of rs K oc fn] by (simp add: vsWalk_def call2_def)
next
  case (ServiceAt oc fn)
  then show ?thesis using go_grows_service [of rs K oc fn] by (simp add: vsWalk_def call2_def)
qed (simp_all add: vsWalk_def noCallbacks_def call1_def call2_def grows_refl
    validateEmptyFunctionElement_def grows_record)

lemma ValidateSyntax_grows: "go_grows [] (ValidateSyntax K cfg) (config_valid K cfg)"
  unfolding ValidateSyntax_def vs.walk_events config_valid_def
  by (rule go_grows_ofold) (rule go_grows_event)

text \<open>C2: the validation of a configuration returns no result, and does not panic, exactly when
  the configuration is valid: one for object, group-version-kinds that parse, pipelines where they
  are required, range variables used only under a range, blocks that are well formed at every depth,
  and for every function the input, executor and outputs its type needs.\<close>

theorem ValidateSyntax_correct: "ValidateSyntax K cfg = Some [] \<longleftrightarrow> config_valid K cfg"
  using ValidateSyntax_grows [of K cfg]
  by (cases "ValidateSyntax K cfg") (auto simp: grows_def)

text \<open>A function of type map, slice or gotemplate without an input makes the validation
  panic, since the switch over the types reads the input before it is tested.\<close>

lemma validateFunction_nil_input_panics:
  assumes "fn_Type v \<in> {MapType, SliceType, GoTemplateType}" and "fn_Input v = None"
  shows "validateFunction K oc v rs = None"
  using assms by (auto simp: validateFunction_def validateType_def Let_def)

theorem validateFunction_nil_input_panics_witness:
  "validateFunction
     \<lparr>unmarshalTypeMeta = (\<lambda>_. Inl ''no type meta''), ParseGroupVersion = (\<lambda>_. Inl ''no version'')\<rparr>
     (originFow FOWFor ''a'') (Function0\<lparr>fn_Type := SliceType\<rparr>) [] = None"
  by (rule validateFunction_nil_input_panics) (simp_all add: Function0_def)

end
