(* ===== verification/Stores.thy ===== *)
theory Stores
  imports Config
begin

text \<open>
  The key-value stores that carry data between functions: pkg/ccutils/kv/kv.go and, on top of
  it, pkg/exec/input, pkg/exec/output and pkg/exec/service, and the slice behind pkg/exec/result
  (pkg/ccutils/slice/slice.go).

  \<open>any\<close> is what the code keeps in an \<open>any\<close>: decoded JSON, and a pointer to an \<open>OutputInfo\<close>.
  The interface \<open>kv.KV\<close> is the locale \<open>kv_store\<close>; every implementation is an interpretation.
\<close>

section \<open>Values\<close>

datatype any =
  ANil
| ABool bool
| ANum int
| AStr string
| AMap "(string \<times> any) list"
| ASlice "any list"
| AOutputInfo OutputInfo
  and OutputInfo = OutputInfo (oi_Internal: bool) (oi_Conditioned: bool) (oi_GVK: "gvk option") (oi_Data: any)

text \<open>The deep copy of maps and slices (kv.go, \<open>copy\<close>).\<close>

fun copy :: "any \<Rightarrow> any" where
  "copy (AMap m) = AMap (map (\<lambda>(k, v). (k, copy v)) m)"
| "copy (ASlice xs) = ASlice (map copy xs)"
| "copy v = v"

lemma copy_id [simp]: "copy v = v"
proof (induction v rule: copy.induct)
  case (1 m)
  have "map (\<lambda>(k, v). (k, copy v)) m = m" by (rule map_idI) (use 1 in auto)
  then show ?case by simp
next
  case (2 xs)
  have "map copy xs = xs" by (rule map_idI) (use 2 in auto)
  then show ?case by simp
qed simp_all

section \<open>kv (pkg/ccutils/kv/kv.go)\<close>

record kv =
  kv_d :: "(string, any) gmap"

definition kv_New :: kv where
  "kv_New = \<lparr>kv_d = []\<rparr>"

definition kv_AddEntry :: "string \<Rightarrow> any \<Rightarrow> kv \<Rightarrow> kv" where
  "kv_AddEntry k v r = r\<lparr>kv_d := gput k v (kv_d r)\<rparr>"

definition kv_Get :: "kv \<Rightarrow> (string, any) gmap" where
  "kv_Get r = map (\<lambda>(k, v). (k, copy v)) (kv_d r)"

definition kv_Add :: "kv \<Rightarrow> kv \<Rightarrow> kv" where
  "kv_Add ob r = fold (\<lambda>(k, v) r. r\<lparr>kv_d := gput k v (kv_d r)\<rparr>) (kv_Get ob) r"

definition kv_GetValue :: "kv \<Rightarrow> string \<Rightarrow> any" where
  "kv_GetValue r k = (case gget (kv_d r) k of None \<Rightarrow> ANil | Some v \<Rightarrow> v)"

definition kv_Length :: "kv \<Rightarrow> nat" where
  "kv_Length r = length (kv_d r)"

section \<open>The interface\<close>

text \<open>What a client of a store relies on: the store is a finite map from keys to values, an
  absent key reads as the zero value, \<open>Add\<close> copies every entry of another store over the own
  ones.\<close>

locale kv_store =
  fixes new :: 's
    and addEntry :: "'k \<Rightarrow> 'v \<Rightarrow> 's \<Rightarrow> 's"
    and add :: "'s \<Rightarrow> 's \<Rightarrow> 's"
    and get :: "'s \<Rightarrow> ('k, 'v) gmap"
    and getValue :: "'s \<Rightarrow> 'k \<Rightarrow> 'v"
    and len :: "'s \<Rightarrow> nat"
    and zero :: 'v
  assumes get_new: "get new = []"
    and get_addEntry: "get (addEntry k v s) = gput k v (get s)"
    and get_add: "get (add ob s) = fold (\<lambda>(k, v). gput k v) (get ob) (get s)"
    and getValue: "getValue s k = (case gget (get s) k of None \<Rightarrow> zero | Some v \<Rightarrow> v)"
    and len: "len s = length (get s)"
begin

lemma getValue_new: "getValue new k = zero"
  by (simp add: getValue get_new)

lemma getValue_addEntry: "getValue (addEntry k v s) k' = (if k' = k then v else getValue s k')"
  by (simp add: getValue get_addEntry)

lemma gwf_new: "gwf (get new)"
  by (simp add: get_new)

lemma gwf_addEntry: "gwf (get s) \<Longrightarrow> gwf (get (addEntry k v s))"
  by (simp add: get_addEntry)

lemma gwf_fold: "gwf n \<Longrightarrow> gwf (fold (\<lambda>(k, v). gput k v) m n)"
proof (induction m arbitrary: n)
  case (Cons e m)
  have "gwf (gput (fst e) (snd e) n)" using Cons.prems by (rule gwf_gput)
  then have "gwf (fold (\<lambda>(k, v). gput k v) m (gput (fst e) (snd e) n))" by (rule Cons.IH)
  then show ?case by (simp add: split_def)
qed simp

lemma gget_add: "gwf (get ob) \<Longrightarrow> gget (get (add ob s)) = gget (get s) ++ gget (get ob)"
  unfolding get_add by (rule gget_fold_gput)

lemma gwf_add: "gwf (get s) \<Longrightarrow> gwf (get (add ob s))"
  unfolding get_add by (rule gwf_fold)

lemma getValue_add:
  "gwf (get ob) \<Longrightarrow> getValue (add ob s) k =
     (if k \<in> set (gkeys (get ob)) then getValue ob k else getValue s k)"
  using gget_Some_key [of "get ob" k] gget_None_iff [of "get ob" k]
  by (auto simp: getValue gget_add map_add_def split: option.splits)

text \<open>A store has as many entries as keys.\<close>

lemma len_keys: "gwf (get s) \<Longrightarrow> len s = card (set (gkeys (get s)))"
  unfolding len by (metis distinct_card length_map)

lemma len_addEntry:
  "len (addEntry k v s) = (if k \<in> set (gkeys (get s)) then len s else Suc (len s))"
  by (simp add: len get_addEntry length_gput)

text \<open>A store built entry by entry from a list with distinct keys holds just that list.\<close>

lemma get_entries:
  assumes "gwf m"
  shows "gget (get (fold (\<lambda>(k, v). addEntry k v) m new)) = gget m"
proof -
  have "get (fold (\<lambda>(k, v). addEntry k v) m s) = fold (\<lambda>(k, v). gput k v) m (get s)" for s
    by (induction m arbitrary: s) (auto simp: get_addEntry)
  then show ?thesis using gget_fold_gput [OF assms, of "[]"] by (simp add: get_new)
qed

end

text \<open>The loop of every \<open>Add\<close>.\<close>

lemma kv_d_fold:
  "kv_d (fold (\<lambda>(k, v) r. r\<lparr>kv_d := gput k v (kv_d r)\<rparr>) m r) = fold (\<lambda>(k, v). gput k v) m (kv_d r)"
  by (induction m arbitrary: r) auto

lemma kv_Get_d: "kv_Get r = kv_d r"
  by (simp add: kv_Get_def)

interpretation kvs: kv_store kv_New kv_AddEntry kv_Add kv_Get kv_GetValue kv_Length ANil
  by unfold_locales
    (simp_all add: kv_New_def kv_AddEntry_def kv_Add_def kv_Get_d kv_GetValue_def kv_Length_def kv_d_fold)

section \<open>Input (pkg/exec/input/input.go) and output (pkg/exec/output/output.go)\<close>

record input =
  in_kv :: kv

definition input_New :: input where
  "input_New = \<lparr>in_kv = kv_New\<rparr>"

definition input_AddEntry :: "string \<Rightarrow> any \<Rightarrow> input \<Rightarrow> input" where
  "input_AddEntry k v r = r\<lparr>in_kv := kv_AddEntry k v (in_kv r)\<rparr>"

definition input_Add :: "input \<Rightarrow> input \<Rightarrow> input" where
  "input_Add ob r = r\<lparr>in_kv := kv_Add (in_kv ob) (in_kv r)\<rparr>"

definition input_Get :: "input \<Rightarrow> (string, any) gmap" where
  "input_Get r = kv_Get (in_kv r)"

definition input_GetValue :: "input \<Rightarrow> string \<Rightarrow> any" where
  "input_GetValue r k = kv_GetValue (in_kv r) k"

definition input_Length :: "input \<Rightarrow> nat" where
  "input_Length r = kv_Length (in_kv r)"

interpretation ins: kv_store input_New input_AddEntry input_Add input_Get input_GetValue input_Length ANil
  by unfold_locales
    (simp_all add: input_New_def input_AddEntry_def input_Add_def input_Get_def input_GetValue_def
      input_Length_def kvs.get_new kvs.get_addEntry kvs.get_add kvs.getValue kvs.len)

record out_store =
  o_kv :: kv

definition output_New :: out_store where
  "output_New = \<lparr>o_kv = kv_New\<rparr>"

definition output_AddEntry :: "string \<Rightarrow> any \<Rightarrow> out_store \<Rightarrow> out_store" where
  "output_AddEntry k v r = r\<lparr>o_kv := kv_AddEntry k v (o_kv r)\<rparr>"

text \<open>\<open>Add\<close> of a nil store is skipped.\<close>

definition output_Add :: "out_store option \<Rightarrow> out_store \<Rightarrow> out_store" where
  "output_Add ob r = (case ob of None \<Rightarrow> r | Some ob \<Rightarrow> r\<lparr>o_kv := kv_Add (o_kv ob) (o_kv r)\<rparr>)"

definition output_Get :: "out_store \<Rightarrow> (string, any) gmap" where
  "output_Get r = kv_Get (o_kv r)"

definition output_GetValue :: "out_store \<Rightarrow> string \<Rightarrow> any" where
  "output_GetValue r k = kv_GetValue (o_kv r) k"

definition output_Length :: "out_store \<Rightarrow> nat" where
  "output_Length r = kv_Length (o_kv r)"

fun infoOf :: "any \<Rightarrow> OutputInfo option" where
  "infoOf (AOutputInfo oi) = Some oi"
| "infoOf _ = None"

definition GetData :: "out_store \<Rightarrow> string \<Rightarrow> any" where
  "GetData r k = (case infoOf (output_GetValue r k) of None \<Rightarrow> ANil | Some oi \<Rightarrow> oi_Data oi)"

fun slice_elems :: "any \<Rightarrow> any list" where
  "slice_elems (ASlice xs) = xs"
| "slice_elems _ = []"

definition GetFinalOutput :: "out_store \<Rightarrow> any list" where
  "GetFinalOutput r =
     fold (\<lambda>(_, v) fo.
             case infoOf v of
               None \<Rightarrow> fo
             | Some oi \<Rightarrow> if \<not> oi_Internal oi then fo @ slice_elems (oi_Data oi) else fo)
       (output_Get r) []"

definition GetConditionedOutput :: "out_store \<Rightarrow> (string, any) gmap" where
  "GetConditionedOutput r =
     fold (\<lambda>(k, v) co.
             case infoOf v of
               None \<Rightarrow> co
             | Some oi \<Rightarrow> if oi_Conditioned oi then gput k v co else co)
       (output_Get r) []"

interpretation outs: kv_store output_New output_AddEntry "\<lambda>ob. output_Add (Some ob)" output_Get
  output_GetValue output_Length ANil
  by unfold_locales
    (simp_all add: output_New_def output_AddEntry_def output_Add_def output_Get_def output_GetValue_def
      output_Length_def kvs.get_new kvs.get_addEntry kvs.get_add kvs.getValue kvs.len)

section \<open>Services (pkg/exec/service/service.go)\<close>

record ServiceCtx =
  sc_Port :: int
  sc_Fn :: Function

record services =
  svc_d :: "(gvk, ServiceCtx) gmap"

definition ServiceCtx0 :: ServiceCtx where
  "ServiceCtx0 = \<lparr>sc_Port = 0, sc_Fn = Function0\<rparr>"

definition service_New :: services where
  "service_New = \<lparr>svc_d = []\<rparr>"

definition service_AddEntry :: "gvk \<Rightarrow> ServiceCtx \<Rightarrow> services \<Rightarrow> services" where
  "service_AddEntry k v r = r\<lparr>svc_d := gput k v (svc_d r)\<rparr>"

definition service_Get :: "services \<Rightarrow> (gvk, ServiceCtx) gmap" where
  "service_Get r = map (\<lambda>(k, v). (k, v)) (svc_d r)"

definition service_Add :: "services \<Rightarrow> services \<Rightarrow> services" where
  "service_Add ob r = fold (\<lambda>(k, v) r. r\<lparr>svc_d := gput k v (svc_d r)\<rparr>) (service_Get ob) r"

definition service_GetValue :: "services \<Rightarrow> gvk \<Rightarrow> ServiceCtx" where
  "service_GetValue r k = (case gget (svc_d r) k of None \<Rightarrow> ServiceCtx0 | Some v \<Rightarrow> v)"

definition service_Length :: "services \<Rightarrow> nat" where
  "service_Length r = length (svc_d r)"

lemma svc_d_fold:
  "svc_d (fold (\<lambda>(k, v) r. r\<lparr>svc_d := gput k v (svc_d r)\<rparr>) m r) = fold (\<lambda>(k, v). gput k v) m (svc_d r)"
  by (induction m arbitrary: r) auto

interpretation svcs: kv_store service_New service_AddEntry service_Add service_Get service_GetValue
  service_Length ServiceCtx0
  by unfold_locales
    (simp_all add: service_New_def service_AddEntry_def service_Add_def service_Get_def
      service_GetValue_def service_Length_def svc_d_fold)

section \<open>Results (pkg/ccutils/slice/slice.go)\<close>

record 'a slice =
  sl_d :: "'a list"

definition slice_New :: "'a slice" where
  "slice_New = \<lparr>sl_d = []\<rparr>"

definition slice_Add :: "'a \<Rightarrow> 'a slice \<Rightarrow> 'a slice" where
  "slice_Add v r = r\<lparr>sl_d := sl_d r @ [v]\<rparr>"

definition slice_Get :: "'a slice \<Rightarrow> 'a list" where
  "slice_Get r = sl_d r"

definition slice_Length :: "'a slice \<Rightarrow> nat" where
  "slice_Length r = length (sl_d r)"

section \<open>Properties\<close>

text \<open>The loops of the two filters of an output store as list functions.\<close>

lemma GetFinalOutput_concat:
  "GetFinalOutput r = concat (map (\<lambda>(_, v). case infoOf v of
       None \<Rightarrow> [] | Some oi \<Rightarrow> if oi_Internal oi then [] else slice_elems (oi_Data oi)) (output_Get r))"
proof -
  let ?f = "\<lambda>(_ :: string, v) fo. case infoOf v of
      None \<Rightarrow> fo | Some oi \<Rightarrow> if \<not> oi_Internal oi then fo @ slice_elems (oi_Data oi) else fo"
  let ?g = "\<lambda>(_ :: string, v). case infoOf v of
      None \<Rightarrow> [] | Some oi \<Rightarrow> if oi_Internal oi then [] else slice_elems (oi_Data oi)"
  have "fold ?f m acc = acc @ concat (map ?g m)" for m acc
    by (induction m arbitrary: acc) (auto split: option.splits)
  then show ?thesis by (simp add: GetFinalOutput_def)
qed

lemma gget_GetConditionedOutput:
  assumes "gwf (output_Get r)"
  shows "gget (GetConditionedOutput r) k =
    (case gget (output_Get r) k of
       Some (AOutputInfo oi) \<Rightarrow> if oi_Conditioned oi then Some (AOutputInfo oi) else None
     | _ \<Rightarrow> None)"
proof -
  let ?f = "\<lambda>(k :: string, v) co. case infoOf v of
      None \<Rightarrow> co | Some oi \<Rightarrow> if oi_Conditioned oi then gput k v co else co"
  let ?p = "\<lambda>v. case v of AOutputInfo oi \<Rightarrow> if oi_Conditioned oi then Some (AOutputInfo oi) else None
    | _ \<Rightarrow> None"
  have "gwf m \<Longrightarrow> gget (fold ?f m co) k =
      (case gget m k of None \<Rightarrow> gget co k | Some v \<Rightarrow> (case ?p v of None \<Rightarrow> gget co k | Some w \<Rightarrow> Some w))"
    for m co
  proof (induction m arbitrary: co)
    case (Cons e m)
    obtain x v where e: "e = (x, v)" by (cases e)
    have "gget m x = None" using Cons.prems e by (simp add: gget_None_iff)
    then show ?case using Cons e by (cases v) (auto split: option.splits)
  qed simp
  from this [OF assms, of "[]"] show ?thesis
    unfolding GetConditionedOutput_def by (simp split: option.splits any.splits)
qed

text \<open>The final output of a store is the concatenation, in the order of its entries, of the
  slices held by the entries that are not internal: nothing internal, nothing that is not a slice.\<close>

lemma GetFinalOutput_members:
  assumes "gwf (output_Get r)"
  shows "x \<in> set (GetFinalOutput r) \<longleftrightarrow>
    (\<exists>k c g xs. gget (output_Get r) k = Some (AOutputInfo (OutputInfo False c g (ASlice xs))) \<and> x \<in> set xs)"
proof -
  let ?g = "\<lambda>v. case infoOf v of
      None \<Rightarrow> [] | Some oi \<Rightarrow> if oi_Internal oi then [] else slice_elems (oi_Data oi)"
  have v: "x \<in> set (?g v) \<longleftrightarrow>
      (\<exists>c g xs. v = AOutputInfo (OutputInfo False c g (ASlice xs)) \<and> x \<in> set xs)" for v
  proof (cases v)
    case (AOutputInfo oi)
    then show ?thesis by (cases oi; cases "oi_Data oi") auto
  qed simp_all
  have "x \<in> set (GetFinalOutput r) \<longleftrightarrow> (\<exists>e \<in> set (output_Get r). x \<in> set (?g (snd e)))"
    by (simp add: GetFinalOutput_concat split_def)
  then show ?thesis unfolding v gget_in_set [OF assms] by fastforce
qed

text \<open>A store with an internal and an external entry.\<close>

definition sample_store :: out_store where
  "sample_store = output_AddEntry ''b'' (AOutputInfo (OutputInfo False True None (ASlice [ANum 2])))
     (output_AddEntry ''a'' (AOutputInfo (OutputInfo True False None (ASlice [ANum 1]))) output_New)"

theorem GetFinalOutput_members_witness:
  "ANum 2 \<in> set (GetFinalOutput sample_store)"
proof -
  have g: "output_Get sample_store = [(''a'', AOutputInfo (OutputInfo True False None (ASlice [ANum 1]))),
      (''b'', AOutputInfo (OutputInfo False True None (ASlice [ANum 2])))]"
    by (simp add: sample_store_def outs.get_addEntry outs.get_new)
  show ?thesis by (subst GetFinalOutput_members) (auto simp: g)
qed

end
