(* ===== verification/Exec_Context.thy ===== *)
theory Exec_Context
  imports Walker Dag Stores
begin

text \<open>
  What the parser builds: the graphs of runtime vertices (pkg/exec/rtdag/rtdag.go), the graphs of
  variables (pkg/ccsyntax/vardag/vardag.go, global\_variable.go) and the execution context that
  holds a graph per resource and operation (config\_execution\_context.go).

  The code shares graphs by pointer: a block graph hangs both in \<open>BlockDAGs\<close> and in the
  \<open>BlockDAG\<close> of a vertex.  Here the graphs live in the execution context, which is the store,
  a pointer to one (\<open>dagptr\<close>) says where, and the \<open>BlockDAG\<close> of a vertex is the name of the block
  it points to.  A nil pointer is \<open>None\<close>.
\<close>

section \<open>Runtime graphs (rtdag.go)\<close>

datatype VertexKind = RootVertexKind | FunctionVertexKind

record VertexContext =
  vc_VertexName :: string
  vc_Kind :: VertexKind
  vc_BlockDAG :: "string option"
  vc_Function :: Function
  vc_References :: "string list"
  vc_Outputs :: out_store
  vc_GVKToVarName :: "(string, string) gmap"

type_synonym rtdag = "VertexContext dag"

definition AddReference :: "string \<Rightarrow> VertexContext \<Rightarrow> VertexContext" where
  "AddReference s r =
     (let found = fold (\<lambda>ref found. if ref = s then True else found) (vc_References r) False
      in if \<not> found then r\<lparr>vc_References := vc_References r @ [s]\<rparr> else r)"

definition GetRootVertex :: "rtdag \<Rightarrow> string" where
  "GetRootVertex r =
     (case filter (\<lambda>(_, vc). vc_Kind vc = RootVertexKind) (GetVertices r) of
        [] \<Rightarrow> ''''
      | (vertexName, _) # _ \<Rightarrow> vertexName)"

lemma AddReference_set: "set (vc_References (AddReference s r)) = insert s (set (vc_References r))"
proof -
  have "fold (\<lambda>ref found. if ref = s then True else found) xs b \<longleftrightarrow> b \<or> s \<in> set xs" for xs b
    by (induction xs arbitrary: b) auto
  then show ?thesis by (auto simp: AddReference_def Let_def)
qed

lemma AddReference_distinct: "distinct (vc_References r) \<Longrightarrow> distinct (vc_References (AddReference s r))"
proof -
  have "fold (\<lambda>ref found. if ref = s then True else found) xs b \<longleftrightarrow> b \<or> s \<in> set xs" for xs b
    by (induction xs arbitrary: b) auto
  then show "distinct (vc_References r) \<Longrightarrow> distinct (vc_References (AddReference s r))"
    by (auto simp: AddReference_def Let_def)
qed

section \<open>Variables (vardag.go, global\_variable.go)\<close>

record VariableContext =
  var_VertexName :: string
  var_OutputVertex :: string
  var_BlockIndex :: int
  var_BlockVertexName :: string

type_synonym vardag = "VariableContext dag"

definition AddVariable :: "string \<Rightarrow> VariableContext \<Rightarrow> vardag \<Rightarrow> goerr \<times> vardag" where
  "AddVariable s v r = AddVertex s v r"

definition VarExists :: "vardag \<Rightarrow> string \<Rightarrow> bool" where
  "VarExists r s = VertexExists r s"

definition GetVarInfo :: "vardag \<Rightarrow> string \<Rightarrow> VariableContext option" where
  "GetVarInfo r s = GetVertex r s"

type_synonym FOWEntry = "FOWS \<times> string"

record GlobalVariable =
  gv_name :: string
  gv_o :: "(FOWEntry, vardag) gmap"

definition NewGlobalVariable :: "string \<Rightarrow> GlobalVariable" where
  "NewGlobalVariable n = \<lparr>gv_name = n, gv_o = []\<rparr>"

definition gvarAdd :: "FOWEntry \<Rightarrow> GlobalVariable \<Rightarrow> GlobalVariable" where
  "gvarAdd fe r =
     (case gget (gv_o r) fe of
        Some _ \<Rightarrow> r
      | None \<Rightarrow> r\<lparr>gv_o := gput fe New (gv_o r)\<rparr>)"

definition gvarGetDAG :: "GlobalVariable \<Rightarrow> FOWEntry \<Rightarrow> vardag option" where
  "gvarGetDAG r fe = gget (gv_o r) fe"

text \<open>\<open>r.gvar.GetDAG(fe).AddVariable(s, v)\<close>: a call on a nil interface panics.\<close>

definition gvarAddVariable ::
  "FOWEntry \<Rightarrow> string \<Rightarrow> VariableContext \<Rightarrow> GlobalVariable \<Rightarrow> (goerr \<times> GlobalVariable) go" where
  "gvarAddVariable fe s v r =
     (case gvarGetDAG r fe of
        None \<Rightarrow> None
      | Some d \<Rightarrow> (case AddVariable s v d of
          (err, d') \<Rightarrow> Some (err, r\<lparr>gv_o := gput fe d' (gv_o r)\<rparr>)))"

section \<open>The execution context (config\_execution\_context.go)\<close>

record RTDAGCtx =
  DAG :: rtdag
  RootVertexName :: string
  BlockDAGs :: "(string, rtdag) gmap"

type_synonym OperationCtx = "(Operation, RTDAGCtx) gmap"

record cfgExecContext =
  cec_name :: string
  cec_For :: "(gvk, OperationCtx) gmap"
  cec_own :: "(gvk, OperationCtx) gmap"
  cec_watch :: "(gvk, OperationCtx) gmap"
  cec_serviceIdx :: int
  cec_services :: "(gvk, ServiceCtx) gmap"

definition NewConfigExecutionContext :: "string \<Rightarrow> cfgExecContext" where
  "NewConfigExecutionContext n =
     \<lparr>cec_name = n, cec_For = [], cec_own = [], cec_watch = [], cec_serviceIdx = 0, cec_services = []\<rparr>"

definition newRTDAGCtx :: "string \<Rightarrow> RTDAGCtx" where
  "newRTDAGCtx vertexName = \<lparr>DAG = New, RootVertexName = vertexName, BlockDAGs = []\<rparr>"

text \<open>\<open>*oc.GVK\<close> panics on nil; the service case returns the error before.\<close>

definition Add :: "OriginContext \<Rightarrow> cfgExecContext \<Rightarrow> (goerr \<times> cfgExecContext) go" where
  "Add oc r =
     (case oc_FOWS oc of
        FOWFor \<Rightarrow> do {
          gvk \<leftarrow> oc_GVK oc;
          Some (None, r\<lparr>cec_For := gput gvk
            [(OperationApply, newRTDAGCtx (oc_VertexName oc)),
             (OperationDelete, newRTDAGCtx (oc_VertexName oc))] (cec_For r)\<rparr>) }
      | FOWOwn \<Rightarrow> do {
          gvk \<leftarrow> oc_GVK oc;
          Some (None, r\<lparr>cec_own := gput gvk [] (cec_own r)\<rparr>) }
      | FOWWatch \<Rightarrow> do {
          gvk \<leftarrow> oc_GVK oc;
          Some (None, r\<lparr>cec_watch := gput gvk
            [(OperationApply, newRTDAGCtx (oc_VertexName oc))] (cec_watch r)\<rparr>) }
      | FOWService \<Rightarrow> Some (Some ''unexpected FOW, got: service'', r))"

definition fowMap :: "FOWS \<Rightarrow> cfgExecContext \<Rightarrow> (gvk, OperationCtx) gmap" where
  "fowMap fow r = (case fow of FOWFor \<Rightarrow> cec_For r | FOWOwn \<Rightarrow> cec_own r | FOWWatch \<Rightarrow> cec_watch r
     | FOWService \<Rightarrow> [])"

definition GetDAGCtx ::
  "FOWS \<Rightarrow> gvk option \<Rightarrow> Operation \<Rightarrow> cfgExecContext \<Rightarrow> RTDAGCtx option go" where
  "GetDAGCtx fow gvk op r =
     (if fow = FOWService then Some None
      else do {
        gvk \<leftarrow> gvk;
        Some (case gget (fowMap fow r) gvk of
                None \<Rightarrow> None
              | Some od \<Rightarrow> gget od op) })"

text \<open>The graph context a pointer returned by \<open>GetDAGCtx\<close> gives write access to.\<close>

definition putDAGCtx ::
  "FOWS \<Rightarrow> gvk \<Rightarrow> Operation \<Rightarrow> RTDAGCtx \<Rightarrow> cfgExecContext \<Rightarrow> cfgExecContext" where
  "putDAGCtx fow gvk op d r =
     (let m = fowMap fow r;
          m' = gput gvk (gput op d (case gget m gvk of None \<Rightarrow> [] | Some od \<Rightarrow> od)) m
      in case fow of
           FOWFor \<Rightarrow> r\<lparr>cec_For := m'\<rparr>
         | FOWOwn \<Rightarrow> r\<lparr>cec_own := m'\<rparr>
         | FOWWatch \<Rightarrow> r\<lparr>cec_watch := m'\<rparr>
         | FOWService \<Rightarrow> r)"

definition AddBlock :: "OriginContext \<Rightarrow> cfgExecContext \<Rightarrow> (goerr \<times> cfgExecContext) go" where
  "AddBlock oc r = do {
     dctx \<leftarrow> GetDAGCtx (oc_FOWS oc) (oc_GVK oc) (oc_Operation oc) r;
     (case dctx of
        None \<Rightarrow> Some (Some ''dag context not found'', r)
      | Some d \<Rightarrow> do {
          gvk \<leftarrow> oc_GVK oc;
          Some (None, putDAGCtx (oc_FOWS oc) gvk (oc_Operation oc)
            (d\<lparr>BlockDAGs := gput (oc_VertexName oc) New (BlockDAGs d)\<rparr>) r) }) }"

text \<open>A pointer to a graph: the main graph of a context, or one of its blocks.\<close>

datatype dagptr = DagPtr FOWS gvk Operation "string option"

definition GetDAG :: "OriginContext \<Rightarrow> cfgExecContext \<Rightarrow> dagptr option go" where
  "GetDAG oc r = do {
     dctx \<leftarrow> GetDAGCtx (oc_FOWS oc) (oc_GVK oc) (oc_Operation oc) r;
     (case dctx of
        None \<Rightarrow> Some None
      | Some d \<Rightarrow> do {
          gvk \<leftarrow> oc_GVK oc;
          Some (if oc_BlockIndex oc = 0 \<and> oc_BlockVertexName oc = ''''
                then Some (DagPtr (oc_FOWS oc) gvk (oc_Operation oc) None)
                else if gget (BlockDAGs d) (oc_BlockVertexName oc) = None then None
                else Some (DagPtr (oc_FOWS oc) gvk (oc_Operation oc) (Some (oc_BlockVertexName oc)))) }) }"

text \<open>Reading and writing through a pointer; \<open>None\<close> is a pointer to nothing.\<close>

fun load :: "dagptr \<Rightarrow> cfgExecContext \<Rightarrow> rtdag option" where
  "load (DagPtr fow gvk op block) r = do {
     od \<leftarrow> gget (fowMap fow r) gvk;
     d \<leftarrow> gget od op;
     (case block of None \<Rightarrow> Some (DAG d) | Some b \<Rightarrow> gget (BlockDAGs d) b) }"

fun store :: "dagptr \<Rightarrow> rtdag \<Rightarrow> cfgExecContext \<Rightarrow> cfgExecContext" where
  "store (DagPtr fow gvk op block) g r =
     (case gget (fowMap fow r) gvk of
        None \<Rightarrow> r
      | Some od \<Rightarrow>
          (case gget od op of
             None \<Rightarrow> r
           | Some d \<Rightarrow> putDAGCtx fow gvk op
               (case block of
                  None \<Rightarrow> d\<lparr>DAG := g\<rparr>
                | Some b \<Rightarrow> d\<lparr>BlockDAGs := gput b g (BlockDAGs d)\<rparr>) r))"

text \<open>\<open>p.AddVertex(s, v)\<close> and \<open>p.Connect(from, to)\<close>: a nil interface panics.\<close>

definition ptrAddVertex ::
  "dagptr option \<Rightarrow> string \<Rightarrow> VertexContext \<Rightarrow> cfgExecContext \<Rightarrow> (goerr \<times> cfgExecContext) go" where
  "ptrAddVertex p s v r = do {
     p \<leftarrow> p;
     d \<leftarrow> load p r;
     (let (err, d') = AddVertex s v d in Some (err, store p d' r)) }"

definition ptrConnect ::
  "dagptr option \<Rightarrow> string \<Rightarrow> string \<Rightarrow> cfgExecContext \<Rightarrow> cfgExecContext go" where
  "ptrConnect p from to r = do {
     p \<leftarrow> p;
     d \<leftarrow> load p r;
     Some (store p (Connect from to d) r) }"

definition GetFOW :: "FOWS \<Rightarrow> cfgExecContext \<Rightarrow> (gvk, OperationCtx) gmap" where
  "GetFOW fow r = map (\<lambda>(gvk, od). (gvk, map (\<lambda>(op, d). (op, d)) od)) (fowMap fow r)"

definition GetForGVK :: "cfgExecContext \<Rightarrow> gvk" where
  "GetForGVK r =
     (case cec_For r of
        (gvk, _) # _ \<Rightarrow> gvk
      | [] \<Rightarrow> \<lparr>gvk_Group = '''', gvk_Version = '''', gvk_Kind = ''''\<rparr>)"

definition AddService :: "gvk option \<Rightarrow> Function \<Rightarrow> cfgExecContext \<Rightarrow> (goerr \<times> cfgExecContext) go" where
  "AddService gvk fn r = do {
     gvk \<leftarrow> gvk;
     Some (case gget (cec_services r) gvk of
             Some _ \<Rightarrow> (Some ''duplicate gvk service entry'', r)
           | None \<Rightarrow> (None, r\<lparr>cec_services := gput gvk
                 \<lparr>sc_Port = 9000 + cec_serviceIdx r, sc_Fn = fn\<rparr> (cec_services r),
               cec_serviceIdx := cec_serviceIdx r + 1\<rparr>)) }"

definition cecGetServices :: "cfgExecContext \<Rightarrow> services" where
  "cecGetServices r =
     fold (\<lambda>(gvk, svcCtx). service_AddEntry gvk \<lparr>sc_Port = sc_Port svcCtx, sc_Fn = sc_Fn svcCtx\<rparr>)
       (cec_services r) service_New"

section \<open>Reading back what was written\<close>

lemma gget_fowMap_put [simp]:
  "fow \<noteq> FOWService \<Longrightarrow> gget (fowMap fow (putDAGCtx fow gvk op d r)) g =
     (if g = gvk then Some (gput op d (case gget (fowMap fow r) gvk of None \<Rightarrow> [] | Some od \<Rightarrow> od))
      else gget (fowMap fow r) g)"
  by (cases fow) (simp_all add: putDAGCtx_def Let_def fowMap_def)

lemma fowMap_put_other [simp]:
  "fow' \<noteq> fow \<Longrightarrow> fowMap fow' (putDAGCtx fow gvk op d r) = fowMap fow' r"
  by (cases fow; cases fow') (simp_all add: putDAGCtx_def Let_def fowMap_def)

lemma load_fow: "load (DagPtr FOWService g op b) r = None"
  by (simp add: fowMap_def)

lemma load_store:
  assumes "load p r \<noteq> None"
  shows "load q (store p g r) = (if q = p then Some g else load q r)"
proof (cases p; cases q)
  fix fow gvk op b fow' gvk' op' b'
  assume p: "p = DagPtr fow gvk op b" and q: "q = DagPtr fow' gvk' op' b'"
  have fow: "fow \<noteq> FOWService" using assms load_fow p by auto
  obtain od d where od: "gget (fowMap fow r) gvk = Some od" "gget od op = Some d"
    using assms by (auto simp: p bind_eq_None_conv)
  show ?thesis
  proof (cases "fow' = fow \<and> gvk' = gvk \<and> op' = op")
    case True
    then show ?thesis using fow od by (cases b; cases b') (auto simp: p q)
  next
    case False
    then show ?thesis
    proof (cases "fow' = fow")
      case True
      then show ?thesis using False fow od by (auto simp: p q split: option.splits)
    next
      case fow': False
      then show ?thesis using od by (auto simp: p q split: option.splits)
    qed
  qed
qed

lemma store_services [simp]:
  "cec_services (store p g r) = cec_services r" "cec_serviceIdx (store p g r) = cec_serviceIdx r"
  by (cases p; simp add: putDAGCtx_def Let_def split: option.splits FOWS.splits)+

section \<open>Services\<close>

text \<open>The services registered so far, in the order of their registration.\<close>

definition services_ok :: "cfgExecContext \<Rightarrow> bool" where
  "services_ok r \<longleftrightarrow> gwf (cec_services r) \<and> cec_serviceIdx r = int (length (cec_services r)) \<and>
     map (\<lambda>(_, s). sc_Port s) (cec_services r) = map (\<lambda>n. 9000 + int n) [0..<length (cec_services r)]"

lemma services_ok_New: "services_ok (NewConfigExecutionContext n)"
  by (simp add: services_ok_def NewConfigExecutionContext_def)

lemma services_ok_AddService:
  assumes "AddService gvk fn r = Some (err, r')" and "services_ok r"
  shows "services_ok r'"
proof -
  obtain g where g: "gvk = Some g" using assms(1) by (auto simp: AddService_def bind_eq_Some_conv)
  show ?thesis
  proof (cases "gget (cec_services r) g")
    case None
    then have "g \<notin> set (gkeys (cec_services r))" by (simp add: gget_None_iff)
    then show ?thesis using assms None by (auto simp: AddService_def g services_ok_def gput_fresh)
  next
    case (Some s)
    then show ?thesis using assms by (auto simp: AddService_def g)
  qed
qed

text \<open>Whatever services are registered, in whatever order and with duplicates, the registered
  ones have the ports 9000, 9001, ... in the order of their registration, so no two services share
  a port; and the store handed to the runtime holds exactly them.\<close>

lemma AddService_ports:
  assumes "ofold (\<lambda>(gvk, fn) r. map_option snd (AddService gvk fn r)) calls
      (NewConfigExecutionContext n) = Some r"
  shows "map (\<lambda>(_, s). sc_Port s) (cec_services r) = map (\<lambda>n. 9000 + int n) [0..<length (cec_services r)] \<and>
    gget (service_Get (cecGetServices r)) = gget (cec_services r)"
proof
  have ok: "services_ok r"
    by (rule ofold_inv [where P = services_ok, OF assms services_ok_New])
      (auto split: prod.splits intro: services_ok_AddService)
  then show "map (\<lambda>(_, s). sc_Port s) (cec_services r) = map (\<lambda>n. 9000 + int n) [0..<length (cec_services r)]"
    by (simp add: services_ok_def)
  have rebuild: "\<lparr>sc_Port = sc_Port s, sc_Fn = sc_Fn s\<rparr> = s" for s :: ServiceCtx
    by (cases s) simp
  have "cecGetServices r = fold (\<lambda>(k, v). service_AddEntry k v) (cec_services r) service_New"
    unfolding cecGetServices_def by (rule fold_cong) (simp_all add: split_def rebuild)
  then show "gget (service_Get (cecGetServices r)) = gget (cec_services r)"
    using ok svcs.get_entries [of "cec_services r"] by (simp add: services_ok_def)
qed

text \<open>Two services, one of them registered twice.\<close>

definition sample_calls :: "(gvk option \<times> Function) list" where
  "sample_calls =
     [(Some \<lparr>gvk_Group = ''g'', gvk_Version = ''v1'', gvk_Kind = ''A''\<rparr>, Function0),
      (Some \<lparr>gvk_Group = ''g'', gvk_Version = ''v1'', gvk_Kind = ''A''\<rparr>, Function0),
      (Some \<lparr>gvk_Group = ''g'', gvk_Version = ''v1'', gvk_Kind = ''B''\<rparr>, Function0)]"

theorem AddService_ports_witness:
  "\<exists>r. ofold (\<lambda>(gvk, fn) r. map_option snd (AddService gvk fn r)) sample_calls
     (NewConfigExecutionContext ''c'') = Some r \<and> map (\<lambda>(_, s). sc_Port s) (cec_services r) = [9000, 9001]"
proof -
  have "\<exists>r. ofold (\<lambda>(gvk, fn) r. map_option snd (AddService gvk fn r)) sample_calls
     (NewConfigExecutionContext ''c'') = Some r \<and> length (cec_services r) = 2"
    by (simp add: sample_calls_def AddService_def NewConfigExecutionContext_def)
  then show ?thesis using AddService_ports [of sample_calls "''c''"]
    by (auto simp: upt_rec)
qed

end
