(* ===== verification/Parser.thy ===== *)
theory Parser
  imports Exec_Context Validator
begin

text \<open>
  The phases of pkg/ccsyntax/parser.go as walks over the configuration: \<open>init\<close> (parser\_init.go),
  \<open>populate\<close> (parser\_populate.go), \<open>resolve\<close> (parser\_resolver.go), \<open>connect\<close>
  (parser\_connector.go), the transitive reduction of every graph, and
  \<open>GetExternalResources\<close> (parser\_external\_resources.go).

  The phases share the state \<open>pstate\<close>: execution context, global variables and results.  A callback
  is \<open>None\<close> where the code panics: a nil group-version-kind, a call on a nil graph, a missing
  input, the first byte of an empty reference.
\<close>

record pstate =
  ps_cec :: cfgExecContext
  ps_gvar :: GlobalVariable
  ps_result :: "Result list"

abbreviation psRecord :: "OriginContext \<Rightarrow> goerr \<Rightarrow> pstate \<Rightarrow> pstate" where
  "psRecord oc err s \<equiv> s\<lparr>ps_result := recordErr oc err (ps_result s)\<rparr>"

text \<open>\<open>resolveBlock\<close> and \<open>connectBlock\<close> have the same body over a different function on strings:
  the range, then the condition, each followed by its own block when that is nested.\<close>

definition andThen :: "'a go \<Rightarrow> ('a \<Rightarrow> 'b go) \<Rightarrow> 'b go" where
  "andThen m f = Option.bind m f"

fun walkBlock :: "(string \<Rightarrow> 's \<Rightarrow> 's go) \<Rightarrow> Block \<Rightarrow> 's \<Rightarrow> 's go"
  and walkRange :: "(string \<Rightarrow> 's \<Rightarrow> 's go) \<Rightarrow> RangeValue option \<Rightarrow> 's \<Rightarrow> 's go"
  and walkCondition :: "(string \<Rightarrow> 's \<Rightarrow> 's go) \<Rightarrow> ConditionExpression option \<Rightarrow> 's \<Rightarrow> 's go" where
  "walkBlock f (Block r c) s = andThen (walkRange f r s) (\<lambda>s. walkCondition f c s)"
| "walkRange f None s = Some s"
| "walkRange f (Some (RangeValue x b)) s =
     andThen (f x s) (\<lambda>s. if nested b then walkBlock f b s else Some s)"
| "walkCondition f None s = Some s"
| "walkCondition f (Some (ConditionExpression e b)) s =
     andThen (f e s) (\<lambda>s. if nested b then walkBlock f b s else Some s)"

fun blockStrings :: "Block \<Rightarrow> string list"
  and rangeStrings :: "RangeValue option \<Rightarrow> string list"
  and conditionStrings :: "ConditionExpression option \<Rightarrow> string list" where
  "blockStrings (Block r c) = rangeStrings r @ conditionStrings c"
| "rangeStrings None = []"
| "rangeStrings (Some (RangeValue x b)) = x # blockStrings b"
| "conditionStrings None = []"
| "conditionStrings (Some (ConditionExpression e b)) = e # blockStrings b"

lemma blockStrings_flat: "\<not> nested b \<Longrightarrow> blockStrings b = []"
  by (cases b) (simp add: nested_def)

lemma walkBlock_strings:
  "walkBlock f b s = ofold f (blockStrings b) s"
  "walkRange f r s = ofold f (rangeStrings r) s"
  "walkCondition f c s = ofold f (conditionStrings c) s"
  by (induction f b s and f r s and f c s rule: walkBlock_walkRange_walkCondition.induct)
    (auto simp: andThen_def ofold_append blockStrings_flat intro!: Option.bind_cong)

section \<open>init (parser\_init.go)\<close>

definition initGvk :: "k8slib \<Rightarrow> OriginContext \<Rightarrow> GvkObject \<Rightarrow> pstate \<Rightarrow> (gvk option \<times> pstate) go" where
  "initGvk K oc v s =
     (let (gvk, err) = GetGVK K (go_Resource v);
          s = psRecord oc err s;
          oc = oc\<lparr>oc_GVK := gvk\<rparr>
      in do {
        s \<leftarrow> (if oc_FOWS oc = FOWFor \<or> oc_FOWS oc = FOWWatch
              then do {
                (err, cec) \<leftarrow> Add oc (ps_cec s);
                Some (psRecord oc err (s\<lparr>ps_cec := cec\<rparr>)) }
              else Some s);
        Some (gvk, s\<lparr>ps_gvar := gvarAdd (oc_FOWS oc, oc_VertexName oc) (ps_gvar s)\<rparr>) })"

definition initFunctionBlock :: "OriginContext \<Rightarrow> FunctionElement \<Rightarrow> pstate \<Rightarrow> pstate go" where
  "initFunctionBlock oc v s =
     (let s = (if oc_BlockIndex oc \<ge> 1
               then psRecord oc (Some ''a pipeline van only have 1function block'') s else s);
          s = (if \<not> HasBlock (fe_Function v)
               then psRecord oc (Some ''a function block must have a block'') s else s)
      in if HasBlock (fe_Function v)
         then do {
           (err, cec) \<leftarrow> AddBlock oc (ps_cec s);
           Some (psRecord oc err (s\<lparr>ps_cec := cec\<rparr>)) }
         else Some s)"

definition initWalk :: "k8slib \<Rightarrow> pstate ccWalkConfig" where
  "initWalk K = noCallbacks\<lparr>gvkObjectFn := Some (initGvk K), functionBlockFn := Some initFunctionBlock\<rparr>"

definition init :: "k8slib \<Rightarrow> ControllerConfig \<Rightarrow> (cfgExecContext \<times> GlobalVariable \<times> Result list) go" where
  "init K cCfg = do {
     i \<leftarrow> walkLcncConfig (initWalk K) cCfg
       \<lparr>ps_cec = NewConfigExecutionContext (cc_Name cCfg), ps_gvar = NewGlobalVariable (cc_Name cCfg),
        ps_result = []\<rparr>;
     Some (ps_cec i, ps_gvar i, ps_result i) }"

section \<open>populate (parser\_populate.go)\<close>

definition psAddVariable :: "OriginContext \<Rightarrow> string \<Rightarrow> pstate \<Rightarrow> pstate go" where
  "psAddVariable oc varName s = do {
     (err, gvar) \<leftarrow> gvarAddVariable (oc_FOWS oc, oc_RootVertexName oc) varName
       \<lparr>var_VertexName = '''', var_OutputVertex = oc_VertexName oc, var_BlockIndex = oc_BlockIndex oc,
        var_BlockVertexName = oc_BlockVertexName oc\<rparr> (ps_gvar s);
     Some (psRecord oc err (s\<lparr>ps_gvar := gvar\<rparr>)) }"

definition psAddVertex ::
  "OriginContext \<Rightarrow> dagptr option \<Rightarrow> VertexContext \<Rightarrow> pstate \<Rightarrow> pstate go" where
  "psAddVertex oc p vc s = do {
     (err, cec) \<leftarrow> ptrAddVertex p (oc_VertexName oc) vc (ps_cec s);
     Some (psRecord oc err (s\<lparr>ps_cec := cec\<rparr>)) }"

text \<open>\<open>r.cec.GetDAGCtx(oc.FOWS, oc.GVK, op).DAG\<close>: a field of a nil context panics.\<close>

definition ctxDAG :: "OriginContext \<Rightarrow> Operation \<Rightarrow> cfgExecContext \<Rightarrow> dagptr go" where
  "ctxDAG oc op r = do {
     dctx \<leftarrow> GetDAGCtx (oc_FOWS oc) (oc_GVK oc) op r;
     d \<leftarrow> dctx;
     gvk \<leftarrow> oc_GVK oc;
     Some (DagPtr (oc_FOWS oc) gvk op None) }"

definition rootVertex :: "OriginContext \<Rightarrow> GvkObject \<Rightarrow> out_store \<Rightarrow> VertexContext" where
  "rootVertex oc v outputs =
     \<lparr>vc_VertexName = oc_VertexName oc, vc_Kind = RootVertexKind, vc_BlockDAG = None,
      vc_Function = Function0\<lparr>fn_Type := RootType, fn_Input := Some (Input0\<lparr>in_Resource := go_Resource v\<rparr>)\<rparr>,
      vc_References = [], vc_Outputs = outputs, vc_GVKToVarName = []\<rparr>"

definition addGvk :: "k8slib \<Rightarrow> OriginContext \<Rightarrow> GvkObject \<Rightarrow> pstate \<Rightarrow> (gvk option \<times> pstate) go" where
  "addGvk K oc v s =
     (let (gvk, err) = GetGVK K (go_Resource v);
          s = psRecord oc err s;
          oc = oc\<lparr>oc_GVK := gvk\<rparr>;
          outputs = output_AddEntry (oc_VertexName oc) (AOutputInfo (OutputInfo True False gvk ANil)) output_New;
          s = s\<lparr>ps_gvar := gvarAdd (oc_FOWS oc, oc_RootVertexName oc) (ps_gvar s)\<rparr>
      in do {
        s \<leftarrow> psAddVariable oc (oc_VertexName oc) s;
        s \<leftarrow> (if oc_FOWS oc = FOWFor \<or> oc_FOWS oc = FOWWatch
              then do {
                p \<leftarrow> ctxDAG oc OperationApply (ps_cec s);
                psAddVertex oc (Some p) (rootVertex oc v outputs) s }
              else Some s);
        s \<leftarrow> (if oc_FOWS oc = FOWFor
              then do {
                p \<leftarrow> ctxDAG oc OperationDelete (ps_cec s);
                psAddVertex oc (Some p) (rootVertex oc v outputs) s }
              else Some s);
        Some (gvk, s) })"

text \<open>The loop over the outputs: it fills the output store and the names by group-version-kind.\<close>

definition addOutput ::
  "k8slib \<Rightarrow> OriginContext \<Rightarrow> string \<times> Output \<Rightarrow> out_store \<times> (string, string) gmap \<times> pstate
   \<Rightarrow> (out_store \<times> (string, string) gmap \<times> pstate) go" where
  "addOutput K oc e st =
     (case e of (varName, outputCfg) \<Rightarrow> case st of (outputs, gvkToVarName, s) \<Rightarrow>
        let (gvk, err) = GetGVK K (out_Resource outputCfg);
            s = psRecord oc err s;
            outputs = output_AddEntry varName
              (AOutputInfo (OutputInfo (out_Internal outputCfg) (out_Conditioned outputCfg) gvk ANil)) outputs;
            gvkToVarName = gput (GVKToString gvk) varName gvkToVarName
        in do {
          s \<leftarrow> psAddVariable oc varName s;
          Some (outputs, gvkToVarName, s) })"

text \<open>Without outputs the vertex name is the variable.\<close>

definition addDefaultOutput ::
  "k8slib \<Rightarrow> OriginContext \<Rightarrow> Function \<Rightarrow> out_store \<times> pstate \<Rightarrow> (out_store \<times> pstate) go" where
  "addDefaultOutput K oc v st =
     (case st of (outputs, s) \<Rightarrow> do {
        (outputs, s) \<leftarrow>
          (if fn_Type v = GoTemplateType then do {
             i \<leftarrow> fn_Input v;
             Some (if length (in_Resource i) \<noteq> 0
                   then (let (gvk, err) = GetGVK K (in_Resource i)
                         in (output_AddEntry (oc_VertexName oc)
                               (AOutputInfo (OutputInfo False False gvk ANil)) outputs, psRecord oc err s))
                   else (outputs, s)) }
           else Some
             (case fn_Input v of
                Some i \<Rightarrow>
                  if length (in_Resource i) \<noteq> 0
                  then (let (gvk, err) = GetGVK K (in_Resource i)
                        in (output_AddEntry (oc_VertexName oc)
                              (AOutputInfo (OutputInfo True False gvk ANil)) outputs, psRecord oc err s))
                  else (output_AddEntry (oc_VertexName oc)
                          (AOutputInfo (OutputInfo True False None ANil)) outputs, s)
              | None \<Rightarrow> (output_AddEntry (oc_VertexName oc)
                          (AOutputInfo (OutputInfo True False None ANil)) outputs, s)));
        s \<leftarrow> psAddVariable oc (oc_VertexName oc) s;
        Some (outputs, s) })"

definition functionVertex ::
  "OriginContext \<Rightarrow> string option \<Rightarrow> Function \<Rightarrow> out_store \<Rightarrow> (string, string) gmap \<Rightarrow> VertexContext" where
  "functionVertex oc blockDAG v outputs gvkToVarName =
     \<lparr>vc_VertexName = oc_VertexName oc, vc_Kind = FunctionVertexKind, vc_BlockDAG = blockDAG,
      vc_Function = v, vc_References = [], vc_Outputs = outputs, vc_GVKToVarName = gvkToVarName\<rparr>"

definition blockRootVertex ::
  "OriginContext \<Rightarrow> out_store \<Rightarrow> (string, string) gmap \<Rightarrow> VertexContext" where
  "blockRootVertex oc outputs gvkToVarName =
     \<lparr>vc_VertexName = oc_VertexName oc, vc_Kind = RootVertexKind, vc_BlockDAG = None,
      vc_Function = Function0\<lparr>fn_Type := RootType\<rparr>, vc_References = [], vc_Outputs = outputs,
      vc_GVKToVarName = gvkToVarName\<rparr>"

fun ptrBlock :: "dagptr option \<Rightarrow> string option" where
  "ptrBlock (Some (DagPtr fow gvk op block)) = block"
| "ptrBlock None = None"

text \<open>The second half of \<open>addFunction\<close>: a function goes to the graph of its context; a block goes
  both to the main graph, with a pointer to its own graph, and to its own graph, as the root.\<close>

definition placeFunction ::
  "OriginContext \<Rightarrow> Function \<Rightarrow> out_store \<Rightarrow> (string, string) gmap \<Rightarrow> pstate \<Rightarrow> pstate go" where
  "placeFunction oc v outputs gvkToVarName s =
     (if \<not> oc_Block oc then do {
        d \<leftarrow> GetDAG oc (ps_cec s);
        psAddVertex oc d (functionVertex oc None v outputs gvkToVarName) s }
      else do {
        rootDAG \<leftarrow> GetDAG oc (ps_cec s);
        let oc = (if oc_BlockVertexName oc = '''' then oc\<lparr>oc_BlockVertexName := oc_VertexName oc\<rparr> else oc);
        blockDAG \<leftarrow> GetDAG oc (ps_cec s);
        (if oc_BlockIndex oc = 0 then do {
           s \<leftarrow> psAddVertex oc rootDAG (functionVertex oc (ptrBlock blockDAG) v outputs gvkToVarName) s;
           psAddVertex oc blockDAG (blockRootVertex oc outputs gvkToVarName) s }
         else psAddVertex oc blockDAG (functionVertex oc None v outputs gvkToVarName) s) })"

definition addFunction :: "k8slib \<Rightarrow> OriginContext \<Rightarrow> Function \<Rightarrow> pstate \<Rightarrow> pstate go" where
  "addFunction K oc v s = do {
     (outputs, gvkToVarName, s) \<leftarrow> ofold (addOutput K oc) (elems (fn_Output v)) (output_New, [], s);
     (outputs, s) \<leftarrow> (if fn_Output v = None then addDefaultOutput K oc v (outputs, s) else Some (outputs, s));
     placeFunction oc v outputs gvkToVarName s }"

text \<open>The error of \<open>AddService\<close> is dropped.\<close>

definition addService :: "k8slib \<Rightarrow> OriginContext \<Rightarrow> Function \<Rightarrow> pstate \<Rightarrow> pstate go" where
  "addService K oc v s =
     ofold (\<lambda>(_, outputCfg) s.
              let (gvk, err) = GetGVK K (out_Resource outputCfg);
                  s = psRecord oc err s
              in do {
                (_, cec) \<leftarrow> AddService gvk v (ps_cec s);
                Some (s\<lparr>ps_cec := cec\<rparr>) })
       (elems (fn_Output v)) s"

definition populateWalk :: "k8slib \<Rightarrow> pstate ccWalkConfig" where
  "populateWalk K = noCallbacks\<lparr>gvkObjectFn := Some (addGvk K), functionFn := Some (addFunction K),
     serviceFn := Some (addService K)\<rparr>"

text \<open>The phases after \<open>init\<close> start from the context of the phase before and no results.\<close>

definition runPhase ::
  "pstate ccWalkConfig \<Rightarrow> ControllerConfig \<Rightarrow> cfgExecContext \<Rightarrow> GlobalVariable \<Rightarrow> pstate go" where
  "runPhase fnc cCfg cec gvar =
     walkLcncConfig fnc cCfg \<lparr>ps_cec = cec, ps_gvar = gvar, ps_result = []\<rparr>"

definition populate :: "k8slib \<Rightarrow> ControllerConfig \<Rightarrow> cfgExecContext \<Rightarrow> GlobalVariable \<Rightarrow> pstate go" where
  "populate K = runPhase (populateWalk K)"

section \<open>resolve (parser\_resolver.go)\<close>

text \<open>\<open>ref.Kind == RegularReferenceKind \&\& ref.Value[0] != '_'\<close>: the first byte of an empty value
  is out of range.\<close>

definition refUsed :: "Reference \<Rightarrow> bool go" where
  "refUsed ref =
     (if ref_Kind ref = RegularReferenceKind
      then (case ref_Value ref of [] \<Rightarrow> None | c # _ \<Rightarrow> Some (c \<noteq> CHR ''_''))
      else Some False)"

definition resolveRefs :: "OriginContext \<Rightarrow> string \<Rightarrow> pstate \<Rightarrow> pstate go" where
  "resolveRefs oc str s =
     ofold (\<lambda>ref s. do {
              u \<leftarrow> refUsed ref;
              (if u then
                 (if gget (oc_LocalVars oc) (ref_Value ref) \<noteq> None then Some s
                  else do {
                    d \<leftarrow> gvarGetDAG (ps_gvar s) (oc_FOWS oc, oc_RootVertexName oc);
                    Some (if \<not> VarExists d (ref_Value ref)
                          then psRecord oc (Some (''cannot resolve '' @ ref_Value ref)) s else s) })
               else Some s) })
       (GetReferences str) s"

definition resolveBlock :: "OriginContext \<Rightarrow> Block \<Rightarrow> pstate \<Rightarrow> pstate go" where
  "resolveBlock oc = walkBlock (resolveRefs oc)"

definition resolveDependsOn :: "OriginContext \<Rightarrow> string list \<Rightarrow> pstate \<Rightarrow> pstate go" where
  "resolveDependsOn oc vertexNames s =
     ofold (\<lambda>vertexName s. do {
              p \<leftarrow> ctxDAG oc (oc_Operation oc) (ps_cec s);
              d \<leftarrow> load p (ps_cec s);
              Some (if GetVertex d vertexName = None
                    then psRecord oc (Some (''vertex in depndsOn does not exist '' @ vertexName)) s else s) })
       vertexNames s"

definition resolveFunction :: "OriginContext \<Rightarrow> Function \<Rightarrow> pstate \<Rightarrow> pstate go" where
  "resolveFunction oc v s = do {
     s \<leftarrow> ofold (\<lambda>(localVarName, x). resolveRefs (oc\<lparr>oc_LocalVarName := localVarName\<rparr>) x) (fn_Vars v) s;
     s \<leftarrow> (if HasBlock v then resolveBlock oc (fn_Block v) s else Some s);
     inp \<leftarrow> fn_Input v;
     s \<leftarrow> ofold (\<lambda>(k, x) s. do { s \<leftarrow> resolveRefs oc k s; resolveRefs oc x s }) (elems (in_Selector inp)) s;
     s \<leftarrow> (if in_Key inp \<noteq> '''' then resolveRefs oc (in_Key inp) s else Some s);
     s \<leftarrow> (if in_Value inp \<noteq> '''' then resolveRefs oc (in_Value inp) s else Some s);
     s \<leftarrow> (if in_Expression inp \<noteq> '''' then resolveRefs oc (in_Expression inp) s else Some s);
     s \<leftarrow> ofold (\<lambda>(_, x). resolveRefs oc x) (in_GenericInput inp) s;
     (if length (fn_DependsOn v) > 0 then resolveDependsOn oc (fn_DependsOn v) s else Some s) }"

definition resolveWalk :: "pstate ccWalkConfig" where
  "resolveWalk = noCallbacks\<lparr>functionFn := Some resolveFunction\<rparr>"

definition resolve :: "ControllerConfig \<Rightarrow> cfgExecContext \<Rightarrow> GlobalVariable \<Rightarrow> pstate go" where
  "resolve = runPhase resolveWalk"

section \<open>connect (parser\_connector.go)\<close>

definition connectGvk :: "k8slib \<Rightarrow> OriginContext \<Rightarrow> GvkObject \<Rightarrow> pstate \<Rightarrow> (gvk option \<times> pstate) go" where
  "connectGvk K oc v s =
     (let (gvk, err) = GetGVK K (go_Resource v) in Some (gvk, psRecord oc err s))"

definition psConnect :: "dagptr option \<Rightarrow> string \<Rightarrow> string \<Rightarrow> pstate \<Rightarrow> pstate go" where
  "psConnect p from to s = do {
     cec \<leftarrow> ptrConnect p from to (ps_cec s);
     Some (s\<lparr>ps_cec := cec\<rparr>) }"

text \<open>\<open>vc.AddReference(ref)\<close> on the vertex context behind the graph pointer.\<close>

definition psAddReference :: "dagptr \<Rightarrow> string \<Rightarrow> VertexContext \<Rightarrow> string \<Rightarrow> pstate \<Rightarrow> pstate go" where
  "psAddReference p vertexName vc ref s = do {
     d \<leftarrow> load p (ps_cec s);
     Some (s\<lparr>ps_cec := store p
       (d\<lparr>vertices := gput vertexName (AddReference ref vc) (vertices d)\<rparr>) (ps_cec s)\<rparr>) }"

text \<open>The copy of the origin loses the block before it is used to name the block vertex.\<close>

definition connectVar :: "OriginContext \<Rightarrow> dagptr option \<Rightarrow> VariableContext \<Rightarrow> pstate \<Rightarrow> pstate go" where
  "connectVar oc d varInfo s =
     (if var_BlockIndex varInfo < oc_BlockIndex oc then do {
        s \<leftarrow> psConnect d (oc_BlockVertexName oc) (oc_VertexName oc) s;
        let oc = oc\<lparr>oc_BlockIndex := 0, oc_BlockVertexName := ''''\<rparr>;
        rootDAG \<leftarrow> GetDAG oc (ps_cec s);
        psConnect rootDAG (var_VertexName varInfo) (oc_BlockVertexName oc) s }
      else if var_BlockIndex varInfo > oc_BlockIndex oc
      then psConnect d (var_BlockVertexName varInfo) (oc_VertexName oc) s
      else psConnect d (var_OutputVertex varInfo) (oc_VertexName oc) s)"

definition connectRef :: "OriginContext \<Rightarrow> Reference \<Rightarrow> pstate \<Rightarrow> pstate go" where
  "connectRef oc ref s = do {
     u \<leftarrow> refUsed ref;
     (if u then do {
        _ \<leftarrow> oc_GVK oc;
        d \<leftarrow> GetDAG oc (ps_cec s);
        p \<leftarrow> d;
        g \<leftarrow> load p (ps_cec s);
        vc \<leftarrow> GetVertex g (oc_VertexName oc);
        s \<leftarrow> psAddReference p (oc_VertexName oc) vc (ref_Value ref) s;
        (if gget (oc_LocalVars oc) (ref_Value ref) \<noteq> None then Some s
         else do {
           vars \<leftarrow> gvarGetDAG (ps_gvar s) (oc_FOWS oc, oc_RootVertexName oc);
           (case GetVarInfo vars (ref_Value ref) of
              None \<Rightarrow> Some (psRecord oc (Some (''variable not found in gvar dag, varName: '' @ ref_Value ref)) s)
            | Some varInfo \<Rightarrow> connectVar oc d varInfo s) }) }
      else Some s) }"

definition connectRefs :: "OriginContext \<Rightarrow> string \<Rightarrow> pstate \<Rightarrow> pstate go" where
  "connectRefs oc str s = ofold (connectRef oc) (GetReferences str) s"

definition connectBlock :: "OriginContext \<Rightarrow> Block \<Rightarrow> pstate \<Rightarrow> pstate go" where
  "connectBlock oc = walkBlock (connectRefs oc)"

definition connectVertex :: "OriginContext \<Rightarrow> string \<Rightarrow> pstate \<Rightarrow> pstate go" where
  "connectVertex oc vertexName s = do {
     d \<leftarrow> GetDAG oc (ps_cec s);
     psConnect d vertexName (oc_VertexName oc) s }"

definition connectInput :: "OriginContext \<Rightarrow> Input \<Rightarrow> pstate \<Rightarrow> pstate go" where
  "connectInput oc inp s = do {
     s \<leftarrow> (if length (in_Resource inp) \<noteq> 0 then do {
             d \<leftarrow> GetDAG oc (ps_cec s);
             (if oc_BlockIndex oc > 0 then psConnect d (oc_BlockVertexName oc) (oc_VertexName oc) s
              else psConnect d (oc_RootVertexName oc) (oc_VertexName oc) s) }
           else Some s);
     s \<leftarrow> (if in_Key inp \<noteq> '''' then connectRefs oc (in_Key inp) s else Some s);
     s \<leftarrow> (if in_Value inp \<noteq> '''' then connectRefs oc (in_Value inp) s else Some s);
     s \<leftarrow> (if in_Expression inp \<noteq> '''' then connectRefs oc (in_Expression inp) s else Some s);
     s \<leftarrow> ofold (\<lambda>(_, x). connectRefs oc x) (in_GenericInput inp) s;
     ofold (\<lambda>(k, x) s. do { s \<leftarrow> connectRefs oc k s; connectRefs oc x s }) (elems (in_Selector inp)) s }"

definition connectFunction :: "OriginContext \<Rightarrow> Function \<Rightarrow> pstate \<Rightarrow> pstate go" where
  "connectFunction oc v s = do {
     s \<leftarrow> ofold (\<lambda>(localVarName, x). connectRefs (oc\<lparr>oc_LocalVarName := localVarName\<rparr>) x) (fn_Vars v) s;
     s \<leftarrow> (if HasBlock v then connectBlock oc (fn_Block v) s else Some s);
     s \<leftarrow> (case fn_Input v of None \<Rightarrow> Some s | Some inp \<Rightarrow> connectInput oc inp s);
     s \<leftarrow> (if oc_BlockIndex oc > 0 then connectVertex oc (oc_BlockVertexName oc) s else Some s);
     (if length (fn_DependsOn v) \<noteq> 0
      then ofold (connectVertex oc) (fn_DependsOn v) s else Some s) }"

definition connectWalk :: "k8slib \<Rightarrow> pstate ccWalkConfig" where
  "connectWalk K = noCallbacks\<lparr>gvkObjectFn := Some (connectGvk K), functionFn := Some connectFunction\<rparr>"

definition connect :: "k8slib \<Rightarrow> ControllerConfig \<Rightarrow> cfgExecContext \<Rightarrow> GlobalVariable \<Rightarrow> pstate go" where
  "connect K = runPhase (connectWalk K)"

section \<open>Parse (parser.go)\<close>

definition NewParser :: "k8slib \<Rightarrow> ControllerConfig \<Rightarrow> (string \<times> Result list) go" where
  "NewParser K cfg = do {
     result \<leftarrow> ValidateSyntax K cfg;
     Some (GetRootVertexName cfg, result) }"

definition reduceAt :: "(dagptr \<Rightarrow> orders) \<Rightarrow> nat \<Rightarrow> dagptr \<Rightarrow> cfgExecContext \<Rightarrow> cfgExecContext option" where
  "reduceAt ord fuel p r = do {
     d \<leftarrow> load p r;
     d' \<leftarrow> TransitiveReduction (ord p) fuel d;
     Some (store p d' r) }"

definition dagPtrs :: "FOWS \<Rightarrow> cfgExecContext \<Rightarrow> dagptr list" where
  "dagPtrs fow r =
     concat (map (\<lambda>(gvk, od). concat (map (\<lambda>(op, dctx).
         DagPtr fow gvk op None # map (\<lambda>b. DagPtr fow gvk op (Some b)) (gkeys (BlockDAGs dctx))) od))
       (GetFOW fow r))"

definition transitivereduction ::
  "(dagptr \<Rightarrow> orders) \<Rightarrow> nat \<Rightarrow> cfgExecContext \<Rightarrow> cfgExecContext option" where
  "transitivereduction ord fuel r = do {
     r \<leftarrow> ofold (reduceAt ord fuel) (dagPtrs FOWFor r) r;
     ofold (reduceAt ord fuel) (dagPtrs FOWWatch r) r }"

definition Parse ::
  "k8slib \<Rightarrow> (dagptr \<Rightarrow> orders) \<Rightarrow> nat \<Rightarrow> ControllerConfig \<Rightarrow> (cfgExecContext option \<times> Result list) go" where
  "Parse K ord fuel cCfg = do {
     (ceCtx, gvar, result) \<leftarrow> init K cCfg;
     (if result \<noteq> [] then Some (None, result) else do {
        s \<leftarrow> populate K cCfg ceCtx gvar;
        (if ps_result s \<noteq> [] then Some (None, ps_result s) else do {
           s \<leftarrow> resolve cCfg (ps_cec s) (ps_gvar s);
           (if ps_result s \<noteq> [] then Some (None, ps_result s) else do {
              s \<leftarrow> connect K cCfg (ps_cec s) (ps_gvar s);
              (if ps_result s \<noteq> [] then Some (None, ps_result s) else do {
                 ceCtx \<leftarrow> transitivereduction ord fuel (ps_cec s);
                 Some (Some ceCtx, []) }) }) }) }) }"

section \<open>External resources (parser\_external\_resources.go)\<close>

record er =
  er_result :: "Result list"
  er_resources :: "gvk option list"

text \<open>The comparison of the groups dereferences both pointers.\<close>

fun erFound :: "gvk option \<Rightarrow> gvk option list \<Rightarrow> bool go" where
  "erFound gvk [] = Some False"
| "erFound gvk (resource # rest) = do {
     r \<leftarrow> resource;
     g \<leftarrow> gvk;
     (if gvk_Group r = gvk_Group g \<and> gvk_Version r = gvk_Version g \<and> gvk_Kind r = gvk_Kind g
      then Some True else erFound gvk rest) }"

definition addGVK :: "gvk option \<Rightarrow> er \<Rightarrow> er go" where
  "addGVK gvk r = do {
     found \<leftarrow> erFound gvk (er_resources r);
     Some (if \<not> found then r\<lparr>er_resources := er_resources r @ [gvk]\<rparr> else r) }"

definition getgvk :: "k8slib \<Rightarrow> OriginContext \<Rightarrow> raw \<Rightarrow> er \<Rightarrow> gvk option \<times> er" where
  "getgvk K oc v r =
     (let (gvk, err) = GetGVK K v in (gvk, r\<lparr>er_result := recordErr oc err (er_result r)\<rparr>))"

definition getGvk :: "k8slib \<Rightarrow> OriginContext \<Rightarrow> GvkObject \<Rightarrow> er \<Rightarrow> (gvk option \<times> er) go" where
  "getGvk K oc v r =
     (let (gvk, r) = getgvk K oc (go_Resource v) r in do { r \<leftarrow> addGVK gvk r; Some (gvk, r) })"

definition addResource :: "k8slib \<Rightarrow> OriginContext \<Rightarrow> raw \<Rightarrow> er \<Rightarrow> er go" where
  "addResource K oc v r = (let (gvk, r) = getgvk K oc v r in addGVK gvk r)"

definition getFunctionGvk :: "k8slib \<Rightarrow> OriginContext \<Rightarrow> Function \<Rightarrow> er \<Rightarrow> er go" where
  "getFunctionGvk K oc v r = do {
     r \<leftarrow> (case fn_Input v of
             None \<Rightarrow> Some r
           | Some inp \<Rightarrow> if length (in_Resource inp) \<noteq> 0 then addResource K oc (in_Resource inp) r else Some r);
     r \<leftarrow> (if fn_Type v = GoTemplateType then do {
             inp \<leftarrow> fn_Input v;
             (if length (in_Resource inp) \<noteq> 0 then addResource K oc (in_Resource inp) r else Some r) }
           else Some r);
     ofold (\<lambda>(_, w) r. if \<not> out_Internal w \<and> length (out_Resource w) \<noteq> 0
                       then addResource K oc (out_Resource w) r else Some r)
       (elems (fn_Output v)) r }"

definition erWalk :: "k8slib \<Rightarrow> er ccWalkConfig" where
  "erWalk K = noCallbacks\<lparr>gvkObjectFn := Some (getGvk K), functionFn := Some (getFunctionGvk K)\<rparr>"

definition GetExternalResources :: "k8slib \<Rightarrow> ControllerConfig \<Rightarrow> (gvk option list \<times> Result list) go" where
  "GetExternalResources K cCfg = do {
     er \<leftarrow> walkLcncConfig (erWalk K) cCfg \<lparr>er_result = [], er_resources = []\<rparr>;
     Some (er_resources er, er_result er) }"

section \<open>The phases are walks\<close>

interpretation inits: phase "initWalk K" "\<lambda>r. fst (GetGVK K r)" "initGvk K" for K
proof
  show "gvkObjectFn (initWalk K) = Some (initGvk K)" by (simp add: initWalk_def)
  show "initGvk K oc v s = Some (g, t) \<Longrightarrow> g = fst (GetGVK K (go_Resource v))" for oc v s g t
    by (auto simp: initGvk_def Let_def bind_eq_Some_conv split: prod.splits if_splits)
qed

interpretation populates: phase "populateWalk K" "\<lambda>r. fst (GetGVK K r)" "addGvk K" for K
proof
  show "gvkObjectFn (populateWalk K) = Some (addGvk K)" by (simp add: populateWalk_def)
  show "addGvk K oc v s = Some (g, t) \<Longrightarrow> g = fst (GetGVK K (go_Resource v))" for oc v s g t
    by (auto simp: addGvk_def Let_def bind_eq_Some_conv split: prod.splits if_splits)
qed

interpretation connects: phase "connectWalk K" "\<lambda>r. fst (GetGVK K r)" "connectGvk K" for K
proof
  show "gvkObjectFn (connectWalk K) = Some (connectGvk K)" by (simp add: connectWalk_def)
  show "connectGvk K oc v s = Some (g, t) \<Longrightarrow> g = fst (GetGVK K (go_Resource v))" for oc v s g t
    by (auto simp: connectGvk_def split: prod.splits)
qed

interpretation ers: phase "erWalk K" "\<lambda>r. fst (GetGVK K r)" "getGvk K" for K
proof
  show "gvkObjectFn (erWalk K) = Some (getGvk K)" by (simp add: erWalk_def)
  show "getGvk K oc v s = Some (g, t) \<Longrightarrow> g = fst (GetGVK K (go_Resource v))" for oc v s g t
    by (auto simp: getGvk_def getgvk_def Let_def bind_eq_Some_conv split: prod.splits)
qed

end
