(* ===== verification/Parser_Graphs.thy ===== *)
theory Parser_Graphs
  imports Parser
begin

text \<open>
  Which vertices and edges the phases of the parser put in which graph.  Every phase is the fold
  of its callbacks over the events of the configuration (locale \<open>phase\<close>); a callback that records
  no result adds a set of vertices or edges that can be read off the event, and leaves the
  other graphs as they are.
\<close>

section \<open>Graphs behind pointers\<close>

definition vnames :: "rtdag \<Rightarrow> string set" where
  "vnames d = set (gkeys (vertices d))"

definition verts :: "cfgExecContext \<Rightarrow> (dagptr \<times> string) set" where
  "verts r = {(p, v). \<exists>d. load p r = Some d \<and> v \<in> vnames d}"

definition links :: "cfgExecContext \<Rightarrow> (dagptr \<times> string \<times> string) set" where
  "links r = {(p, u, v). \<exists>d. load p r = Some d \<and> (u, v) \<in> edges d}"

definition graphs_ok :: "cfgExecContext \<Rightarrow> bool" where
  "graphs_ok r \<longleftrightarrow> (\<forall>p d. load p r = Some d \<longrightarrow> dag_ok d)"

text \<open>The maps of the context have no key twice.\<close>

definition cec_wf :: "cfgExecContext \<Rightarrow> bool" where
  "cec_wf r \<longleftrightarrow> (\<forall>fow. gwf (fowMap fow r) \<and> (\<forall>g od. gget (fowMap fow r) g = Some od \<longrightarrow> gwf od))"

lemma cec_wf_put:
  assumes "cec_wf r" and "fow \<noteq> FOWService"
  shows "cec_wf (putDAGCtx fow g op d r)"
  unfolding cec_wf_def
proof
  fix f
  have put: "fowMap fow (putDAGCtx fow g op d r) =
      gput g (gput op d (case gget (fowMap fow r) g of None \<Rightarrow> [] | Some od \<Rightarrow> od)) (fowMap fow r)"
    using assms(2) by (cases fow) (simp_all add: putDAGCtx_def Let_def fowMap_def)
  have wf: "gwf (fowMap fow r)" "gget (fowMap fow r) h = Some od \<Longrightarrow> gwf od" for h od
    using assms(1) by (auto simp: cec_wf_def)
  show "gwf (fowMap f (putDAGCtx fow g op d r)) \<and>
      (\<forall>h od. gget (fowMap f (putDAGCtx fow g op d r)) h = Some od \<longrightarrow> gwf od)"
  proof (cases "f = fow")
    case True
    have "gwf (gput op d (case gget (fowMap fow r) g of None \<Rightarrow> [] | Some od \<Rightarrow> od))"
      by (rule gwf_gput) (use wf(2) in \<open>auto split: option.splits\<close>)
    then show ?thesis using True wf by (auto simp: put simp del: distinct_map split: if_splits)
  next
    case False
    then show ?thesis using assms(1) by (simp add: cec_wf_def)
  qed
qed

lemma cec_wf_store: "cec_wf r \<Longrightarrow> cec_wf (store p g r)"
proof (cases p)
  case (DagPtr fow gvk op b)
  assume wf: "cec_wf r"
  show ?thesis
  proof (cases "fow = FOWService")
    case True
    then show ?thesis using wf by (simp add: DagPtr fowMap_def)
  next
    case False
    then show ?thesis using wf by (auto simp: DagPtr cec_wf_put split: option.splits)
  qed
qed

text \<open>The same graphs exist, and the maps stay well-formed.\<close>

definition same_shape :: "cfgExecContext \<Rightarrow> cfgExecContext \<Rightarrow> bool" where
  "same_shape r r' \<longleftrightarrow> (\<forall>p. load p r' = None \<longleftrightarrow> load p r = None) \<and> (cec_wf r \<longrightarrow> cec_wf r') \<and>
     (\<forall>fow. gkeys (fowMap fow r') = gkeys (fowMap fow r)) \<and> cec_name r' = cec_name r"

lemma cec_name_put [simp]: "cec_name (putDAGCtx fow g op d r) = cec_name r"
  by (cases fow) (simp_all add: putDAGCtx_def Let_def)

lemma cec_name_store [simp]: "cec_name (store p g r) = cec_name r"
  by (cases p) (simp split: option.splits)

lemma gkeys_store: "load p r \<noteq> None \<Longrightarrow> gkeys (fowMap fow (store p g r)) = gkeys (fowMap fow r)"
proof (cases p)
  fix fow' gvk op b
  assume p: "p = DagPtr fow' gvk op b" and l: "load p r \<noteq> None"
  obtain od d where od: "gget (fowMap fow' r) gvk = Some od" "gget od op = Some d"
    using l by (auto simp: p bind_eq_None_conv)
  then have "gvk \<in> set (gkeys (fowMap fow' r))" by (blast intro: gget_Some_key)
  then show ?thesis using od
    by (cases fow; cases fow') (simp_all add: p putDAGCtx_def Let_def fowMap_def gkeys_gput)
qed

lemma same_shape_refl: "same_shape r r"
  by (simp add: same_shape_def)

lemma same_shape_trans: "same_shape r s \<Longrightarrow> same_shape s t \<Longrightarrow> same_shape r t"
  by (simp add: same_shape_def)

lemma same_shape_store: "load p r \<noteq> None \<Longrightarrow> same_shape r (store p g r)"
  by (auto simp: same_shape_def load_store cec_wf_store gkeys_store)

lemma verts_store:
  "load p r = Some d \<Longrightarrow> vnames g = vnames d \<Longrightarrow> verts (store p g r) = verts r"
  by (auto simp: verts_def load_store split: if_splits)

lemma links_store:
  "load p r = Some d \<Longrightarrow> edges g = edges d \<Longrightarrow> links (store p g r) = links r"
  by (auto simp: links_def load_store split: if_splits)

lemma graphs_ok_store: "load p r \<noteq> None \<Longrightarrow> graphs_ok r \<Longrightarrow> dag_ok g \<Longrightarrow> graphs_ok (store p g r)"
  by (auto simp: graphs_ok_def load_store split: if_splits)

text \<open>The graph a vertex with the given origin goes to.\<close>

definition ptrOf :: "OriginContext \<Rightarrow> gvk \<Rightarrow> dagptr" where
  "ptrOf oc g = DagPtr (oc_FOWS oc) g (oc_Operation oc)
     (if oc_BlockIndex oc = 0 \<and> oc_BlockVertexName oc = '''' then None else Some (oc_BlockVertexName oc))"

lemma GetDAG_Some:
  assumes "GetDAG oc r = Some (Some p)"
  obtains g d where "oc_GVK oc = Some g" "p = ptrOf oc g" "load p r = Some d"
proof -
  have fow: "oc_FOWS oc \<noteq> FOWService" using assms by (auto simp: GetDAG_def GetDAGCtx_def)
  then obtain g od d where g: "oc_GVK oc = Some g" "gget (fowMap (oc_FOWS oc) r) g = Some od"
    "gget od (oc_Operation oc) = Some d"
    using assms by (auto simp: GetDAG_def GetDAGCtx_def bind_eq_Some_conv split: option.splits)
  have "\<exists>e. load p r = Some e \<and> p = ptrOf oc g"
    using assms fow g by (auto simp: GetDAG_def GetDAGCtx_def ptrOf_def split: if_splits)
  then show ?thesis using that g(1) by blast
qed

lemma GetDAG_main:
  assumes "oc_BlockIndex oc = 0" and "oc_BlockVertexName oc = ''''" and g: "oc_GVK oc = Some g"
    and l: "load (DagPtr (oc_FOWS oc) g (oc_Operation oc) None) r = None"
  shows "GetDAG oc r = Some None"
proof (cases "oc_FOWS oc = FOWService")
  case True
  then show ?thesis by (simp add: GetDAG_def GetDAGCtx_def)
next
  case False
  have "gget (fowMap (oc_FOWS oc) r) g = None \<or>
      (\<exists>od. gget (fowMap (oc_FOWS oc) r) g = Some od \<and> gget od (oc_Operation oc) = None)"
    using l by (cases "gget (fowMap (oc_FOWS oc) r) g") (simp_all add: bind_eq_None_conv)
  then show ?thesis using False g by (auto simp: GetDAG_def GetDAGCtx_def)
qed

section \<open>Folds over events\<close>

text \<open>A phase that ends without results has recorded none on the way.\<close>

definition clean :: "pstate \<Rightarrow> bool" where
  "clean s \<longleftrightarrow> ps_result s = []"

lemma recordErr_clean [simp]: "recordErr oc err rs = [] \<longleftrightarrow> err = None \<and> rs = []"
  by (cases err) (simp_all add: recordErr_def recordResult_def)

text \<open>What the steps of a loop add, the loop adds.\<close>

lemma ofold_union:
  assumes "ofold h es s = Some t"
    and refl: "\<And>s. R s s {}"
    and trans: "\<And>s t u a b. R s t a \<Longrightarrow> R t u b \<Longrightarrow> R s u (a \<union> b)"
    and step: "\<And>e s t. e \<in> set es \<Longrightarrow> h e s = Some t \<Longrightarrow> R s t (g e)"
  shows "R s t (\<Union>e \<in> set es. g e)"
  using assms(1) step
proof (induction es arbitrary: s)
  case Nil
  then show ?case by (simp add: refl)
next
  case (Cons e es)
  obtain u where u: "h e s = Some u" "ofold h es u = Some t"
    using Cons.prems(1) by (auto simp: bind_eq_Some_conv)
  have "R s u (g e)" by (rule Cons.prems(2) [OF _ u(1)]) simp
  moreover have "R u t (\<Union>e \<in> set es. g e)"
    by (rule Cons.IH [OF u(2)], rule Cons.prems(2)) simp_all
  ultimately show ?case using trans by fastforce
qed

section \<open>What populate adds\<close>

definition blockPtr :: "OriginContext \<Rightarrow> gvk \<Rightarrow> dagptr" where
  "blockPtr oc g = ptrOf (if oc_BlockVertexName oc = '''' then oc\<lparr>oc_BlockVertexName := oc_VertexName oc\<rparr>
     else oc) g"

text \<open>The vertices an event adds: a resource is the root of its graphs; a function is a vertex of
  the graph of its context, or, when it is a block, of the main graph and of its own graph.\<close>

fun eventVertices :: "(raw \<Rightarrow> gvk option) \<Rightarrow> event \<Rightarrow> (dagptr \<times> string) set" where
  "eventVertices G (GvkObjectAt oc v) =
     (case G (go_Resource v) of
        None \<Rightarrow> {}
      | Some g \<Rightarrow>
          (if oc_FOWS oc = FOWFor \<or> oc_FOWS oc = FOWWatch
           then {(DagPtr (oc_FOWS oc) g OperationApply None, oc_VertexName oc)} else {}) \<union>
          (if oc_FOWS oc = FOWFor
           then {(DagPtr (oc_FOWS oc) g OperationDelete None, oc_VertexName oc)} else {}))"
| "eventVertices G (FunctionAt oc v) =
     (case oc_GVK oc of
        None \<Rightarrow> {}
      | Some g \<Rightarrow>
          if \<not> oc_Block oc then {(ptrOf oc g, oc_VertexName oc)}
          else if oc_BlockIndex oc = 0
          then {(ptrOf oc g, oc_VertexName oc), (blockPtr oc g, oc_VertexName oc)}
          else {(blockPtr oc g, oc_VertexName oc)})"
| "eventVertices G _ = {}"

text \<open>A graph gets a new vertex: it had none of that name, and nothing else changes.\<close>

lemma psAddVertex_Some:
  assumes "psAddVertex oc p vc s = Some t" and "clean t"
  obtains q where "p = Some q" and "clean s"
    and "(q, oc_VertexName oc) \<notin> verts (ps_cec s)"
    and "verts (ps_cec t) = insert (q, oc_VertexName oc) (verts (ps_cec s))"
    and "links (ps_cec t) = links (ps_cec s)"
    and "graphs_ok (ps_cec s) \<Longrightarrow> graphs_ok (ps_cec t)"
proof -
  obtain q d where q0: "p = Some q" "load q (ps_cec s) = Some d"
    and t0: "t = psRecord oc (fst (AddVertex (oc_VertexName oc) vc d))
      (s\<lparr>ps_cec := store q (snd (AddVertex (oc_VertexName oc) vc d)) (ps_cec s)\<rparr>)"
    using assms(1) by (auto simp: psAddVertex_def ptrAddVertex_def bind_eq_Some_conv Let_def split_def)
  obtain err d' where q: "p = Some q" "load q (ps_cec s) = Some d"
      "AddVertex (oc_VertexName oc) vc d = (err, d')"
    and t: "t = psRecord oc err (s\<lparr>ps_cec := store q d' (ps_cec s)\<rparr>)"
    using q0 t0 by (cases "AddVertex (oc_VertexName oc) vc d") auto
  have c: "err = None" "clean s" using assms(2) by (simp_all add: t clean_def)
  have new: "gget (vertices d) (oc_VertexName oc) = None"
    and d': "d' = d\<lparr>vertices := gput (oc_VertexName oc) vc (vertices d)\<rparr>"
    using q(3) c(1) by (auto simp: AddVertex_def split: option.splits)
  have d'2: "d' = snd (AddVertex (oc_VertexName oc) vc d)" using q(3) by simp
  have names: "vnames d' = insert (oc_VertexName oc) (vnames d)"
    by (simp add: vnames_def d' del: set_map)
  have edges: "edges d' = edges d" unfolding d'2 by (rule AddVertex_edges)
  show ?thesis
  proof (rule that [OF q(1) c(2)])
    show "(q, oc_VertexName oc) \<notin> verts (ps_cec s)"
      using new q(2) by (simp add: verts_def vnames_def gget_None_iff del: set_map)
    show "verts (ps_cec t) = insert (q, oc_VertexName oc) (verts (ps_cec s))"
      using q(2) by (auto simp: t verts_def load_store names split: if_splits)
    show "links (ps_cec t) = links (ps_cec s)"
      using links_store [OF q(2) edges] by (simp add: t)
    show "graphs_ok (ps_cec t)" if "graphs_ok (ps_cec s)"
    proof -
      have "dag_ok d" using that q(2) by (simp add: graphs_ok_def)
      then have "dag_ok d'" unfolding d'2 by (rule dag_ok_AddVertex)
      then show ?thesis using that q(2) by (simp add: t graphs_ok_store)
    qed
  qed
qed

text \<open>Steps on the variables and results leave the execution context alone.\<close>

lemma psAddVariable_Some:
  "psAddVariable oc n s = Some t \<Longrightarrow> ps_cec t = ps_cec s \<and> (clean t \<longrightarrow> clean s)"
  by (auto simp: psAddVariable_def bind_eq_Some_conv clean_def split: prod.splits)

lemma psAddVariable_record:
  "psAddVariable oc n (psRecord oc' err s) = Some t \<Longrightarrow> ps_cec t = ps_cec s \<and> (clean t \<longrightarrow> clean s)"
  using psAddVariable_Some [of oc n "psRecord oc' err s" t] by (auto simp: clean_def)

text \<open>What a step of populate does: it stays clean, it keeps the graphs that exist, it adds the
  vertices \<open>new\<close> and no edge.\<close>

definition adds_vertices :: "pstate \<Rightarrow> pstate \<Rightarrow> (dagptr \<times> string) set \<Rightarrow> bool" where
  "adds_vertices s t new \<longleftrightarrow> same_shape (ps_cec s) (ps_cec t) \<and> (clean t \<longrightarrow>
     clean s \<and> verts (ps_cec t) = verts (ps_cec s) \<union> new \<and>
     links (ps_cec t) = links (ps_cec s) \<and> (graphs_ok (ps_cec s) \<longrightarrow> graphs_ok (ps_cec t)))"

lemma adds_none: "ps_cec t = ps_cec s \<Longrightarrow> (clean t \<longrightarrow> clean s) \<Longrightarrow> adds_vertices s t {}"
  by (simp add: adds_vertices_def same_shape_refl)

lemma adds_trans:
  "adds_vertices s t new \<Longrightarrow> adds_vertices t u new' \<Longrightarrow> new'' = new \<union> new' \<Longrightarrow> adds_vertices s u new''"
  unfolding adds_vertices_def by (auto intro: same_shape_trans)

lemma adds_vertex:
  assumes "psAddVertex oc p vc s = Some t"
  obtains q where "p = Some q" "adds_vertices s t {(q, oc_VertexName oc)}"
proof -
  obtain q d err d' where q: "p = Some q" "load q (ps_cec s) = Some d" "ps_cec t = store q d' (ps_cec s)"
    using assms by (auto simp: psAddVertex_def ptrAddVertex_def bind_eq_Some_conv Let_def split_def)
  have shape: "same_shape (ps_cec s) (ps_cec t)" using q by (simp add: same_shape_store)
  show ?thesis
  proof (cases "clean t")
    case True
    show ?thesis
      by (rule psAddVertex_Some [OF assms True], rule that) (auto simp: adds_vertices_def shape)
  next
    case False
    then show ?thesis using q(1) shape by (intro that) (auto simp: adds_vertices_def)
  qed
qed

lemma addGvk_adds:
  assumes "addGvk K oc v s = Some (g, t)"
  shows "adds_vertices s t (eventVertices (\<lambda>r. fst (GetGVK K r)) (GvkObjectAt oc v))"
proof -
  define gvk where "gvk = fst (GetGVK K (go_Resource v))"
  define oc' where "oc' = oc\<lparr>oc_GVK := gvk\<rparr>"
  define s1 where "s1 = psRecord oc (snd (GetGVK K (go_Resource v))) s"
  define s2 where "s2 = s1\<lparr>ps_gvar := gvarAdd (oc_FOWS oc, oc_RootVertexName oc) (ps_gvar s1)\<rparr>"
  define vc where "vc = rootVertex oc' v
    (output_AddEntry (oc_VertexName oc) (AOutputInfo (OutputInfo True False gvk ANil)) output_New)"
  have eq: "addGvk K oc v s = do {
      s \<leftarrow> psAddVariable oc' (oc_VertexName oc) s2;
      s \<leftarrow> (if oc_FOWS oc = FOWFor \<or> oc_FOWS oc = FOWWatch
            then do { p \<leftarrow> ctxDAG oc' OperationApply (ps_cec s); psAddVertex oc' (Some p) vc s }
            else Some s);
      s \<leftarrow> (if oc_FOWS oc = FOWFor
            then do { p \<leftarrow> ctxDAG oc' OperationDelete (ps_cec s); psAddVertex oc' (Some p) vc s }
            else Some s);
      Some (gvk, s) }"
    by (simp add: addGvk_def Let_def split_def gvk_def oc'_def s1_def s2_def vc_def cong: if_cong)
  obtain s3 s4 where
    s3: "psAddVariable oc' (oc_VertexName oc) s2 = Some s3" and
    s4: "(if oc_FOWS oc = FOWFor \<or> oc_FOWS oc = FOWWatch
          then do { p \<leftarrow> ctxDAG oc' OperationApply (ps_cec s3); psAddVertex oc' (Some p) vc s3 }
          else Some s3) = Some s4" and
    s5: "(if oc_FOWS oc = FOWFor
          then do { p \<leftarrow> ctxDAG oc' OperationDelete (ps_cec s4); psAddVertex oc' (Some p) vc s4 }
          else Some s4) = Some t"
    using assms unfolding eq bind_eq_Some_conv by auto
  have "adds_vertices s s1 {}" by (rule adds_none) (auto simp: s1_def clean_def)
  moreover have "adds_vertices s1 s2 {}" by (rule adds_none) (auto simp: s2_def clean_def)
  moreover have "adds_vertices s2 s3 {}" using psAddVariable_Some [OF s3] by (auto intro: adds_none)
  ultimately have 3: "adds_vertices s s3 {}" by (auto intro: adds_trans)
  have ptr: "ctxDAG oc' op r = Some p \<Longrightarrow> \<exists>g. gvk = Some g \<and> p = DagPtr (oc_FOWS oc) g op None" for op r p
    by (auto simp: ctxDAG_def oc'_def bind_eq_Some_conv)
  have step: "\<exists>g. gvk = Some g \<and> adds_vertices s' t' {(DagPtr (oc_FOWS oc) g op None, oc_VertexName oc)}"
    if st: "do { p \<leftarrow> ctxDAG oc' op (ps_cec s'); psAddVertex oc' (Some p) vc s' } = Some t'" for op s' t'
  proof -
    obtain p where p: "ctxDAG oc' op (ps_cec s') = Some p" "psAddVertex oc' (Some p) vc s' = Some t'"
      using st by (auto simp: bind_eq_Some_conv)
    obtain q where "Some p = Some q" "adds_vertices s' t' {(q, oc_VertexName oc')}"
      using adds_vertex [OF p(2)] by blast
    then show ?thesis using ptr [OF p(1)] by (auto simp: oc'_def)
  qed
  show ?thesis
  proof (cases "oc_FOWS oc")
    case FOWFor
    obtain g where g: "gvk = Some g"
        "adds_vertices s3 s4 {(DagPtr (oc_FOWS oc) g OperationApply None, oc_VertexName oc)}"
      using step [of OperationApply s3 s4] s4 FOWFor by auto
    have "adds_vertices s4 t {(DagPtr (oc_FOWS oc) g OperationDelete None, oc_VertexName oc)}"
      using step [of OperationDelete s4 t] s5 FOWFor g(1) by auto
    from adds_trans [OF adds_trans [OF 3 g(2) refl] this refl] show ?thesis
      using g(1) FOWFor by (simp add: gvk_def [symmetric])
  next
    case FOWWatch
    obtain g where g: "gvk = Some g"
        "adds_vertices s3 s4 {(DagPtr (oc_FOWS oc) g OperationApply None, oc_VertexName oc)}"
      using step [of OperationApply s3 s4] s4 FOWWatch by auto
    from adds_trans [OF 3 g(2) refl] show ?thesis
      using g(1) FOWWatch s5 by (simp add: gvk_def [symmetric])
  qed (use 3 s4 s5 in \<open>simp_all split: option.splits\<close>)
qed

lemma addOutput_cec:
  assumes "ofold (addOutput K oc) es (out0, names, s) = Some (out1, names', t)"
  shows "ps_cec t = ps_cec s \<and> (clean t \<longrightarrow> clean s)"
proof -
  let ?P = "\<lambda>(_ :: out_store, _ :: (string, string) gmap, u). ps_cec u = ps_cec s \<and> (clean u \<longrightarrow> clean s)"
  have "?P (out1, names', t)"
  proof (rule ofold_inv [where P = ?P, OF assms])
    fix e st st'
    assume P: "?P st" and h: "addOutput K oc e st = Some st'"
    obtain a b u where st: "st = (a, b, u)" by (cases st)
    obtain a' b' u' where st': "st' = (a', b', u')" by (cases st')
    obtain n outc where e: "e = (n, outc)" by (cases e)
    let ?u = "psRecord oc (snd (GetGVK K (out_Resource outc))) u"
    have "psAddVariable oc n ?u = Some u'"
      using h by (auto simp: addOutput_def e st st' Let_def split_def bind_eq_Some_conv)
    from psAddVariable_Some [OF this] show "?P st'" using P by (auto simp: st st' clean_def)
  qed simp
  then show ?thesis by simp
qed

lemma addDefaultOutput_cec:
  assumes "addDefaultOutput K oc v (out0, s) = Some (out1, t)"
  shows "ps_cec t = ps_cec s \<and> (clean t \<longrightarrow> clean s)"
proof -
  have "ps_cec t = ps_cec s \<and> (clean t \<longrightarrow> clean s)"
    using assms
    by (auto simp: addDefaultOutput_def bind_eq_Some_conv split_def Let_def
        split: if_splits option.splits dest: psAddVariable_Some psAddVariable_record)
  then show ?thesis by simp
qed

lemma GetDAG_adds:
  assumes "GetDAG oc r = Some p" and "psAddVertex oc' p vc s = Some t"
  obtains g where "oc_GVK oc = Some g" "adds_vertices s t {(ptrOf oc g, oc_VertexName oc')}"
proof -
  obtain q where q: "p = Some q" "adds_vertices s t {(q, oc_VertexName oc')}"
    using adds_vertex [OF assms(2)] by blast
  obtain g where "oc_GVK oc = Some g" "q = ptrOf oc g" using GetDAG_Some [of oc r q] assms(1) q(1) by blast
  then show ?thesis using q(2) that by blast
qed

text \<open>The loops over the outputs come first, and do not touch the graphs.\<close>

lemma addFunction_vertex:
  assumes "addFunction K oc v s = Some t"
  obtains o2 names s2 where "ps_cec s2 = ps_cec s" "clean s2 \<longrightarrow> clean s"
    "placeFunction oc v o2 names s2 = Some t"
proof -
  obtain o1 names s1 where 1: "ofold (addOutput K oc) (elems (fn_Output v)) (output_New, [], s) = Some (o1, names, s1)"
    using assms by (auto simp: addFunction_def bind_eq_Some_conv)
  obtain o2 s2 where 2: "(if fn_Output v = None then addDefaultOutput K oc v (o1, s1) else Some (o1, s1)) = Some (o2, s2)"
    using assms 1 by (auto simp: addFunction_def bind_eq_Some_conv)
  have "ps_cec s2 = ps_cec s1 \<and> (clean s2 \<longrightarrow> clean s1)"
    using 2 addDefaultOutput_cec [of K oc v o1 s1 o2 s2] by (auto split: if_splits)
  then have "ps_cec s2 = ps_cec s" "clean s2 \<longrightarrow> clean s" using addOutput_cec [OF 1] by auto
  then show ?thesis
    by (rule that [of s2 o2 names]) (use assms 1 2 in \<open>auto simp: addFunction_def bind_eq_Some_conv\<close>)
qed

lemma addFunction_graph:
  assumes "addFunction K oc v s = Some t" and "oc_BlockIndex oc = 0"
  obtains g where "oc_GVK oc = Some g" "load (ptrOf oc g) (ps_cec s) \<noteq> None"
proof -
  obtain o2 names s2 where s2: "ps_cec s2 = ps_cec s"
    and place: "placeFunction oc v o2 names s2 = Some t"
    by (rule addFunction_vertex [OF assms(1)])
  have "\<exists>d oc' vc u. GetDAG oc (ps_cec s2) = Some d \<and> psAddVertex oc' d vc s2 = Some u"
  proof (cases "oc_Block oc")
    case False
    then show ?thesis using place by (auto simp: placeFunction_def bind_eq_Some_conv)
  next
    case True
    then show ?thesis using place assms(2)
      by (auto simp: placeFunction_def Let_def bind_eq_Some_conv split: if_splits)
  qed
  then obtain d oc' vc u where d: "GetDAG oc (ps_cec s2) = Some d" "psAddVertex oc' d vc s2 = Some u" by blast
  obtain q where "d = Some q" using adds_vertex [OF d(2)] by blast
  then obtain g e where "oc_GVK oc = Some g" "q = ptrOf oc g" "load q (ps_cec s2) = Some e"
    using GetDAG_Some [of oc "ps_cec s2" q] d(1) by blast
  then show ?thesis using that s2 by simp
qed

lemma addFunction_adds:
  assumes "addFunction K oc v s = Some t"
  shows "adds_vertices s t (eventVertices G (FunctionAt oc v))"
proof -
  define oc' where "oc' = (if oc_BlockVertexName oc = ''''
    then oc\<lparr>oc_BlockVertexName := oc_VertexName oc\<rparr> else oc)"
  have oc': "oc_GVK oc' = oc_GVK oc" "oc_VertexName oc' = oc_VertexName oc" by (simp_all add: oc'_def)
  have bp: "ptrOf oc' g = blockPtr oc g" for g by (simp add: blockPtr_def oc'_def)
  obtain o2 names s2 where s2: "ps_cec s2 = ps_cec s" "clean s2 \<longrightarrow> clean s"
    and place: "placeFunction oc v o2 names s2 = Some t"
    by (rule addFunction_vertex [OF assms])
  have pre: "adds_vertices s s2 {}" using s2 by (rule adds_none)
  show ?thesis
  proof (cases "oc_Block oc")
    case False
    then obtain d where d: "GetDAG oc (ps_cec s2) = Some d"
        "psAddVertex oc d (functionVertex oc None v o2 names) s2 = Some t"
      using place by (auto simp: placeFunction_def bind_eq_Some_conv)
    from GetDAG_adds [OF d] obtain g
      where g: "oc_GVK oc = Some g" "adds_vertices s2 t {(ptrOf oc g, oc_VertexName oc)}" .
    from adds_trans [OF pre g(2) refl] show ?thesis using False g(1) by simp
  next
    case True
    have eq: "do { rootDAG \<leftarrow> GetDAG oc (ps_cec s2);
        blockDAG \<leftarrow> GetDAG oc' (ps_cec s2);
        (if oc_BlockIndex oc' = 0 then do {
           s \<leftarrow> psAddVertex oc' rootDAG (functionVertex oc' (ptrBlock blockDAG) v o2 names) s2;
           psAddVertex oc' blockDAG (blockRootVertex oc' o2 names) s }
         else psAddVertex oc' blockDAG (functionVertex oc' None v o2 names) s2) } = Some t"
      using place True by (simp add: placeFunction_def oc'_def Let_def cong: if_cong)
    obtain rd bd where rd: "GetDAG oc (ps_cec s2) = Some rd" and bd: "GetDAG oc' (ps_cec s2) = Some bd"
      and rest: "(if oc_BlockIndex oc' = 0 then do {
           s \<leftarrow> psAddVertex oc' rd (functionVertex oc' (ptrBlock bd) v o2 names) s2;
           psAddVertex oc' bd (blockRootVertex oc' o2 names) s }
         else psAddVertex oc' bd (functionVertex oc' None v o2 names) s2) = Some t"
      using eq unfolding bind_eq_Some_conv by blast
    have idx: "oc_BlockIndex oc' = oc_BlockIndex oc" by (simp add: oc'_def)
    show ?thesis
    proof (cases "oc_BlockIndex oc = 0")
      case z: True
      then obtain s3 where s3: "psAddVertex oc' rd (functionVertex oc' (ptrBlock bd) v o2 names) s2 = Some s3"
          "psAddVertex oc' bd (blockRootVertex oc' o2 names) s3 = Some t"
        using rest idx by (auto simp: bind_eq_Some_conv)
      from GetDAG_adds [OF rd s3(1)] obtain g
        where g: "oc_GVK oc = Some g" "adds_vertices s2 s3 {(ptrOf oc g, oc_VertexName oc')}" .
      from GetDAG_adds [OF bd s3(2)] obtain h
        where h: "oc_GVK oc' = Some h" "adds_vertices s3 t {(ptrOf oc' h, oc_VertexName oc')}" .
      have "h = g" using g(1) h(1) oc' by simp
      from adds_trans [OF adds_trans [OF pre g(2) refl] h(2) refl] show ?thesis
        using True z g(1) oc' bp \<open>h = g\<close> by (simp add: insert_commute)
    next
      case nz: False
      then have "psAddVertex oc' bd (functionVertex oc' None v o2 names) s2 = Some t" using rest idx by simp
      from GetDAG_adds [OF bd this] obtain g
        where g: "oc_GVK oc' = Some g" "adds_vertices s2 t {(ptrOf oc' g, oc_VertexName oc')}" .
      from adds_trans [OF pre g(2) refl] show ?thesis using True nz g(1) oc' bp by simp
    qed
  qed
qed

lemma fowMap_AddService: "AddService gvk fn r = Some (err, r') \<Longrightarrow> fowMap fow r' = fowMap fow r"
  by (cases fow) (auto simp: AddService_def bind_eq_Some_conv fowMap_def split: option.splits)

lemma cec_name_AddService: "AddService gvk fn r = Some (err, r') \<Longrightarrow> cec_name r' = cec_name r"
  by (auto simp: AddService_def bind_eq_Some_conv split: option.splits)

lemma load_fowMap: "(\<And>fow. fowMap fow r' = fowMap fow r) \<Longrightarrow> load p r' = load p r"
  by (cases p) simp

lemma addService_adds:
  assumes "addService K oc v s = Some t"
  shows "adds_vertices s t {}"
proof -
  have "(\<forall>f. fowMap f (ps_cec t) = fowMap f (ps_cec s)) \<and> cec_name (ps_cec t) = cec_name (ps_cec s) \<and> (clean t \<longrightarrow> clean s)"
  proof (rule ofold_inv [where P = "\<lambda>u. (\<forall>f. fowMap f (ps_cec u) = fowMap f (ps_cec s)) \<and>
        cec_name (ps_cec u) = cec_name (ps_cec s) \<and> (clean u \<longrightarrow> clean s)",
        OF assms [unfolded addService_def]], goal_cases)
    case 1
    show ?case by simp
  next
    case (2 e u w)
    then obtain err cec where "AddService (fst (GetGVK K (out_Resource (snd e)))) v (ps_cec u) = Some (err, cec)"
      and "w = psRecord oc (snd (GetGVK K (out_Resource (snd e)))) u\<lparr>ps_cec := cec\<rparr>"
      by (auto simp: split_def Let_def bind_eq_Some_conv)
    then show ?case using 2 by (auto simp: fowMap_AddService cec_name_AddService clean_def)
  qed
  then have f: "fowMap f (ps_cec t) = fowMap f (ps_cec s)" and c: "clean t \<longrightarrow> clean s"
    and n: "cec_name (ps_cec t) = cec_name (ps_cec s)" for f by blast+
  have "load p (ps_cec t) = load p (ps_cec s)" for p using f by (rule load_fowMap)
  then show ?thesis using c
    by (simp add: adds_vertices_def same_shape_def verts_def links_def graphs_ok_def cec_wf_def f n)
qed

lemma populate_event:
  assumes "handle (populateWalk K) cfg e s = Some t"
  shows "adds_vertices s t (eventVertices (\<lambda>r. fst (GetGVK K r)) e)"
proof (cases e)
  case (GvkObjectAt oc v)
  then obtain g where "addGvk K oc v s = Some (g, t)"
    using assms by (auto simp: populateWalk_def)
  then show ?thesis unfolding GvkObjectAt by (rule addGvk_adds)
next
  case (FunctionAt oc v)
  then have "addFunction K oc v s = Some t" using assms by (simp add: populateWalk_def call2_def)
  then show ?thesis unfolding FunctionAt by (rule addFunction_adds)
next
  case (ServiceAt oc v)
  then have "addService K oc v s = Some t" using assms by (simp add: populateWalk_def call2_def)
  then show ?thesis using addService_adds by (simp add: ServiceAt)
qed (use assms in \<open>simp_all add: populateWalk_def noCallbacks_def call1_def call2_def adds_none\<close>)

lemma populate_adds:
  assumes "populate K cfg cec gvar = Some s"
  shows "adds_vertices \<lparr>ps_cec = cec, ps_gvar = gvar, ps_result = []\<rparr> s
    (\<Union>e \<in> set (configEvents (\<lambda>r. fst (GetGVK K r)) cfg). eventVertices (\<lambda>r. fst (GetGVK K r)) e)"
proof -
  have "ofold (handle (populateWalk K) cfg) (configEvents (\<lambda>r. fst (GetGVK K r)) cfg)
      \<lparr>ps_cec = cec, ps_gvar = gvar, ps_result = []\<rparr> = Some s"
    using assms by (simp add: populate_def runPhase_def populates.walk_events)
  then show ?thesis
    by (rule ofold_union [where R = adds_vertices])
      (auto intro: adds_none adds_trans populate_event)
qed

end
