(* ===== verification/Parser_Links.thy ===== *)
theory Parser_Links
  imports Parser_Graphs
begin

text \<open>
  The edges the connect phase adds (parser\_connector.go): a function is wired to the vertices its
  strings refer to, to the root of its graph when its input is a resource, to the root of its
  block, and to the vertices it depends on.
\<close>

section \<open>The edges of a function\<close>

text \<open>The edges of a reference to a variable: to the vertex that outputs it, when both are at the
  same depth; to the block that holds it, when it is deeper; otherwise to the root of the own
  block, and in the main graph an edge from the (empty) vertex name of the variable to the empty
  block name.\<close>

definition varLinks :: "OriginContext \<Rightarrow> gvk \<Rightarrow> VariableContext \<Rightarrow> (dagptr \<times> string \<times> string) set" where
  "varLinks oc g vi =
     (if var_BlockIndex vi < oc_BlockIndex oc
      then {(ptrOf oc g, oc_BlockVertexName oc, oc_VertexName oc),
            (ptrOf (oc\<lparr>oc_BlockIndex := 0, oc_BlockVertexName := ''''\<rparr>) g, var_VertexName vi, '''')}
      else if var_BlockIndex vi > oc_BlockIndex oc
      then {(ptrOf oc g, var_BlockVertexName vi, oc_VertexName oc)}
      else {(ptrOf oc g, var_OutputVertex vi, oc_VertexName oc)})"

definition refLinks ::
  "GlobalVariable \<Rightarrow> OriginContext \<Rightarrow> Reference \<Rightarrow> (dagptr \<times> string \<times> string) set" where
  "refLinks gvar oc ref =
     (if refUsed ref = Some True \<and> gget (oc_LocalVars oc) (ref_Value ref) = None
      then (case (oc_GVK oc, gvarGetDAG gvar (oc_FOWS oc, oc_RootVertexName oc)) of
              (Some g, Some vars) \<Rightarrow>
                (case GetVarInfo vars (ref_Value ref) of Some vi \<Rightarrow> varLinks oc g vi | None \<Rightarrow> {})
            | _ \<Rightarrow> {})
      else {})"

definition stringLinks :: "GlobalVariable \<Rightarrow> OriginContext \<Rightarrow> string \<Rightarrow> (dagptr \<times> string \<times> string) set" where
  "stringLinks gvar oc str = (\<Union>ref \<in> set (GetReferences str). refLinks gvar oc ref)"

definition linkTo :: "OriginContext \<Rightarrow> string \<Rightarrow> (dagptr \<times> string \<times> string) set" where
  "linkTo oc u = (case oc_GVK oc of None \<Rightarrow> {} | Some g \<Rightarrow> {(ptrOf oc g, u, oc_VertexName oc)})"

text \<open>The strings of a function that are scanned for references.\<close>

definition inputStrings :: "Input \<Rightarrow> string list" where
  "inputStrings inp = [in_Key inp, in_Value inp, in_Expression inp] @ map snd (in_GenericInput inp) @
     concat (map (\<lambda>(k, x). [k, x]) (elems (in_Selector inp)))"

definition functionStrings :: "Function \<Rightarrow> string list" where
  "functionStrings v = map snd (fn_Vars v) @ (if HasBlock v then blockStrings (fn_Block v) else []) @
     (case fn_Input v of None \<Rightarrow> [] | Some inp \<Rightarrow> inputStrings inp)"

definition functionLinks ::
  "GlobalVariable \<Rightarrow> OriginContext \<Rightarrow> Function \<Rightarrow> (dagptr \<times> string \<times> string) set" where
  "functionLinks gvar oc v =
     (\<Union>str \<in> set (functionStrings v). stringLinks gvar oc str) \<union>
     (case fn_Input v of
        Some inp \<Rightarrow> if in_Resource inp \<noteq> []
          then linkTo oc (if oc_BlockIndex oc > 0 then oc_BlockVertexName oc else oc_RootVertexName oc) else {}
      | None \<Rightarrow> {}) \<union>
     (if oc_BlockIndex oc > 0 then linkTo oc (oc_BlockVertexName oc) else {}) \<union>
     (\<Union>u \<in> set (fn_DependsOn v). linkTo oc u)"

fun eventLinks :: "GlobalVariable \<Rightarrow> event \<Rightarrow> (dagptr \<times> string \<times> string) set" where
  "eventLinks gvar (FunctionAt oc v) = functionLinks gvar oc v"
| "eventLinks gvar _ = {}"

section \<open>What connect adds\<close>

definition adds_links :: "pstate \<Rightarrow> pstate \<Rightarrow> (dagptr \<times> string \<times> string) set \<Rightarrow> bool" where
  "adds_links s t new \<longleftrightarrow> ps_gvar t = ps_gvar s \<and> (clean t \<longrightarrow>
     clean s \<and> same_shape (ps_cec s) (ps_cec t) \<and> verts (ps_cec t) = verts (ps_cec s) \<and>
     links (ps_cec t) = links (ps_cec s) \<union> new \<and> (graphs_ok (ps_cec s) \<longrightarrow> graphs_ok (ps_cec t)))"

lemma adds_links_none:
  "ps_cec t = ps_cec s \<Longrightarrow> ps_gvar t = ps_gvar s \<Longrightarrow> (clean t \<longrightarrow> clean s) \<Longrightarrow> adds_links s t {}"
  by (simp add: adds_links_def same_shape_refl)

lemma adds_links_refl [simp]: "adds_links s s {}"
  by (simp add: adds_links_none)

lemma adds_links_trans: "adds_links s t a \<Longrightarrow> adds_links t u b \<Longrightarrow> adds_links s u (a \<union> b)"
  unfolding adds_links_def by (auto intro: same_shape_trans)

lemma adds_links_gvar: "adds_links s t a \<Longrightarrow> ps_gvar t = ps_gvar s"
  by (simp add: adds_links_def)

text \<open>A loop whose steps keep the variables and add edges computed from the variables.\<close>

lemma ofold_links:
  assumes "ofold h es s = Some t"
    and "\<And>e s t. e \<in> set es \<Longrightarrow> h e s = Some t \<Longrightarrow> adds_links s t (g (ps_gvar s) e)"
  shows "adds_links s t (\<Union>e \<in> set es. g (ps_gvar s) e)"
proof -
  define R where "R = (\<lambda>u w new. ps_gvar u = ps_gvar s \<longrightarrow> adds_links u w new)"
  have "R s t (\<Union>e \<in> set es. g (ps_gvar s) e)"
  proof (rule ofold_union [where R = R, OF assms(1)])
    show "R u u {}" for u by (simp add: R_def)
    show "R u x (a \<union> b)" if 1: "R u w a" and 2: "R w x b" for u w x a b
    proof (unfold R_def, intro impI)
      assume u: "ps_gvar u = ps_gvar s"
      then have a: "adds_links u w a" using 1 by (simp add: R_def)
      then have "adds_links w x b" using 2 u adds_links_gvar [OF a] by (simp add: R_def)
      with a show "adds_links u x (a \<union> b)" by (rule adds_links_trans)
    qed
    show "R u w (g (ps_gvar s) e)" if e: "e \<in> set es" and h: "h e u = Some w" for e u w
    proof (unfold R_def, intro impI)
      assume "ps_gvar u = ps_gvar s"
      then show "adds_links u w (g (ps_gvar s) e)" using assms(2) [OF e h] by simp
    qed
  qed
  then show ?thesis by (simp add: R_def)
qed

lemma psConnect_adds:
  assumes "psConnect p u v s = Some t"
  obtains q where "p = Some q" "adds_links s t {(q, u, v)}"
proof -
  obtain q d where q: "p = Some q" "load q (ps_cec s) = Some d"
    and t: "t = s\<lparr>ps_cec := store q (Connect u v d) (ps_cec s)\<rparr>"
    using assms by (auto simp: psConnect_def ptrConnect_def bind_eq_Some_conv)
  have "verts (ps_cec t) = verts (ps_cec s)"
    using verts_store [OF q(2), of "Connect u v d"] by (simp add: t vnames_def dag_simps)
  moreover have "links (ps_cec t) = links (ps_cec s) \<union> {(q, u, v)}"
    using q(2) by (auto simp: t links_def load_store dag_simps split: if_splits)
  moreover have "same_shape (ps_cec s) (ps_cec t)" using q(2) by (simp add: t same_shape_store)
  moreover have "graphs_ok (ps_cec t)" if ok: "graphs_ok (ps_cec s)"
  proof -
    have "dag_ok d" using ok q(2) by (simp add: graphs_ok_def)
    then have "dag_ok (Connect u v d)" by (rule dag_ok_Connect)
    then show ?thesis using ok q(2) by (simp add: t graphs_ok_store)
  qed
  ultimately have "adds_links s t {(q, u, v)}" by (simp add: adds_links_def clean_def t)
  then show ?thesis using that q(1) by blast
qed

lemma GetDAG_connect:
  assumes "GetDAG oc r = Some p" and "psConnect p u v s = Some t"
  obtains g where "oc_GVK oc = Some g" "adds_links s t {(ptrOf oc g, u, v)}"
proof -
  obtain q where q: "p = Some q" "adds_links s t {(q, u, v)}" using psConnect_adds [OF assms(2)] by blast
  obtain g where "oc_GVK oc = Some g" "q = ptrOf oc g" using GetDAG_Some [of oc r q] assms(1) q(1) by blast
  then show ?thesis using q(2) that by blast
qed

lemma connectVertex_adds: "connectVertex oc u s = Some t \<Longrightarrow> adds_links s t (linkTo oc u)"
  by (auto simp: connectVertex_def bind_eq_Some_conv linkTo_def elim: GetDAG_connect)

lemma psAddReference_adds:
  assumes "psAddReference p (oc_VertexName oc) vc ref s = Some t" and "load p (ps_cec s) = Some d"
    and "GetVertex d (oc_VertexName oc) = Some vc"
  shows "adds_links s t {}"
proof -
  let ?d = "d\<lparr>vertices := gput (oc_VertexName oc) (AddReference ref vc) (vertices d)\<rparr>"
  have t: "t = s\<lparr>ps_cec := store p ?d (ps_cec s)\<rparr>"
    using assms(1,2) by (simp add: psAddReference_def)
  have "oc_VertexName oc \<in> vnames d"
    using assms(3) by (simp add: GetVertex_def vnames_def gget_Some_key del: set_map)
  then have v: "vnames ?d = vnames d" by (simp add: vnames_def insert_absorb del: set_map)
  have e: "edges ?d = edges d" "GetDownVertexes ?d = GetDownVertexes d" "upedges ?d = upedges d"
    "GetUpVertexes ?d = GetUpVertexes d"
    by (simp_all add: edges_def upedges_def GetDownVertexes_def GetUpVertexes_def fun_eq_iff)
  have "verts (ps_cec t) = verts (ps_cec s)" using verts_store [OF assms(2) v] by (simp add: t)
  moreover have "links (ps_cec t) = links (ps_cec s)" using links_store [OF assms(2) e(1)] by (simp add: t)
  moreover have "same_shape (ps_cec s) (ps_cec t)" using assms(2) by (simp add: t same_shape_store)
  moreover have "graphs_ok (ps_cec t)" if ok: "graphs_ok (ps_cec s)"
  proof -
    have "dag_ok d" using ok assms(2) by (simp add: graphs_ok_def)
    then have "dag_ok ?d" unfolding dag_ok_def e by simp
    then show ?thesis using ok assms(2) by (simp add: t graphs_ok_store)
  qed
  ultimately show ?thesis by (simp add: adds_links_def clean_def t)
qed

lemma connectVar_adds:
  assumes "connectVar oc d vi s = Some t" and "d = Some (ptrOf oc g)" and "oc_GVK oc = Some g"
  shows "adds_links s t (varLinks oc g vi)"
proof (cases "var_BlockIndex vi < oc_BlockIndex oc")
  case True
  let ?oc = "oc\<lparr>oc_BlockIndex := 0, oc_BlockVertexName := ''''\<rparr>"
  obtain s1 rd where 1: "psConnect d (oc_BlockVertexName oc) (oc_VertexName oc) s = Some s1"
    and 2: "GetDAG ?oc (ps_cec s1) = Some rd" "psConnect rd (var_VertexName vi) '''' s1 = Some t"
    using assms(1) True by (auto simp: connectVar_def bind_eq_Some_conv Let_def)
  have a: "adds_links s s1 {(ptrOf oc g, oc_BlockVertexName oc, oc_VertexName oc)}"
    using psConnect_adds [OF 1] assms(2) by blast
  obtain h where h: "oc_GVK ?oc = Some h" "adds_links s1 t {(ptrOf ?oc h, var_VertexName vi, '''')}"
    using GetDAG_connect [OF 2] by blast
  have "h = g" using h(1) assms(3) by simp
  then show ?thesis using adds_links_trans [OF a h(2)] True by (simp add: varLinks_def insert_commute)
next
  case False
  then show ?thesis using assms psConnect_adds
    by (cases "var_BlockIndex vi > oc_BlockIndex oc") (auto simp: connectVar_def varLinks_def elim: psConnect_adds)
qed

lemma connectRef_adds:
  assumes "connectRef oc ref s = Some t"
  shows "adds_links s t (refLinks (ps_gvar s) oc ref)"
proof (cases "refUsed ref")
  case None
  then show ?thesis using assms by (simp add: connectRef_def)
next
  case (Some u)
  show ?thesis
  proof (cases u)
    case False
    then show ?thesis using assms Some by (simp add: connectRef_def refLinks_def)
  next
    case True
    obtain g0 d p g vc s1 where
      g0: "oc_GVK oc = Some g0" and d: "GetDAG oc (ps_cec s) = Some d" and p: "d = Some p"
      and g: "load p (ps_cec s) = Some g" and vc: "GetVertex g (oc_VertexName oc) = Some vc"
      and s1: "psAddReference p (oc_VertexName oc) vc (ref_Value ref) s = Some s1"
      and rest: "(if gget (oc_LocalVars oc) (ref_Value ref) \<noteq> None then Some s1
         else do {
           vars \<leftarrow> gvarGetDAG (ps_gvar s1) (oc_FOWS oc, oc_RootVertexName oc);
           (case GetVarInfo vars (ref_Value ref) of
              None \<Rightarrow> Some (psRecord oc (Some (''variable not found in gvar dag, varName: '' @ ref_Value ref)) s1)
            | Some varInfo \<Rightarrow> connectVar oc d varInfo s1) }) = Some t"
      using assms Some True unfolding connectRef_def by (simp only: bind.bind_lunit if_True) (auto simp only: bind_eq_Some_conv)
    have a: "adds_links s s1 {}" by (rule psAddReference_adds [OF s1 g vc])
    have gv: "ps_gvar s1 = ps_gvar s" using adds_links_gvar [OF a] .
    obtain g1 where "oc_GVK oc = Some g1" "p = ptrOf oc g1" using GetDAG_Some [of oc "ps_cec s" p] d p by blast
    then have p': "d = Some (ptrOf oc g0)" using p g0 by simp
    have b: "adds_links s1 t (refLinks (ps_gvar s) oc ref)"
    proof (cases "gget (oc_LocalVars oc) (ref_Value ref)")
      case None
      obtain vars where vars: "gvarGetDAG (ps_gvar s) (oc_FOWS oc, oc_RootVertexName oc) = Some vars"
        using rest None gv by (auto simp: bind_eq_Some_conv)
      show ?thesis
      proof (cases "GetVarInfo vars (ref_Value ref)")
        case vi: None
        then have "t = psRecord oc (Some (''variable not found in gvar dag, varName: '' @ ref_Value ref)) s1"
          using rest None vars gv by simp
        then show ?thesis by (simp add: adds_links_def clean_def refLinks_def vi vars None g0)
      next
        case vi: (Some vi)
        then have "connectVar oc d vi s1 = Some t" using rest None vars gv by simp
        from connectVar_adds [OF this p' g0] show ?thesis
          using Some True by (simp add: refLinks_def vi vars None g0)
      qed
    next
      case loc: (Some x)
      then show ?thesis using rest by (simp add: refLinks_def)
    qed
    show ?thesis using adds_links_trans [OF a b] by simp
  qed
qed

lemma connectRefs_adds:
  "connectRefs oc str s = Some t \<Longrightarrow> adds_links s t (stringLinks (ps_gvar s) oc str)"
  unfolding connectRefs_def stringLinks_def
  by (rule ofold_links [where g = "\<lambda>gv. refLinks gv oc"]) (auto intro: connectRef_adds)

lemma stringLinks_empty [simp]: "stringLinks gv oc '''' = {}"
  by (simp add: stringLinks_def GetReferences_def)

lemma connectRefs_opt:
  "(if str \<noteq> '''' then connectRefs oc str s else Some s) = Some t \<Longrightarrow>
   adds_links s t (stringLinks (ps_gvar s) oc str)"
  by (auto split: if_splits intro: connectRefs_adds)

lemma varLinks_local [simp]: "varLinks (oc\<lparr>oc_LocalVarName := n\<rparr>) g vi = varLinks oc g vi"
  by (simp add: varLinks_def ptrOf_def)

lemma stringLinks_local [simp]: "stringLinks gv (oc\<lparr>oc_LocalVarName := n\<rparr>) str = stringLinks gv oc str"
proof -
  have "refLinks gv (oc\<lparr>oc_LocalVarName := n\<rparr>) ref = refLinks gv oc ref" for ref
    by (auto simp: refLinks_def split: option.splits)
  then show ?thesis by (simp add: stringLinks_def)
qed

text \<open>The strings are visited one after the other.\<close>

definition stringsLinks :: "GlobalVariable \<Rightarrow> OriginContext \<Rightarrow> string list \<Rightarrow> (dagptr \<times> string \<times> string) set" where
  "stringsLinks gv oc strs = (\<Union>str \<in> set strs. stringLinks gv oc str)"

lemma stringsLinks_simps [simp]:
  "stringsLinks gv oc [] = {}"
  "stringsLinks gv oc (x # xs) = stringLinks gv oc x \<union> stringsLinks gv oc xs"
  "stringsLinks gv oc (xs @ ys) = stringsLinks gv oc xs \<union> stringsLinks gv oc ys"
  by (simp_all add: stringsLinks_def)

lemma adds_links_then:
  "adds_links s t (F (ps_gvar s)) \<Longrightarrow> adds_links t u (G (ps_gvar t)) \<Longrightarrow>
   adds_links s u (F (ps_gvar s) \<union> G (ps_gvar s))"
  using adds_links_gvar adds_links_trans by metis

lemma connect_vars_adds:
  "ofold (\<lambda>(n, x). connectRefs (oc\<lparr>oc_LocalVarName := n\<rparr>) x) vs s = Some t \<Longrightarrow>
   adds_links s t (stringsLinks (ps_gvar s) oc (map snd vs))"
  unfolding stringsLinks_def set_map UN_simps
  by (rule ofold_links [where g = "\<lambda>gv e. stringLinks gv oc (snd e)"])
    (auto dest: connectRefs_adds split: prod.splits)

lemma connectBlock_adds:
  "connectBlock oc b s = Some t \<Longrightarrow> adds_links s t (stringsLinks (ps_gvar s) oc (blockStrings b))"
  unfolding connectBlock_def walkBlock_strings stringsLinks_def
  by (rule ofold_links [where g = "\<lambda>gv. stringLinks gv oc"]) (auto intro: connectRefs_adds)

lemma connect_generic_adds:
  "ofold (\<lambda>(_, x). connectRefs oc x) vs s = Some t \<Longrightarrow>
   adds_links s t (stringsLinks (ps_gvar s) oc (map snd vs))"
  unfolding stringsLinks_def set_map UN_simps
  by (rule ofold_links [where g = "\<lambda>gv e. stringLinks gv oc (snd e)"])
    (auto dest: connectRefs_adds split: prod.splits)

lemma connect_selector_adds:
  assumes "ofold (\<lambda>(k, x) s. do { s \<leftarrow> connectRefs oc k s; connectRefs oc x s }) vs s = Some t"
  shows "adds_links s t (stringsLinks (ps_gvar s) oc (concat (map (\<lambda>(k, x). [k, x]) vs)))"
proof -
  have "adds_links s t (\<Union>e \<in> set vs. stringsLinks (ps_gvar s) oc [fst e, snd e])"
  proof (rule ofold_links [where g = "\<lambda>gv e. stringsLinks gv oc [fst e, snd e]", OF assms])
    fix e :: "string \<times> string" and u w :: pstate
    assume "(case e of (k, x) \<Rightarrow> \<lambda>s. do { s \<leftarrow> connectRefs oc k s; connectRefs oc x s }) u = Some w"
    then obtain m where 1: "connectRefs oc (fst e) u = Some m" and 2: "connectRefs oc (snd e) m = Some w"
      by (auto simp: split_def bind_eq_Some_conv)
    from adds_links_then [where F = "\<lambda>gv. stringLinks gv oc (fst e)" and
        G = "\<lambda>gv. stringLinks gv oc (snd e)", OF connectRefs_adds [OF 1] connectRefs_adds [OF 2]]
    show "adds_links u w (stringsLinks (ps_gvar u) oc [fst e, snd e])" by simp
  qed
  moreover have "(\<Union>e \<in> set vs. stringsLinks (ps_gvar s) oc [fst e, snd e]) =
      stringsLinks (ps_gvar s) oc (concat (map (\<lambda>(k, x). [k, x]) vs))"
    by (induction vs) auto
  ultimately show ?thesis by simp
qed

text \<open>The link of an input that is a resource.\<close>

definition resourceLinks :: "OriginContext \<Rightarrow> Input \<Rightarrow> (dagptr \<times> string \<times> string) set" where
  "resourceLinks oc inp =
     (if in_Resource inp \<noteq> []
      then linkTo oc (if oc_BlockIndex oc > 0 then oc_BlockVertexName oc else oc_RootVertexName oc) else {})"

lemma connectInput_adds:
  assumes "connectInput oc inp s = Some t"
  shows "adds_links s t (resourceLinks oc inp \<union> stringsLinks (ps_gvar s) oc (inputStrings inp))"
proof -
  obtain s1 s2 s3 s4 s5 where
    1: "(if length (in_Resource inp) \<noteq> 0 then do {
             d \<leftarrow> GetDAG oc (ps_cec s);
             (if oc_BlockIndex oc > 0 then psConnect d (oc_BlockVertexName oc) (oc_VertexName oc) s
              else psConnect d (oc_RootVertexName oc) (oc_VertexName oc) s) }
           else Some s) = Some s1" and
    2: "(if in_Key inp \<noteq> '''' then connectRefs oc (in_Key inp) s1 else Some s1) = Some s2" and
    3: "(if in_Value inp \<noteq> '''' then connectRefs oc (in_Value inp) s2 else Some s2) = Some s3" and
    4: "(if in_Expression inp \<noteq> '''' then connectRefs oc (in_Expression inp) s3 else Some s3) = Some s4" and
    5: "ofold (\<lambda>(_, x). connectRefs oc x) (in_GenericInput inp) s4 = Some s5" and
    6: "ofold (\<lambda>(k, x) s. do { s \<leftarrow> connectRefs oc k s; connectRefs oc x s }) (elems (in_Selector inp)) s5 = Some t"
    using assms unfolding connectInput_def bind_eq_Some_conv [of _ _ t] by blast
  have a: "adds_links s s1 (resourceLinks oc inp)"
  proof (cases "in_Resource inp = []")
    case True
    then show ?thesis using 1 by (simp add: resourceLinks_def)
  next
    case False
    obtain d where d: "GetDAG oc (ps_cec s) = Some d"
        "psConnect d (if oc_BlockIndex oc > 0 then oc_BlockVertexName oc else oc_RootVertexName oc)
          (oc_VertexName oc) s = Some s1"
      using 1 False by (auto simp: bind_eq_Some_conv split: if_splits)
    obtain g where g: "oc_GVK oc = Some g" "adds_links s s1
        {(ptrOf oc g, if oc_BlockIndex oc > 0 then oc_BlockVertexName oc else oc_RootVertexName oc, oc_VertexName oc)}"
      using GetDAG_connect [OF d] by blast
    show ?thesis using False g by (simp add: resourceLinks_def linkTo_def)
  qed
  note b = connectRefs_opt [OF 2] connectRefs_opt [OF 3] connectRefs_opt [OF 4]
    connect_generic_adds [OF 5] connect_selector_adds [OF 6]
  have gv: "ps_gvar s1 = ps_gvar s" "ps_gvar s2 = ps_gvar s" "ps_gvar s3 = ps_gvar s"
    "ps_gvar s4 = ps_gvar s" "ps_gvar s5 = ps_gvar s"
    using adds_links_gvar [OF a] b [THEN adds_links_gvar] by simp_all
  from adds_links_trans [OF adds_links_trans [OF adds_links_trans [OF adds_links_trans
    [OF adds_links_trans [OF a b(1)] b(2)] b(3)] b(4)] b(5)]
  have "adds_links s t (resourceLinks oc inp \<union> stringLinks (ps_gvar s) oc (in_Key inp) \<union>
      stringLinks (ps_gvar s) oc (in_Value inp) \<union> stringLinks (ps_gvar s) oc (in_Expression inp) \<union>
      stringsLinks (ps_gvar s) oc (map snd (in_GenericInput inp)) \<union>
      stringsLinks (ps_gvar s) oc (concat (map (\<lambda>(k, x). [k, x]) (elems (in_Selector inp)))))"
    unfolding gv .
  then show ?thesis by (simp add: inputStrings_def Un_assoc)
qed

lemma connectFunction_adds:
  assumes "connectFunction oc v s = Some t"
  shows "adds_links s t (functionLinks (ps_gvar s) oc v)"
proof -
  let ?vars = "stringsLinks (ps_gvar s) oc (map snd (fn_Vars v))"
  let ?block = "stringsLinks (ps_gvar s) oc (if HasBlock v then blockStrings (fn_Block v) else [])"
  let ?input = "case fn_Input v of None \<Rightarrow> {}
    | Some inp \<Rightarrow> resourceLinks oc inp \<union> stringsLinks (ps_gvar s) oc (inputStrings inp)"
  let ?own = "if oc_BlockIndex oc > 0 then linkTo oc (oc_BlockVertexName oc) else {}"
  let ?deps = "\<Union>u \<in> set (fn_DependsOn v). linkTo oc u"
  obtain s1 s2 s3 s4 where
    1: "ofold (\<lambda>(localVarName, x). connectRefs (oc\<lparr>oc_LocalVarName := localVarName\<rparr>) x) (fn_Vars v) s = Some s1" and
    2: "(if HasBlock v then connectBlock oc (fn_Block v) s1 else Some s1) = Some s2" and
    3: "(case fn_Input v of None \<Rightarrow> Some s2 | Some inp \<Rightarrow> connectInput oc inp s2) = Some s3" and
    4: "(if oc_BlockIndex oc > 0 then connectVertex oc (oc_BlockVertexName oc) s3 else Some s3) = Some s4" and
    5: "(if length (fn_DependsOn v) \<noteq> 0 then ofold (connectVertex oc) (fn_DependsOn v) s4 else Some s4) = Some t"
    using assms unfolding connectFunction_def bind_eq_Some_conv [of _ _ t] by blast
  have a: "adds_links s s1 ?vars" by (rule connect_vars_adds [OF 1])
  have g1: "ps_gvar s1 = ps_gvar s" using adds_links_gvar [OF a] .
  have b: "adds_links s1 s2 ?block" using 2 connectBlock_adds [of oc "fn_Block v" s1 s2] g1
    by (auto split: if_splits)
  have g2: "ps_gvar s2 = ps_gvar s" using adds_links_gvar [OF b] g1 by simp
  have c: "adds_links s2 s3 ?input" using 3 connectInput_adds [of oc _ s2 s3] g2
    by (auto split: option.splits)
  have g3: "ps_gvar s3 = ps_gvar s" using adds_links_gvar [OF c] g2 by simp
  have d: "adds_links s3 s4 ?own" using 4 connectVertex_adds [of oc _ s3 s4]
    by (auto split: if_splits)
  have deps: "ofold (connectVertex oc) (fn_DependsOn v) s4 = Some t" using 5 by (auto split: if_splits)
  have e: "adds_links s4 t ?deps"
    using ofold_links [OF deps, where g = "\<lambda>_. linkTo oc"] connectVertex_adds by blast
  from adds_links_trans [OF adds_links_trans [OF adds_links_trans [OF adds_links_trans [OF a b] c] d] e]
  have "adds_links s t (?vars \<union> ?block \<union> ?input \<union> ?own \<union> ?deps)" .
  moreover have "?vars \<union> ?block \<union> ?input \<union> ?own \<union> ?deps = functionLinks (ps_gvar s) oc v"
    by (cases "fn_Input v")
      (auto simp: functionLinks_def functionStrings_def resourceLinks_def stringsLinks_def)
  ultimately show ?thesis by simp
qed

lemma connect_event:
  assumes "handle (connectWalk K) cfg e s = Some t"
  shows "adds_links s t (eventLinks (ps_gvar s) e)"
proof (cases e)
  case (GvkObjectAt oc v)
  then have "t = psRecord oc (snd (GetGVK K (go_Resource v))) s"
    using assms by (auto simp: connectWalk_def connectGvk_def split_def Let_def)
  then show ?thesis by (auto simp: GvkObjectAt clean_def intro: adds_links_none)
next
  case (FunctionAt oc v)
  then show ?thesis using assms connectFunction_adds [of oc v s t]
    by (simp add: connectWalk_def call2_def)
qed (use assms in \<open>simp_all add: connectWalk_def noCallbacks_def call1_def call2_def\<close>)

lemma connect_adds:
  assumes "connect K cfg cec gvar = Some s"
  shows "adds_links \<lparr>ps_cec = cec, ps_gvar = gvar, ps_result = []\<rparr> s
    (\<Union>e \<in> set (configEvents (\<lambda>r. fst (GetGVK K r)) cfg). eventLinks gvar e)"
proof -
  have "ofold (handle (connectWalk K) cfg) (configEvents (\<lambda>r. fst (GetGVK K r)) cfg)
      \<lparr>ps_cec = cec, ps_gvar = gvar, ps_result = []\<rparr> = Some s"
    using assms by (simp add: connect_def runPhase_def connects.walk_events)
  from ofold_links [OF this, where g = eventLinks] connect_event show ?thesis by simp
qed

end
