(* ===== verification/Parser_Properties.thy ===== *)
theory Parser_Properties
  imports Parser_Links Dag_Reduction
begin

text \<open>
  The parser as a whole: which graphs \<open>Parse\<close> returns, when it does not return, and the
  configurations on which it panics or drops a dependency.
\<close>

section \<open>The graphs after init\<close>

definition empty_graphs :: "cfgExecContext \<Rightarrow> bool" where
  "empty_graphs r \<longleftrightarrow> (\<forall>p d. load p r = Some d \<longrightarrow> d = New)"

lemma load_put:
  "fow \<noteq> FOWService \<Longrightarrow> load (DagPtr fow' g' op' b) (putDAGCtx fow g op d r) =
     (if fow' = fow \<and> g' = g \<and> op' = op
      then (case b of None \<Rightarrow> Some (DAG d) | Some b \<Rightarrow> gget (BlockDAGs d) b)
      else load (DagPtr fow' g' op' b) r)"
  by (cases "fow' = fow") (auto split: option.splits)

lemma empty_graphs_ctx:
  assumes "empty_graphs r" and "gget (fowMap fow r) g = Some od" and "gget od op = Some d"
  shows "DAG d = New" and "gget (BlockDAGs d) b = Some x \<Longrightarrow> x = New"
proof -
  have "load (DagPtr fow g op None) r = Some (DAG d)" using assms(2,3) by simp
  then show "DAG d = New" using assms(1) unfolding empty_graphs_def by blast
  show "x = New" if "gget (BlockDAGs d) b = Some x"
  proof -
    have "load (DagPtr fow g op (Some b)) r = Some x" using assms(2,3) that by simp
    then show ?thesis using assms(1) unfolding empty_graphs_def by blast
  qed
qed

lemma empty_graphs_AddBlock:
  assumes "AddBlock oc r = Some (err, r')" and "empty_graphs r"
  shows "empty_graphs r'"
proof (cases "GetDAGCtx (oc_FOWS oc) (oc_GVK oc) (oc_Operation oc) r")
  case None
  then show ?thesis using assms(1) by (simp add: AddBlock_def)
next
  case (Some dctx)
  show ?thesis
  proof (cases dctx)
    case None
    then show ?thesis using assms Some by (simp add: AddBlock_def)
  next
    case d: (Some d)
    have fow: "oc_FOWS oc \<noteq> FOWService" using Some d by (auto simp: GetDAGCtx_def)
    obtain g where g: "oc_GVK oc = Some g" using Some fow by (auto simp: GetDAGCtx_def bind_eq_Some_conv)
    obtain od where od: "gget (fowMap (oc_FOWS oc) r) g = Some od" "gget od (oc_Operation oc) = Some d"
      using Some d g fow by (auto simp: GetDAGCtx_def split: option.splits)
    have r': "r' = putDAGCtx (oc_FOWS oc) g (oc_Operation oc)
        (d\<lparr>BlockDAGs := gput (oc_VertexName oc) New (BlockDAGs d)\<rparr>) r"
      using assms(1) Some d g by (simp add: AddBlock_def)
    note e = empty_graphs_ctx [OF assms(2) od]
    show ?thesis unfolding empty_graphs_def
    proof (intro allI impI)
      fix p x
      assume x: "load p r' = Some x"
      obtain fow' g' op' b where p: "p = DagPtr fow' g' op' b" by (cases p)
      show "x = New"
      proof (cases "fow' = oc_FOWS oc \<and> g' = g \<and> op' = oc_Operation oc")
        case True
        then show ?thesis using x e fow by (cases b) (auto simp: p r' load_put simp del: load.simps split: if_splits)
      next
        case False
        then have "load p r = Some x" using x fow by (auto simp: p r' load_put simp del: load.simps)
        then show ?thesis using assms(2) unfolding empty_graphs_def by blast
      qed
    qed
  qed
qed

lemma empty_graphs_Add:
  assumes "Add oc r = Some (err, r')" and "empty_graphs r"
  shows "empty_graphs r'"
proof -
  have new: "gget (fowMap fow r') g = Some od \<Longrightarrow> gget od op = Some d \<Longrightarrow>
      (DAG d = New \<and> BlockDAGs d = []) \<or> (\<exists>od. gget (fowMap fow r) g = Some od \<and> gget od op = Some d)"
    for fow g od op d
    using assms(1)
    by (cases "oc_FOWS oc"; cases fow)
      (auto simp: Add_def fowMap_def newRTDAGCtx_def bind_eq_Some_conv split: if_splits)
  show ?thesis unfolding empty_graphs_def
  proof (intro allI impI)
    fix p x
    assume x: "load p r' = Some x"
    obtain fow g op b where p: "p = DagPtr fow g op b" by (cases p)
    obtain od d where od: "gget (fowMap fow r') g = Some od" "gget od op = Some d"
      and b: "(case b of None \<Rightarrow> Some (DAG d) | Some b \<Rightarrow> gget (BlockDAGs d) b) = Some x"
      using x by (auto simp: p bind_eq_Some_conv)
    from new [OF od] show "x = New"
    proof (elim disjE exE conjE)
      show "x = New" if "DAG d = New" "BlockDAGs d = []"
        using b that by (auto split: option.splits)
      show "x = New" if o: "gget (fowMap fow r) g = Some od'" "gget od' op = Some d" for od'
        using b empty_graphs_ctx [OF assms(2) o] by (auto split: option.splits)
    qed
  qed
qed

text \<open>What init leaves: empty graphs, no own resource, and for a watched one the graph of the apply operation and no other.\<close>

definition init_shape :: "cfgExecContext \<Rightarrow> bool" where
  "init_shape r \<longleftrightarrow> empty_graphs r \<and> cec_wf r \<and> cec_own r = [] \<and>
     (\<forall>g od op. gget (cec_watch r) g = Some od \<longrightarrow> op \<noteq> OperationApply \<longrightarrow> gget od op = None) \<and>
     (\<forall>g od. gget (cec_watch r) g = Some od \<longrightarrow> gget od OperationApply \<noteq> None)"

lemma init_shape_own: "init_shape r \<Longrightarrow> load (DagPtr FOWOwn g op b) r = None"
  by (simp add: init_shape_def fowMap_def)

lemma init_shape_watch:
  "init_shape r \<Longrightarrow> op \<noteq> OperationApply \<Longrightarrow> load (DagPtr FOWWatch g op b) r = None"
  by (cases "gget (cec_watch r) g") (auto simp: init_shape_def fowMap_def)

lemma cec_wf_Add:
  assumes "Add oc r = Some (err, r')" and "cec_wf r"
  shows "cec_wf r'"
proof -
  have "gwf (fowMap f r)" for f using assms(2) by (simp add: cec_wf_def del: distinct_map)
  from this [of FOWFor] this [of FOWOwn] this [of FOWWatch]
  have "gwf (cec_For r)" "gwf (cec_own r)" "gwf (cec_watch r)" by (simp_all add: fowMap_def del: distinct_map)
  then have "gwf (fowMap f r')" for f using assms(1)
    by (cases "oc_FOWS oc"; cases f)
      (auto simp: Add_def fowMap_def bind_eq_Some_conv simp del: distinct_map)
  moreover have "gwf od" if "gget (fowMap f r') g = Some od" for f g od
  proof -
    have "gget (fowMap f r) g = Some od \<or> gwf od" using assms(1) that
      by (cases "oc_FOWS oc"; cases f)
        (auto simp: Add_def fowMap_def bind_eq_Some_conv split: if_splits)
    then show ?thesis using assms(2) by (auto simp: cec_wf_def)
  qed
  ultimately show ?thesis by (simp add: cec_wf_def)
qed

lemma init_shape_Add:
  assumes "Add oc r = Some (err, r')" and "init_shape r" and "oc_FOWS oc \<noteq> FOWOwn"
  shows "init_shape r'"
  using assms empty_graphs_Add [OF assms(1)] cec_wf_Add [OF assms(1)]
  by (cases "oc_FOWS oc") (auto simp: init_shape_def Add_def bind_eq_Some_conv split: if_splits)

lemma init_shape_AddBlock:
  assumes "AddBlock oc r = Some (err, r')" and "init_shape r"
  shows "init_shape r'"
proof -
  have e: "empty_graphs r'" using empty_graphs_AddBlock [OF assms(1)] assms(2) by (simp add: init_shape_def)
  have "cec_own r' = [] \<and>
     (\<forall>g od op. gget (cec_watch r') g = Some od \<longrightarrow> op \<noteq> OperationApply \<longrightarrow> gget od op = None) \<and>
     (\<forall>g od. gget (cec_watch r') g = Some od \<longrightarrow> gget od OperationApply \<noteq> None)"
    using assms
    by (cases "oc_FOWS oc")
      (auto simp: AddBlock_def GetDAGCtx_def fowMap_def putDAGCtx_def Let_def init_shape_def bind_eq_Some_conv
        split: option.splits if_splits)
  moreover have "cec_wf r'"
  proof (cases "r' = r")
    case True
    then show ?thesis using assms(2) by (simp add: init_shape_def)
  next
    case False
    then obtain g d where "r' = putDAGCtx (oc_FOWS oc) g (oc_Operation oc) d r" "oc_FOWS oc \<noteq> FOWService"
      using assms(1) by (auto simp: AddBlock_def GetDAGCtx_def bind_eq_Some_conv split: option.splits if_splits)
    then show ?thesis using assms(2) cec_wf_put by (simp add: init_shape_def)
  qed
  ultimately show ?thesis using e by (simp add: init_shape_def)
qed

lemma init_event:
  assumes "handle (initWalk K) cfg e s = Some t" and "init_shape (ps_cec s)"
  shows "init_shape (ps_cec t)"
proof (cases e)
  case (GvkObjectAt oc v)
  then obtain g where "initGvk K oc v s = Some (g, t)" using assms(1) by (auto simp: initWalk_def)
  then show ?thesis using assms(2)
    by (auto simp: initGvk_def Let_def split_def bind_eq_Some_conv init_shape_Add split: if_splits)
next
  case (BlockElementAt oc fe)
  then have "initFunctionBlock oc fe s = Some t" using assms(1) by (simp add: initWalk_def call2_def)
  then show ?thesis using assms(2)
    by (auto simp: initFunctionBlock_def Let_def split_def bind_eq_Some_conv init_shape_AddBlock split: if_splits)
qed (use assms in \<open>simp_all add: initWalk_def noCallbacks_def call1_def call2_def\<close>)

lemma init_init_shape:
  assumes "init K cfg = Some (cec, gvar, rs)"
  shows "init_shape cec"
proof -
  let ?s0 = "\<lparr>ps_cec = NewConfigExecutionContext (cc_Name cfg), ps_gvar = NewGlobalVariable (cc_Name cfg),
    ps_result = []\<rparr>"
  obtain s where s: "walkLcncConfig (initWalk K) cfg ?s0 = Some s" "cec = ps_cec s"
    using assms by (auto simp: init_def bind_eq_Some_conv)
  have "load p (NewConfigExecutionContext (cc_Name cfg)) = None" for p
    by (cases p; rename_tac fow g op b; case_tac fow)
      (simp_all add: NewConfigExecutionContext_def fowMap_def)
  moreover have "cec_wf (NewConfigExecutionContext (cc_Name cfg))"
    unfolding cec_wf_def by (intro allI, rename_tac f, case_tac f)
      (simp_all add: NewConfigExecutionContext_def fowMap_def)
  ultimately have "init_shape (ps_cec ?s0)"
    by (simp add: init_shape_def empty_graphs_def)
      (simp add: NewConfigExecutionContext_def)
  from ofold_inv [where P = "\<lambda>s. init_shape (ps_cec s)", OF s(1) [unfolded inits.walk_events] this]
  show ?thesis using init_event s(2) by blast
qed

lemma init_name_event:
  assumes "handle (initWalk K) cfg e s = Some t"
  shows "cec_name (ps_cec t) = cec_name (ps_cec s)"
proof (cases e)
  case (GvkObjectAt oc v)
  then obtain g where "initGvk K oc v s = Some (g, t)" using assms by (auto simp: initWalk_def)
  then show ?thesis
    by (auto simp: initGvk_def Let_def split_def bind_eq_Some_conv Add_def split: if_splits FOWS.splits)
next
  case (BlockElementAt oc fe)
  then have "initFunctionBlock oc fe s = Some t" using assms by (simp add: initWalk_def call2_def)
  then show ?thesis
    by (auto simp: initFunctionBlock_def AddBlock_def Let_def split_def bind_eq_Some_conv split: if_splits option.splits)
qed (use assms in \<open>simp_all add: initWalk_def noCallbacks_def call1_def call2_def\<close>)

lemma init_name:
  assumes "init K cfg = Some (cec, gvar, rs)"
  shows "cec_name cec = cc_Name cfg"
proof -
  let ?s0 = "\<lparr>ps_cec = NewConfigExecutionContext (cc_Name cfg), ps_gvar = NewGlobalVariable (cc_Name cfg), ps_result = []\<rparr>"
  obtain s where s: "walkLcncConfig (initWalk K) cfg ?s0 = Some s" "cec = ps_cec s"
    using assms by (auto simp: init_def bind_eq_Some_conv)
  have "cec_name (ps_cec ?s0) = cc_Name cfg" by (simp add: NewConfigExecutionContext_def)
  from ofold_inv [where P = "\<lambda>s. cec_name (ps_cec s) = cc_Name cfg", OF s(1) [unfolded inits.walk_events] this]
  show ?thesis using init_name_event s(2) by metis
qed

lemma init_shape_empty: "init_shape r \<Longrightarrow> verts r = {} \<and> links r = {} \<and> graphs_ok r"
proof -
  assume "init_shape r"
  then have "load p r = Some d \<Longrightarrow> d = New" for p d unfolding init_shape_def empty_graphs_def by blast
  then show ?thesis unfolding verts_def links_def graphs_ok_def vnames_def by force
qed

section \<open>The reduction of every graph\<close>

text \<open>An order for every graph.\<close>

definition all_orders_ok :: "(dagptr \<Rightarrow> orders) \<Rightarrow> bool" where
  "all_orders_ok ord \<longleftrightarrow> (\<forall>p. orders_ok (ord p))"

lemma all_orders_okD: "all_orders_ok ord \<Longrightarrow> orders_ok (ord p)"
  by (simp add: all_orders_ok_def)

lemma all_orders_ok_id: "all_orders_ok (\<lambda>_. id_orders)"
  by (simp add: all_orders_ok_def id_orders_ok)

definition reduces :: "cfgExecContext \<Rightarrow> cfgExecContext \<Rightarrow> bool" where
  "reduces r r' \<longleftrightarrow> (\<forall>p. rel_option shrinks (load p r) (load p r'))"

lemma reduces_forth:
  assumes "reduces r r'" and "load p r = Some d"
  obtains d' where "load p r' = Some d'" "shrinks d d'"
proof -
  have "rel_option shrinks (load p r) (load p r')" using assms(1) unfolding reduces_def ..
  then show ?thesis using that assms(2) by (cases "load p r'") auto
qed

lemma reduces_back:
  assumes "reduces r r'" and "load p r' = Some d'"
  obtains d where "load p r = Some d" "shrinks d d'"
proof -
  have "rel_option shrinks (load p r) (load p r')" using assms(1) unfolding reduces_def ..
  then show ?thesis using that assms(2) by (cases "load p r") auto
qed

lemma reduces_refl: "reduces r r"
  unfolding reduces_def by (auto intro: option.rel_refl shrinks_refl)

lemma reduces_trans: "reduces r s \<Longrightarrow> reduces s t \<Longrightarrow> reduces r t"
  unfolding reduces_def
proof
  fix p
  assume "\<forall>p. rel_option shrinks (load p r) (load p s)" "\<forall>p. rel_option shrinks (load p s) (load p t)"
  then have "rel_option shrinks (load p r) (load p s)" "rel_option shrinks (load p s) (load p t)" by blast+
  then show "rel_option shrinks (load p r) (load p t)"
    by (cases "load p r"; cases "load p s"; cases "load p t") (auto intro: shrinks_trans)
qed

lemma reduceAt_reduces:
  assumes "reduceAt ord fuel p r = Some r'" and "all_orders_ok ord"
  shows "reduces r r'"
proof -
  obtain d d' where d: "load p r = Some d" "TransitiveReduction (ord p) fuel d = Some d'" "r' = store p d' r"
    using assms(1) by (auto simp: reduceAt_def bind_eq_Some_conv)
  have sh: "shrinks d d'" by (rule TransitiveReduction_shrinks [OF d(2) all_orders_okD [OF assms(2)]])
  show ?thesis unfolding reduces_def
  proof
    fix q
    have "load p r \<noteq> None" using d(1) by simp
    from load_store [OF this, of q d'] show "rel_option shrinks (load q r) (load q r')"
      unfolding d(3) using d(1) sh by (auto intro: option.rel_refl shrinks_refl)
  qed
qed

lemma transitivereduction_reduces:
  assumes "transitivereduction ord fuel r = Some r'" and "all_orders_ok ord"
  shows "reduces r r'"
proof -
  obtain m where m: "ofold (reduceAt ord fuel) (dagPtrs FOWFor r) r = Some m"
      "ofold (reduceAt ord fuel) (dagPtrs FOWWatch m) m = Some r'"
    using assms(1) by (auto simp: transitivereduction_def bind_eq_Some_conv)
  note rel = ofold_rel [where R = reduces, OF _ reduces_refl reduces_trans reduceAt_reduces [OF _ assms(2)]]
  have "reduces r m" by (rule rel [OF m(1)])
  moreover have "reduces m r'" by (rule rel [OF m(2)])
  ultimately show ?thesis by (rule reduces_trans)
qed

lemma reduces_verts:
  assumes "reduces r r'"
  shows "verts r' = verts r"
proof (intro equalityI subsetI)
  fix x
  assume "x \<in> verts r'"
  then obtain p v d' where x: "x = (p, v)" "load p r' = Some d'" "v \<in> vnames d'"
    by (auto simp: verts_def)
  obtain d where "load p r = Some d" "shrinks d d'" using assms x(2) by (rule reduces_back)
  then show "x \<in> verts r" using x by (auto simp: verts_def vnames_def shrinks_def)
next
  fix x
  assume "x \<in> verts r"
  then obtain p v d where x: "x = (p, v)" "load p r = Some d" "v \<in> vnames d"
    by (auto simp: verts_def)
  obtain d' where "load p r' = Some d'" "shrinks d d'" using assms x(2) by (rule reduces_forth)
  then show "x \<in> verts r'" using x by (auto simp: verts_def vnames_def shrinks_def)
qed

lemma reduces_links:
  assumes "reduces r r'"
  shows "links r' \<subseteq> links r"
proof
  fix l
  assume "l \<in> links r'"
  then obtain p u v d' where l: "l = (p, u, v)" "load p r' = Some d'" "(u, v) \<in> edges d'"
    by (auto simp: links_def)
  obtain d where "load p r = Some d" "shrinks d d'" using assms l(2) by (rule reduces_back)
  then show "l \<in> links r" using l by (auto simp: links_def shrinks_def)
qed

lemma reduces_ok:
  assumes "reduces r r'" and "graphs_ok r"
  shows "graphs_ok r'"
  unfolding graphs_ok_def
proof (intro allI impI)
  fix p d'
  assume d': "load p r' = Some d'"
  obtain d where d: "load p r = Some d" "shrinks d d'" using assms(1) d' by (rule reduces_back)
  then have "dag_ok d" using assms(2) by (simp add: graphs_ok_def)
  then show "dag_ok d'" using d(2) by (simp add: shrinks_def)
qed

lemma reduces_Range:
  assumes "reduces r r'" and "graphs_ok r" and "(p, u, v) \<in> links r"
  shows "\<exists>u. (p, u, v) \<in> links r'"
proof -
  obtain d where d: "load p r = Some d" "(u, v) \<in> edges d" using assms(3) by (auto simp: links_def)
  obtain d' where d': "load p r' = Some d'" "shrinks d d'" using assms(1) d(1) by (rule reduces_forth)
  have "dag_ok d" using assms(2) d(1) by (simp add: graphs_ok_def)
  then have "Range (edges d') = Range (edges d)" using d'(2) by (simp add: shrinks_def)
  then have "v \<in> Range (edges d')" using d(2) by auto
  then show ?thesis using d' by (auto simp: links_def)
qed

section \<open>The steps of Parse\<close>

lemma resolve_unchanged:
  "resolve cCfg cec gvar = Some \<lparr>ps_cec = cec, ps_gvar = gvar, ps_result = []\<rparr>"
proof -
  have "gvkObjectFn resolveWalk = None" "serviceFn resolveWalk = None" "cfgPreHookFn resolveWalk = None"
    "cfgPostHookFn resolveWalk = None"
    by (simp_all add: resolveWalk_def noCallbacks_def)
  then have "walkGvkObjects resolveWalk cCfg fow vs s = Some s" "walkServices resolveWalk cCfg s = Some s"
    "call1 (cfgPreHookFn resolveWalk) cCfg s = Some s" "call1 (cfgPostHookFn resolveWalk) cCfg s = Some s"
    for fow vs s
    by (simp_all add: walkGvkObjects_def walkServices_def call1_def processGvkObject_def split_def ofold_skip)
  then show ?thesis by (simp add: resolve_def runPhase_def walkLcncConfig_def)
qed

text \<open>The phases before the reduction, when none records a result.\<close>

definition build :: "k8slib \<Rightarrow> ControllerConfig \<Rightarrow> (GlobalVariable \<times> cfgExecContext) option" where
  "build K cfg =
     (case init K cfg of
        Some (c, g, []) \<Rightarrow>
          (case populate K cfg c g of
             Some p \<Rightarrow>
               if clean p
               then (case connect K cfg (ps_cec p) (ps_gvar p) of
                       Some s \<Rightarrow> if clean s then Some (ps_gvar p, ps_cec s) else None
                     | None \<Rightarrow> None)
               else None
           | None \<Rightarrow> None)
      | _ \<Rightarrow> None)"

lemma buildE:
  assumes "build K cfg = Some (gvar, ctx)"
  obtains c g p s where "init K cfg = Some (c, g, [])" "populate K cfg c g = Some p" "clean p"
    "gvar = ps_gvar p" "connect K cfg (ps_cec p) (ps_gvar p) = Some s" "clean s" "ctx = ps_cec s"
  using assms that by (auto simp: build_def split: option.splits prod.splits list.splits if_splits)

lemma Parse_build: "build K cfg = Some (gvar, ctx) \<Longrightarrow>
  Parse K ord fuel cfg = map_option (\<lambda>r. (Some r, [])) (transitivereduction ord fuel ctx)"
  by (elim buildE) (auto simp: Parse_def resolve_unchanged clean_def map_conv_bind_option o_def)

lemma Parse_context:
  assumes "Parse K ord fuel cfg = Some (Some ctx, rs)"
  obtains gvar c where "build K cfg = Some (gvar, c)" "transitivereduction ord fuel c = Some ctx" "rs = []"
proof -
  obtain c g r0 where 1: "init K cfg = Some (c, g, r0)"
    using assms by (auto simp: Parse_def bind_eq_Some_conv)
  have r0: "r0 = []" using assms 1 by (auto simp: Parse_def split: if_splits)
  obtain p where 2: "populate K cfg c g = Some p"
    using assms 1 r0 by (auto simp: Parse_def bind_eq_Some_conv)
  have p: "clean p" using assms 1 2 r0 by (auto simp: Parse_def clean_def split: if_splits)
  obtain s where 3: "connect K cfg (ps_cec p) (ps_gvar p) = Some s"
    using assms 1 2 r0 p by (auto simp: Parse_def clean_def resolve_unchanged bind_eq_Some_conv)
  have s: "clean s" using assms 1 2 3 r0 p
    by (auto simp: Parse_def clean_def resolve_unchanged split: if_splits)
  have b: "build K cfg = Some (ps_gvar p, ps_cec s)" using 1 2 3 r0 p s by (simp add: build_def)
  show ?thesis using that [OF b] assms Parse_build [OF b, of ord fuel] by auto
qed

lemma build_graphs:
  assumes "build K cfg = Some (gvar, ctx)"
  shows "verts ctx = (\<Union>e \<in> set (configEvents (\<lambda>r. fst (GetGVK K r)) cfg). eventVertices (\<lambda>r. fst (GetGVK K r)) e)"
    and "links ctx = (\<Union>e \<in> set (configEvents (\<lambda>r. fst (GetGVK K r)) cfg). eventLinks gvar e)"
    and "graphs_ok ctx"
proof -
  obtain c g p s where 1: "init K cfg = Some (c, g, [])" and 2: "populate K cfg c g = Some p" "clean p"
    "gvar = ps_gvar p" and 3: "connect K cfg (ps_cec p) (ps_gvar p) = Some s" "clean s" "ctx = ps_cec s"
    using assms by (elim buildE)
  note c = init_shape_empty [OF init_init_shape [OF 1]]
  note p = populate_adds [OF 2(1)]
  note s = connect_adds [OF 3(1)]
  show "verts ctx = (\<Union>e \<in> set (configEvents (\<lambda>r. fst (GetGVK K r)) cfg). eventVertices (\<lambda>r. fst (GetGVK K r)) e)"
    using c p s 2(2) 3 by (simp add: adds_vertices_def adds_links_def)
  show "links ctx = (\<Union>e \<in> set (configEvents (\<lambda>r. fst (GetGVK K r)) cfg). eventLinks gvar e)"
    using c p s 2 3 by (simp add: adds_vertices_def adds_links_def)
  show "graphs_ok ctx" using c p s 2(2) 3 by (simp add: adds_vertices_def adds_links_def)
qed

section \<open>The kinds of a parsed configuration\<close>

lemma reduceAt_shape: "reduceAt ord fuel p r = Some r' \<Longrightarrow> same_shape r r'"
  by (auto simp: reduceAt_def bind_eq_Some_conv intro!: same_shape_store)

lemma transitivereduction_shape:
  assumes "transitivereduction ord fuel r = Some r'"
  shows "same_shape r r'"
proof -
  obtain m where m: "ofold (reduceAt ord fuel) (dagPtrs FOWFor r) r = Some m"
      "ofold (reduceAt ord fuel) (dagPtrs FOWWatch m) m = Some r'"
    using assms by (auto simp: transitivereduction_def bind_eq_Some_conv)
  note rel = ofold_rel [where R = same_shape, OF _ same_shape_refl same_shape_trans reduceAt_shape]
  from same_shape_trans [OF rel [OF m(1)] rel [OF m(2)]] show ?thesis .
qed

text \<open>A parsed configuration keeps its name, has no owned kind, and every watched kind has a graph for the apply
  operation.\<close>

lemma Parse_kinds:
  assumes "Parse K ord fuel cfg = Some (Some ctx, rs)"
  shows "cec_own ctx = []" "cec_name ctx = cc_Name cfg" "(g, od) \<in> set (cec_watch ctx) \<Longrightarrow> gget od OperationApply \<noteq> None"
proof -
  obtain gvar c' where b: "build K cfg = Some (gvar, c')" "transitivereduction ord fuel c' = Some ctx"
    using assms by (rule Parse_context)
  obtain c gv p s where 1: "init K cfg = Some (c, gv, [])" and 2: "populate K cfg c gv = Some p" "clean p"
    and 3: "connect K cfg (ps_cec p) (ps_gvar p) = Some s" "clean s" "c' = ps_cec s"
    using b(1) by (elim buildE)
  have c: "init_shape c" by (rule init_init_shape [OF 1])
  have sh: "same_shape c ctx"
    using same_shape_trans [OF same_shape_trans] transitivereduction_shape [OF b(2)] populate_adds [OF 2(1)] connect_adds [OF 3(1)] 2(2) 3(2,3)
    by (auto simp: adds_vertices_def adds_links_def)
  have "gkeys (fowMap FOWOwn ctx) = gkeys (fowMap FOWOwn c)" using sh unfolding same_shape_def by blast
  then show "cec_own ctx = []" using c by (simp add: fowMap_def init_shape_def)
  show "cec_name ctx = cc_Name cfg" using sh init_name [OF 1] by (simp add: same_shape_def)
  have wf: "cec_wf ctx" using sh c by (simp add: same_shape_def init_shape_def)
  assume "(g, od) \<in> set (cec_watch ctx)"
  moreover have "gwf (fowMap FOWWatch ctx)" using wf unfolding cec_wf_def by blast
  ultimately have od: "gget (cec_watch ctx) g = Some od" by (simp add: fowMap_def)
  have "gkeys (fowMap FOWWatch ctx) = gkeys (fowMap FOWWatch c)" using sh unfolding same_shape_def by blast
  then have "g \<in> set (gkeys (cec_watch c))" using gget_Some_key [OF od] by (simp add: fowMap_def)
  then obtain od' where "gget (cec_watch c) g = Some od'" by (cases "gget (cec_watch c) g") (auto simp: gget_None_iff)
  then have "load (DagPtr FOWWatch g OperationApply None) c \<noteq> None"
    using c by (auto simp: init_shape_def fowMap_def bind_eq_None_conv)
  then have "load (DagPtr FOWWatch g OperationApply None) ctx \<noteq> None"
    using sh by (simp add: same_shape_def del: load.simps)
  then show "gget od OperationApply \<noteq> None" using od by (auto simp: fowMap_def bind_eq_None_conv)
qed

end
