(* ===== verification/Parser_Theorems.thy ===== *)
theory Parser_Theorems
  imports Parser_Properties
begin

text \<open>
  The theorems about \<open>Parse\<close> and \<open>GetExternalResources\<close>: the graphs that come out, when the call
  returns, and the configurations that validate but make it panic, never return, or lose a
  dependency.
\<close>

section \<open>Sample configurations\<close>

text \<open>A decoder for which a resource is its kind, in group g and version v1.\<close>

definition sampleK :: k8slib where
  "sampleK = \<lparr>unmarshalTypeMeta = (\<lambda>r. Inr (''g/v1'', r)), ParseGroupVersion = (\<lambda>_. Inr (''g'', ''v1''))\<rparr>"

definition kind :: "string \<Rightarrow> gvk" where
  "kind k = \<lparr>gvk_Group = ''g'', gvk_Version = ''v1'', gvk_Kind = k\<rparr>"

definition task :: "string list \<Rightarrow> FunctionElement option" where
  "task deps = Some (FunctionElement
     (Function0\<lparr>fn_Type := ContainerType, fn_Executor := \<lparr>ex_Image = ''i'', ex_Exec = ''''\<rparr>,
        fn_Input := Some Input0, fn_DependsOn := deps\<rparr>) [])"

definition object :: "string \<Rightarrow> string \<Rightarrow> string \<Rightarrow> GvkObject" where
  "object r applyRef deleteRef =
     \<lparr>go_Resource = r, go_ApplyPipelineRef = applyRef, go_DeletePipelineRef = deleteRef\<rparr>"

definition pipelineOf :: "string \<Rightarrow> (string, FunctionElement option) gmap \<Rightarrow> Pipeline" where
  "pipelineOf n tasks = \<lparr>pl_Name = n, pl_Vars = [], pl_Tasks = tasks\<rparr>"

text \<open>One resource \<open>r\<close> with an apply pipeline of the given tasks, and an empty delete pipeline.\<close>

definition oneFor :: "(string, FunctionElement option) gmap \<Rightarrow> ControllerConfig" where
  "oneFor tasks = \<lparr>cc_Name = ''c'', cc_For = [(''r'', object ''A'' ''p'' ''d'')], cc_Own = [], cc_Watch = [],
     cc_Pipelines = [pipelineOf ''p'' tasks, pipelineOf ''d'' []], cc_Services = []\<rparr>"

abbreviation applyPtr :: dagptr where
  "applyPtr \<equiv> DagPtr FOWFor (kind ''A'') OperationApply None"

section \<open>The graphs Parse returns\<close>

lemma parsed_graphs:
  assumes "Parse K ord fuel cfg = Some (Some ctx, rs)" and "all_orders_ok ord"
    and "build K cfg = Some (gvar, ctx0)"
  defines "es \<equiv> set (configEvents (\<lambda>r. fst (GetGVK K r)) cfg)"
  shows "rs = [] \<and> graphs_ok ctx \<and>
    verts ctx = (\<Union>e \<in> es. eventVertices (\<lambda>r. fst (GetGVK K r)) e) \<and>
    links ctx \<subseteq> (\<Union>e \<in> es. eventLinks gvar e) \<and>
    (\<forall>p v. (\<exists>u. (p, u, v) \<in> links ctx) \<longleftrightarrow> (\<exists>u. (p, u, v) \<in> (\<Union>e \<in> es. eventLinks gvar e)))"
proof -
  note b = build_graphs [OF assms(3), folded es_def]
  have rs: "rs = []" and tr: "transitivereduction ord fuel ctx0 = Some ctx"
    using Parse_build [OF assms(3), of ord fuel] assms(1)
    by (cases "transitivereduction ord fuel ctx0"; simp)+
  have red: "reduces ctx0 ctx" by (rule transitivereduction_reduces [OF tr assms(2)])
  have sub: "links ctx \<subseteq> (\<Union>e \<in> es. eventLinks gvar e)"
    using reduces_links [OF red] b(2) by simp
  have "(\<exists>u. (p, u, v) \<in> links ctx) \<longleftrightarrow> (\<exists>u. (p, u, v) \<in> (\<Union>e \<in> es. eventLinks gvar e))" for p v
  proof
    assume "\<exists>u. (p, u, v) \<in> links ctx"
    then show "\<exists>u. (p, u, v) \<in> (\<Union>e \<in> es. eventLinks gvar e)" using sub by (meson subsetD)
  next
    assume "\<exists>u. (p, u, v) \<in> (\<Union>e \<in> es. eventLinks gvar e)"
    then obtain u where "(p, u, v) \<in> links ctx0" unfolding b(2) ..
    then show "\<exists>u. (p, u, v) \<in> links ctx" by (rule reduces_Range [OF red b(3)])
  qed
  then show ?thesis using rs reduces_ok [OF red b(3)] reduces_verts [OF red] b(1) sub by simp
qed

text \<open>C1: when Parse returns an execution context, its graphs are well-formed; their vertices are
  exactly the ones the resources and functions of the configuration stand for, each in the graph
  of its resource, operation and block; every edge is one that the references, inputs, blocks and
  dependsOn lists of the configuration ask for; and every vertex for which the configuration asks
  for a predecessor still has one after the reduction.\<close>

theorem Parse_graphs:
  assumes "Parse K ord fuel cfg = Some (Some ctx, rs)" and "all_orders_ok ord"
    and "build K cfg = Some (gvar, ctx0)"
  defines "es \<equiv> set (configEvents (\<lambda>r. fst (GetGVK K r)) cfg)"
  shows "rs = [] \<and> graphs_ok ctx \<and>
    verts ctx = (\<Union>e \<in> es. eventVertices (\<lambda>r. fst (GetGVK K r)) e) \<and>
    links ctx \<subseteq> (\<Union>e \<in> es. eventLinks gvar e) \<and>
    (\<forall>p v. (\<exists>u. (p, u, v) \<in> links ctx) \<longleftrightarrow> (\<exists>u. (p, u, v) \<in> (\<Union>e \<in> es. eventLinks gvar e)))"
  using parsed_graphs [OF assms(1-3)] unfolding es_def .

text \<open>Two tasks, the second depends on the first and on the resource.\<close>

definition chainCfg :: ControllerConfig where
  "chainCfg = oneFor [(''x'', task []), (''y'', task [''x'', ''r''])]"

lemma chainCfg_build: "\<exists>gvar ctx. build sampleK chainCfg = Some (gvar, ctx)"
proof -
  have "(case build sampleK chainCfg of None \<Rightarrow> False | Some _ \<Rightarrow> True)" by code_simp
  then show ?thesis by (auto split: option.splits)
qed

theorem Parse_graphs_witness:
  "\<exists>ctx. Parse sampleK (\<lambda>_. id_orders) 9 chainCfg = Some (Some ctx, []) \<and> graphs_ok ctx"
proof -
  have "map_option (\<lambda>(c, rs). case c of None \<Rightarrow> False | Some _ \<Rightarrow> True)
      (Parse sampleK (\<lambda>_. id_orders) 9 chainCfg) = Some True"
    by code_simp
  then obtain ctx rs where p: "Parse sampleK (\<lambda>_. id_orders) 9 chainCfg = Some (Some ctx, rs)"
    by (auto split: option.splits)
  obtain gvar ctx0 where b: "build sampleK chainCfg = Some (gvar, ctx0)" using chainCfg_build by blast
  from Parse_graphs [OF p all_orders_ok_id b] p show ?thesis by blast
qed

section \<open>When Parse returns\<close>

lemma GetFOW_fowMap: "GetFOW fow r = fowMap fow r"
  by (simp add: GetFOW_def)

lemma dagPtrs_iff:
  "p \<in> set (dagPtrs fow r) \<longleftrightarrow>
   (\<exists>e \<in> set (fowMap fow r). \<exists>y \<in> set (snd e). p = DagPtr fow (fst e) (fst y) None \<or>
      (\<exists>n \<in> set (gkeys (BlockDAGs (snd y))). p = DagPtr fow (fst e) (fst y) (Some n)))"
  by (simp add: dagPtrs_def GetFOW_fowMap split_def image_iff)

lemma load_dagPtrs:
  assumes "load (DagPtr fow g op b) r = Some d"
  shows "DagPtr fow g op b \<in> set (dagPtrs fow r)"
proof -
  obtain od x where od: "gget (fowMap fow r) g = Some od" "gget od op = Some x"
    and b: "(case b of None \<Rightarrow> Some (DAG x) | Some b \<Rightarrow> gget (BlockDAGs x) b) = Some d"
    using assms by (auto simp: bind_eq_Some_conv)
  have m: "(g, od) \<in> set (fowMap fow r)" "(op, x) \<in> set od" using od by (auto dest: map_of_SomeD)
  have "b = None \<or> (\<exists>n \<in> set (gkeys (BlockDAGs x)). b = Some n)"
    using b gget_Some_key [of "BlockDAGs x" _ d] by (cases b) auto
  then show ?thesis
    unfolding dagPtrs_iff by (intro bexI [OF _ m(1)] bexI [of _ "(op, x)"]) (use m(2) in auto)
qed

lemma dagPtrs_load:
  assumes "p \<in> set (dagPtrs fow r)" and "cec_wf r"
  shows "load p r \<noteq> None"
proof -
  obtain g od op x where od: "(g, od) \<in> set (fowMap fow r)" "(op, x) \<in> set od"
    and p: "p = DagPtr fow g op None \<or> (\<exists>b \<in> set (gkeys (BlockDAGs x)). p = DagPtr fow g op (Some b))"
    using assms(1) unfolding dagPtrs_iff by (metis prod.collapse)
  have wf: "gwf (fowMap fow r)" "gget (fowMap fow r) g = Some od \<Longrightarrow> gwf od"
    using assms(2) by (auto simp: cec_wf_def)
  have g: "gget (fowMap fow r) g = Some od" using wf(1) od(1) by simp
  then have x: "gget od op = Some x" using wf(2) od(2) by simp
  have "gget (BlockDAGs x) b \<noteq> None" if "b \<in> set (gkeys (BlockDAGs x))" for b
    using that gget_None_iff [of "BlockDAGs x" b] by blast
  then show ?thesis using g p x by (auto simp del: set_map)
qed

lemma dagPtrs_fow: "p \<in> set (dagPtrs fow r) \<Longrightarrow> \<exists>g op b. p = DagPtr fow g op b"
  by (auto simp: dagPtrs_def)

text \<open>The graphs are reduced one after the other; each has more room than its longest path.\<close>

definition reducible :: "nat \<Rightarrow> cfgExecContext \<Rightarrow> bool" where
  "reducible fuel r \<longleftrightarrow> (\<forall>p d. load p r = Some d \<longrightarrow>
     dag_ok d \<and> acyclic (edges d) \<and> card (Range (edges d)) < fuel)"

lemma reduceAt_total:
  assumes "reducible fuel r" and "load p r \<noteq> None" and "all_orders_ok ord"
  shows "\<exists>t. reduceAt ord fuel p r = Some t \<and> reducible fuel t \<and> same_shape r t"
proof -
  obtain d where d: "load p r = Some d" using assms(2) by auto
  then have ok: "dag_ok d" "acyclic (edges d)" "card (Range (edges d)) < fuel"
    using assms(1) by (auto simp: reducible_def)
  obtain d' where d': "TransitiveReduction (ord p) fuel d = Some d'"
    using reduction_of_acyclic [OF ok(1,2) all_orders_okD [OF assms(3)] ok(3)] by blast
  have sh: "shrinks d d'" by (rule TransitiveReduction_shrinks [OF d' all_orders_okD [OF assms(3)]])
  then have "dag_ok d'" "edges d' \<subseteq> edges d" "Range (edges d') = Range (edges d)"
    using ok(1) by (simp_all add: shrinks_def)
  then have ok': "dag_ok d' \<and> acyclic (edges d') \<and> card (Range (edges d')) < fuel"
    using ok acyclic_subset by auto
  have "reducible fuel (store p d' r)"
    unfolding reducible_def
  proof (intro allI impI)
    fix q e
    assume "load q (store p d' r) = Some e"
    then show "dag_ok e \<and> acyclic (edges e) \<and> card (Range (edges e)) < fuel"
      using assms(1) ok' unfolding load_store [OF assms(2)] reducible_def by (auto split: if_splits)
  qed
  moreover have "same_shape r (store p d' r)" using assms(2) by (rule same_shape_store)
  moreover have "reduceAt ord fuel p r = Some (store p d' r)" using d d' by (simp add: reduceAt_def)
  ultimately show ?thesis by blast
qed

lemma reduceAll_total:
  assumes "reducible fuel r" and "cec_wf r" and "all_orders_ok ord"
  shows "\<exists>t. ofold (reduceAt ord fuel) (dagPtrs fow r) r = Some t \<and> reducible fuel t \<and> same_shape r t"
proof (rule ofold_total)
  show "reducible fuel r \<and> same_shape r r" using assms(1) same_shape_refl by blast
  fix p s
  assume p: "p \<in> set (dagPtrs fow r)" and s: "reducible fuel s \<and> same_shape r s"
  have "load p r \<noteq> None" by (rule dagPtrs_load [OF p assms(2)])
  then have "load p s \<noteq> None" using s by (simp add: same_shape_def)
  from reduceAt_total [OF _ this assms(3)] s same_shape_trans
  show "\<exists>t. reduceAt ord fuel p s = Some t \<and> reducible fuel t \<and> same_shape r t" by blast
qed

lemma build_wf: "build K cfg = Some (gvar, ctx) \<Longrightarrow> cec_wf ctx"
proof -
  assume "build K cfg = Some (gvar, ctx)"
  then obtain c g p s where 1: "init K cfg = Some (c, g, [])" and 2: "populate K cfg c g = Some p" "clean p"
    and 3: "connect K cfg (ps_cec p) (ps_gvar p) = Some s" "clean s" "ctx = ps_cec s"
    by (elim buildE)
  have "cec_wf c" using init_init_shape [OF 1] by (simp add: init_shape_def)
  then show ?thesis using populate_adds [OF 2(1)] connect_adds [OF 3(1)] 2(2) 3(2,3)
    by (simp add: adds_vertices_def adds_links_def same_shape_def)
qed

lemma Parse_total:
  assumes "build K cfg = Some (gvar, ctx)" and "all_orders_ok ord"
    and "\<And>p d. load p ctx = Some d \<Longrightarrow> acyclic (edges d) \<and> card (Range (edges d)) < fuel"
  shows "\<exists>r. Parse K ord fuel cfg = Some (Some r, [])"
proof -
  have "reducible fuel ctx"
    using assms(3) build_graphs(3) [OF assms(1)] by (auto simp: reducible_def graphs_ok_def)
  from reduceAll_total [OF this build_wf [OF assms(1)] assms(2), of FOWFor] obtain m where
    m: "ofold (reduceAt ord fuel) (dagPtrs FOWFor ctx) ctx = Some m" "reducible fuel m" "same_shape ctx m"
    by blast
  have "cec_wf m" using m(3) build_wf [OF assms(1)] by (simp add: same_shape_def)
  from reduceAll_total [OF m(2) this assms(2), of FOWWatch] m(1)
  have "\<exists>r. transitivereduction ord fuel ctx = Some r" by (auto simp: transitivereduction_def)
  then show ?thesis using Parse_build [OF assms(1)] by auto
qed

text \<open>C19: when the phases before the reduction report nothing and their graphs are acyclic, Parse
  returns an execution context: in every order in which Go ranges over its maps, and with a
  recursion that is never deeper than the largest number of vertices with a predecessor in a
  graph.\<close>

theorem Parse_returns:
  assumes "build K cfg = Some (gvar, ctx)" and "all_orders_ok ord"
    and "\<And>p d. load p ctx = Some d \<Longrightarrow> acyclic (edges d) \<and> card (Range (edges d)) < fuel"
  shows "\<exists>r. Parse K ord fuel cfg = Some (Some r, [])"
  using Parse_total [OF assms] .

text \<open>The edges of the sample, from its events.\<close>

lemma chainCfg_links:
  "(\<Union>e \<in> set (configEvents (\<lambda>r. fst (GetGVK sampleK r)) chainCfg). eventLinks gvar e) =
     {(applyPtr, ''x'', ''y''), (applyPtr, ''r'', ''y'')}"
  by (simp add: chainCfg_def oneFor_def configEvents_def objectEvents_def refEvents_def GetPipeline_def
      pipelineOf_def object_def pipelineEvents_def entryEvents_def task_def elementEvents.simps
      elementOrigin_def originFow_def GetServices_def functionLinks_def functionStrings_def
      inputStrings_def Input0_def Function0_def Block0_def HasBlock_def linkTo_def ptrOf_def
      GetGVK_def sampleK_def kind_def insert_commute Let_def)

lemma chainCfg_acyclic:
  assumes b: "build sampleK chainCfg = Some (gvar, ctx)" and l: "load p ctx = Some d"
  shows "acyclic (edges d) \<and> card (Range (edges d)) < 2"
proof -
  have "(p, u, v) \<in> links ctx" if "(u, v) \<in> edges d" for u v using that l by (auto simp: links_def)
  then have "(p, u, v) \<in> {(applyPtr, ''x'', ''y''), (applyPtr, ''r'', ''y'')}" if "(u, v) \<in> edges d" for u v
    using that unfolding build_graphs(2) [OF b] chainCfg_links by blast
  then have sub: "edges d \<subseteq> {(''x'', ''y''), (''r'', ''y'')}" by auto
  have "acyclic {(''x'', ''y''), (''r'', ''y'')}"
    by (simp add: acyclic_insert rtrancl_insert) (simp add: acyclic_def)
  then have "acyclic (edges d)" using sub by (rule acyclic_subset)
  moreover have "Range (edges d) \<subseteq> {''y''}" using sub by auto
  then have "card (Range (edges d)) \<le> card {''y''}" by (intro card_mono) simp_all
  ultimately show "acyclic (edges d) \<and> card (Range (edges d)) < 2" by simp
qed

theorem Parse_returns_witness:
  "\<exists>r. Parse sampleK (\<lambda>_. id_orders) 2 chainCfg = Some (Some r, [])"
proof -
  obtain gvar ctx where b: "build sampleK chainCfg = Some (gvar, ctx)" using chainCfg_build by blast
  show ?thesis by (rule Parse_returns [OF b all_orders_ok_id chainCfg_acyclic [OF b]])
qed

section \<open>Cyclic configurations\<close>

lemma reduceAt_cycle:
  assumes "load p r = Some d" and "VertexExists d v" and "(v, w) \<in> (edges d)\<^sup>*" and "(w, w) \<in> (edges d)\<^sup>+"
    and "all_orders_ok ord"
  shows "reduceAt ord fuel p r = None"
  using reduction_of_cycle [OF all_orders_okD [OF assms(5)] assms(2-4)] assms(1) by (simp add: reduceAt_def)

lemma reduceAt_other:
  "reduceAt ord fuel p r = Some r' \<Longrightarrow> q \<noteq> p \<Longrightarrow> load q r' = load q r"
  by (auto simp: reduceAt_def bind_eq_Some_conv load_store)

lemma reduceAll_cycle:
  assumes "load p r = Some d" and "VertexExists d v" and "(v, w) \<in> (edges d)\<^sup>*" and "(w, w) \<in> (edges d)\<^sup>+"
    and "all_orders_ok ord" and "p \<in> set ps"
  shows "ofold (reduceAt ord fuel) ps r = None"
proof (rule ofold_None [OF assms(6), where P = "\<lambda>r. load p r = Some d"])
  show "load p r = Some d" by (rule assms(1))
  show "reduceAt ord fuel p s = None" if "load p s = Some d" for s
    by (rule reduceAt_cycle [OF that assms(2-5)])
  show "load p t = Some d" if l: "load p s = Some d" and t: "reduceAt ord fuel q s = Some t" for q s t
  proof -
    have "q \<noteq> p" using reduceAt_cycle [OF l assms(2-5)] t by auto
    then show ?thesis using reduceAt_other [OF t] l by simp
  qed
qed

text \<open>C37: when the configuration makes a graph with a cycle that some vertex reaches, Parse does
  not return: nothing in the parser looks for cycles, and the reduction recurses for ever.\<close>

theorem Parse_cycle_never_returns:
  assumes "build K cfg = Some (gvar, ctx)" and "load (DagPtr fow g op b) ctx = Some d"
    and "fow = FOWFor \<or> fow = FOWWatch"
    and "VertexExists d v" and "(v, w) \<in> (edges d)\<^sup>*" and "(w, w) \<in> (edges d)\<^sup>+"
    and "all_orders_ok ord"
  shows "Parse K ord fuel cfg = None"
proof -
  let ?p = "DagPtr fow g op b"
  note cycle = reduceAll_cycle [OF _ assms(4-7)]
  have "transitivereduction ord fuel ctx = None"
  proof (cases "fow = FOWFor")
    case True
    then have "?p \<in> set (dagPtrs FOWFor ctx)" using load_dagPtrs [OF assms(2)] by simp
    from cycle [OF assms(2) this] show ?thesis by (simp add: transitivereduction_def)
  next
    case False
    then have watch: "fow = FOWWatch" using assms(3) by simp
    have "ofold (reduceAt ord fuel) (dagPtrs FOWWatch m) m = None"
      if m: "ofold (reduceAt ord fuel) (dagPtrs FOWFor ctx) ctx = Some m" for m
    proof -
      have "load ?p m = Some d"
      proof (rule ofold_inv [where P = "\<lambda>r. load ?p r = Some d", OF m assms(2)])
        fix q s t
        assume "q \<in> set (dagPtrs FOWFor ctx)" and s: "load ?p s = Some d" and t: "reduceAt ord fuel q s = Some t"
        then have "?p \<noteq> q" using dagPtrs_fow watch by blast
        then show "load ?p t = Some d" using reduceAt_other [OF t, of ?p] s by (simp del: load.simps)
      qed
      then show ?thesis using cycle [OF \<open>load ?p m = Some d\<close>] load_dagPtrs [of fow g op b m d] watch by simp
    qed
    then show ?thesis by (cases "ofold (reduceAt ord fuel) (dagPtrs FOWFor ctx) ctx")
      (auto simp: transitivereduction_def)
  qed
  then show ?thesis using Parse_build [OF assms(1)] by simp
qed

text \<open>Two tasks that depend on each other.\<close>

definition cyclic :: ControllerConfig where
  "cyclic = oneFor [(''x'', task [''y'']), (''y'', task [''x''])]"

theorem Parse_cycle_never_returns_witness:
  "ValidateSyntax sampleK cyclic = Some [] \<and>
   (\<forall>fuel. Parse sampleK (\<lambda>_. id_orders) fuel cyclic = None)"
proof (intro conjI allI)
  show "ValidateSyntax sampleK cyclic = Some []" by code_simp
  fix fuel
  have "map_option (\<lambda>(g, c). map_option (\<lambda>d. (GetDownVertexes d ''x'', GetDownVertexes d ''y'', VertexExists d ''x''))
      (load applyPtr c)) (build sampleK cyclic) = Some (Some ([''y''], [''x''], True))"
    by code_simp
  then obtain gvar ctx d where b: "build sampleK cyclic = Some (gvar, ctx)" and l: "load applyPtr ctx = Some d"
    and d: "GetDownVertexes d ''x'' = [''y'']" "GetDownVertexes d ''y'' = [''x'']" "VertexExists d ''x''"
    by (auto simp del: load.simps)
  have "(''x'', ''y'') \<in> edges d" "(''y'', ''x'') \<in> edges d" using d by (simp_all add: edge_iff)
  then have "(''x'', ''x'') \<in> (edges d)\<^sup>+" by (rule trancl_trans [OF r_into_trancl r_into_trancl])
  from Parse_cycle_never_returns [OF b l _ d(3) _ this all_orders_ok_id]
  show "Parse sampleK (\<lambda>_. id_orders) fuel cyclic = None" by simp
qed

section \<open>Pipelines without a graph\<close>

definition element_event :: "FOWS \<Rightarrow> Operation \<Rightarrow> Function \<Rightarrow> event \<Rightarrow> bool" where
  "element_event fow op fn e \<longleftrightarrow> (\<exists>oc. e = FunctionAt oc fn \<and> oc_FOWS oc = fow \<and> oc_Operation oc = op \<and>
     oc_BlockIndex oc = 0 \<and> oc_BlockVertexName oc = '''')"

lemma element_event_in:
  assumes "oc_BlockIndex oc = 0" and "oc_BlockVertexName oc = ''''"
  shows "\<exists>e \<in> set (elementEvents oc (Some fe)). element_event (oc_FOWS oc) (oc_Operation oc) (fe_Function fe) e"
proof (cases "fn_Type (fe_Function fe) = BlockType")
  case True
  then have "FunctionAt (oc\<lparr>oc_Block := True\<rparr>) (fe_Function fe) \<in> set (elementEvents oc (Some fe))"
    by (simp add: elementEvents.simps)
  then show ?thesis by (rule rev_bexI) (use assms in \<open>auto simp: element_event_def\<close>)
next
  case False
  then have "FunctionAt oc (fe_Function fe) \<in> set (elementEvents oc (Some fe))"
    by (simp add: elementEvents.simps)
  then show ?thesis by (rule rev_bexI) (use assms in \<open>auto simp: element_event_def\<close>)
qed

lemma pipeline_event:
  assumes "Some fe \<in> pipeline_entries p"
  shows "\<exists>e \<in> set (pipelineEvents oc p). element_event (oc_FOWS oc) (oc_Operation oc) (fe_Function fe) e"
proof -
  have el: "\<exists>e \<in> set (entryEvents oc n og (t, Some fe)).
      element_event (oc_FOWS oc) (oc_Operation oc) (fe_Function fe) e" for n og t
    using element_event_in [of "elementOrigin oc n og t (fe_Function fe)" fe]
    by (simp add: entryEvents_def elementOrigin_def originFow_def)
  from assms obtain t where "(t, Some fe) \<in> set (pl_Vars p) \<or> (t, Some fe) \<in> set (pl_Tasks p)"
    unfolding pipeline_entries_def by fastforce
  then show ?thesis
  proof
    assume "(t, Some fe) \<in> set (pl_Vars p)"
    then show ?thesis using el [of "pl_Name p" OriginVariable t]
      unfolding pipelineEvents_def set_append set_concat set_map set_simps by blast
  next
    assume "(t, Some fe) \<in> set (pl_Tasks p)"
    then show ?thesis using el [of "pl_Name p" OriginFunction t]
      unfolding pipelineEvents_def set_append set_concat set_map set_simps by blast
  qed
qed

lemma object_event:
  assumes "Some fe \<in> pipeline_entries p"
    and "GetPipeline cfg (if op = OperationApply then go_ApplyPipelineRef v else go_DeletePipelineRef v) = Some p"
    and "op = OperationApply \<or> op = OperationDelete"
  shows "\<exists>e \<in> set (objectEvents G cfg fow (n, v)). element_event fow op (fe_Function fe) e"
proof -
  let ?oc = "(originFow fow n)\<lparr>oc_GVK := G (go_Resource v), oc_Operation := op\<rparr>"
  have "set (pipelineEvents ?oc p) \<subseteq> set (objectEvents G cfg fow (n, v))"
    using assms(2,3) by (auto simp: objectEvents_def refEvents_def Let_def)
  then show ?thesis using pipeline_event [OF assms(1), of ?oc] by (auto simp: originFow_def)
qed

lemma populate_without_graph:
  assumes "e \<in> set (configEvents (\<lambda>r. fst (GetGVK K r)) cfg)" and "element_event fow op fn e"
    and "\<And>g. load (DagPtr fow g op None) c = None"
  shows "populate K cfg c gvar = None"
proof -
  obtain oc where oc: "e = FunctionAt oc fn" "oc_FOWS oc = fow" "oc_Operation oc = op"
      "oc_BlockIndex oc = 0" "oc_BlockVertexName oc = ''''"
    using assms(2) by (auto simp: element_event_def)
  have "ofold (handle (populateWalk K) cfg) (configEvents (\<lambda>r. fst (GetGVK K r)) cfg)
      \<lparr>ps_cec = c, ps_gvar = gvar, ps_result = []\<rparr> = None"
  proof (rule ofold_None [OF assms(1), where P = "\<lambda>s. same_shape c (ps_cec s)"])
    show "same_shape c (ps_cec t)" if "same_shape c (ps_cec s)" "handle (populateWalk K) cfg y s = Some t" for y s t
      using populate_event [OF that(2)] that(1) same_shape_trans by (auto simp: adds_vertices_def)
    fix s :: pstate
    assume s: "same_shape c (ps_cec s)"
    show "handle (populateWalk K) cfg e s = None"
    proof (rule ccontr)
      assume "handle (populateWalk K) cfg e s \<noteq> None"
      then obtain t where "addFunction K oc fn s = Some t"
        by (auto simp: oc(1) populateWalk_def call2_def)
      from addFunction_graph [OF this oc(4)] obtain g where "load (ptrOf oc g) (ps_cec s) \<noteq> None" by blast
      then have "load (DagPtr fow g op None) (ps_cec s) \<noteq> None"
        by (simp add: ptrOf_def oc del: load.simps)
      moreover have "load (DagPtr fow g op None) (ps_cec s) = None \<longleftrightarrow> load (DagPtr fow g op None) c = None"
        using s unfolding same_shape_def by (elim conjE) (rule spec)
      ultimately have "load (DagPtr fow g op None) c \<noteq> None" by (simp only: simp_thms)
      then show False using assms(3) [of g] by (rule notE)
    qed
  qed (simp add: same_shape_refl)
  then show ?thesis by (simp add: populate_def runPhase_def populates.walk_events)
qed

text \<open>An own resource that names a pipeline with a task or variable makes Parse panic, once
  the configuration passes init: own resources have no graph, and the populate phase calls
  AddVertex on the nil graph.\<close>

lemma own_pipeline_panics:
  assumes "(n, v) \<in> set (cc_Own cfg)" and "GetPipeline cfg (go_ApplyPipelineRef v) = Some p"
    and "Some fe \<in> pipeline_entries p" and "init K cfg = Some (c, gvar, [])"
  shows "Parse K ord fuel cfg = None"
proof -
  obtain e where e: "e \<in> set (objectEvents (\<lambda>r. fst (GetGVK K r)) cfg FOWOwn (n, v))"
      "element_event FOWOwn OperationApply (fe_Function fe) e"
    using object_event [OF assms(3), of cfg OperationApply v "\<lambda>r. fst (GetGVK K r)" FOWOwn n] assms(2)
    by auto
  have "e \<in> set (configEvents (\<lambda>r. fst (GetGVK K r)) cfg)" using assms(1) e(1) by (auto simp: configEvents_def)
  from populate_without_graph [OF this e(2) init_shape_own [OF init_init_shape [OF assms(4)]]]
  show ?thesis using assms(4) by (simp add: Parse_def)
qed

text \<open>Likewise for a watched resource with a delete pipeline: watches have a graph for the
  apply operation only.\<close>

lemma watch_delete_pipeline_panics:
  assumes "(n, v) \<in> set (cc_Watch cfg)" and "GetPipeline cfg (go_DeletePipelineRef v) = Some p"
    and "Some fe \<in> pipeline_entries p" and "init K cfg = Some (c, gvar, [])"
  shows "Parse K ord fuel cfg = None"
proof -
  obtain e where e: "e \<in> set (objectEvents (\<lambda>r. fst (GetGVK K r)) cfg FOWWatch (n, v))"
      "element_event FOWWatch OperationDelete (fe_Function fe) e"
    using object_event [OF assms(3), of cfg OperationDelete v "\<lambda>r. fst (GetGVK K r)" FOWWatch n] assms(2)
    by auto
  have m: "e \<in> set (configEvents (\<lambda>r. fst (GetGVK K r)) cfg)" using assms(1) e(1) by (auto simp: configEvents_def)
  have "load (DagPtr FOWWatch g OperationDelete None) c = None" for g
    by (rule init_shape_watch [OF init_init_shape [OF assms(4)]]) simp
  from populate_without_graph [OF m e(2) this] show ?thesis using assms(4) by (simp add: Parse_def)
qed

text \<open>A configuration that the validator accepts: a resource, and a second one with a pipeline.\<close>

definition withSecond :: "FOWS \<Rightarrow> ControllerConfig" where
  "withSecond fow = (oneFor [(''x'', task [])])
     \<lparr>cc_Own := (if fow = FOWOwn then [(''o'', object ''B'' ''q'' '''')] else []),
      cc_Watch := (if fow = FOWWatch then [(''w'', object ''B'' ''d'' ''q'')] else []),
      cc_Pipelines := [pipelineOf ''p'' [(''x'', task [])], pipelineOf ''d'' [], pipelineOf ''q'' [(''y'', task [])]]\<rparr>"

lemma withSecond_init:
  "\<exists>c g. init sampleK (withSecond FOWOwn) = Some (c, g, [])"
  "\<exists>c g. init sampleK (withSecond FOWWatch) = Some (c, g, [])"
proof -
  have "map_option (\<lambda>(c, g, rs). rs) (init sampleK (withSecond FOWOwn)) = Some []"
    "map_option (\<lambda>(c, g, rs). rs) (init sampleK (withSecond FOWWatch)) = Some []"
    by code_simp+
  then show "\<exists>c g. init sampleK (withSecond FOWOwn) = Some (c, g, [])"
    "\<exists>c g. init sampleK (withSecond FOWWatch) = Some (c, g, [])"
    by auto
qed

theorem own_pipeline_panics_witness:
  "ValidateSyntax sampleK (withSecond FOWOwn) = Some [] \<and>
   Parse sampleK (\<lambda>_. id_orders) 9 (withSecond FOWOwn) = None"
proof
  show "ValidateSyntax sampleK (withSecond FOWOwn) = Some []" by code_simp
  obtain c g where i: "init sampleK (withSecond FOWOwn) = Some (c, g, [])" using withSecond_init by blast
  show "Parse sampleK (\<lambda>_. id_orders) 9 (withSecond FOWOwn) = None"
    by (rule own_pipeline_panics [OF _ _ _ i, of "''o''" "object ''B'' ''q'' ''''"
          "pipelineOf ''q'' [(''y'', task [])]" "the (task [])"])
      (simp_all add: withSecond_def GetPipeline_def object_def pipelineOf_def pipeline_entries_def task_def)
qed

theorem watch_delete_pipeline_panics_witness:
  "ValidateSyntax sampleK (withSecond FOWWatch) = Some [] \<and>
   Parse sampleK (\<lambda>_. id_orders) 9 (withSecond FOWWatch) = None"
proof
  show "ValidateSyntax sampleK (withSecond FOWWatch) = Some []" by code_simp
  obtain c g where i: "init sampleK (withSecond FOWWatch) = Some (c, g, [])" using withSecond_init by blast
  show "Parse sampleK (\<lambda>_. id_orders) 9 (withSecond FOWWatch) = None"
    by (rule watch_delete_pipeline_panics [OF _ _ _ i, of "''w''" "object ''B'' ''d'' ''q''"
          "pipelineOf ''q'' [(''y'', task [])]" "the (task [])"])
      (simp_all add: withSecond_def GetPipeline_def object_def pipelineOf_def pipeline_entries_def task_def)
qed

section \<open>References out of a block\<close>

lemma ptrOf_None: "ptrOf oc g = DagPtr fow g' op None \<Longrightarrow> oc_BlockIndex oc = 0 \<and> oc_BlockVertexName oc = ''''"
  by (auto simp: ptrOf_def split: if_splits)

lemma varLinks_main:
  "(DagPtr fow g op None, u, b) \<in> varLinks oc h vi \<Longrightarrow> b = '''' \<or> b = oc_VertexName oc \<and> oc_BlockIndex oc = 0"
  by (auto simp: varLinks_def dest: ptrOf_None [OF sym] split: if_splits)

lemma functionLinks_main:
  assumes "(DagPtr fow g op None, u, b) \<in> functionLinks gvar oc v" and "b \<noteq> ''''"
  shows "b = oc_VertexName oc \<and> oc_BlockIndex oc = 0"
proof -
  have link: "(DagPtr fow g op None, u, b) \<in> linkTo oc x \<Longrightarrow> b = oc_VertexName oc \<and> oc_BlockIndex oc = 0" for x
    by (auto simp: linkTo_def dest: ptrOf_None [OF sym] split: option.splits)
  have str: "(DagPtr fow g op None, u, b) \<in> stringLinks gvar oc x \<Longrightarrow> b = oc_VertexName oc \<and> oc_BlockIndex oc = 0" for x
    using assms(2) by (auto simp: stringLinks_def refLinks_def dest: varLinks_main split: if_splits option.splits)
  show ?thesis using assms(1) link str
    unfolding functionLinks_def by (auto split: option.splits if_splits)
qed

text \<open>In the main graph of a resource, an edge into a named vertex comes from the function of
  that vertex itself.  So what the functions inside a block refer to never makes the vertex of the
  block wait for the vertices that provide it: the connector means to wire them, but clears the
  name of the block first.\<close>

lemma main_edges_from_own_function:
  assumes "build K cfg = Some (gvar, ctx)" and "(DagPtr fow g op None, u, b) \<in> links ctx" and "b \<noteq> ''''"
  shows "\<exists>oc v. FunctionAt oc v \<in> set (configEvents (\<lambda>r. fst (GetGVK K r)) cfg) \<and>
    oc_VertexName oc = b \<and> oc_BlockIndex oc = 0 \<and> (DagPtr fow g op None, u, b) \<in> functionLinks gvar oc v"
proof -
  obtain e where e: "e \<in> set (configEvents (\<lambda>r. fst (GetGVK K r)) cfg)"
      "(DagPtr fow g op None, u, b) \<in> eventLinks gvar e"
    using assms(2) unfolding build_graphs(2) [OF assms(1)] by blast
  from e(2) obtain oc v where f: "e = FunctionAt oc v" "(DagPtr fow g op None, u, b) \<in> functionLinks gvar oc v"
    by (cases e) auto
  then show ?thesis using functionLinks_main [OF f(2) assms(3)] e(1) by blast
qed

theorem main_edges_from_own_function_witness:
  "\<exists>oc v gvar. FunctionAt oc v \<in> set (configEvents (\<lambda>r. fst (GetGVK sampleK r)) chainCfg) \<and>
    oc_VertexName oc = ''y'' \<and> (applyPtr, ''x'', ''y'') \<in> functionLinks gvar oc v"
proof -
  obtain gvar ctx where b: "build sampleK chainCfg = Some (gvar, ctx)" using chainCfg_build by blast
  have "(applyPtr, ''x'', ''y'') \<in> links ctx" unfolding build_graphs(2) [OF b] chainCfg_links by simp
  from main_edges_from_own_function [OF b this] show ?thesis by auto
qed

text \<open>A block \<open>b\<close> over the resource, with a function inside that reads the variable of task \<open>q\<close>.\<close>

definition blockCfg :: ControllerConfig where
  "blockCfg = oneFor
     [(''q'', task []),
      (''b'', Some (FunctionElement
         (Function0\<lparr>fn_Type := BlockType, fn_Block := Block (Some (RangeValue ''$r'' Block0)) None\<rparr>)
         [(''f'', Some (FunctionElement
            (Function0\<lparr>fn_Type := ContainerType, fn_Executor := \<lparr>ex_Image = ''i'', ex_Exec = ''''\<rparr>,
               fn_Input := Some (Input0\<lparr>in_Value := ''$q''\<rparr>)\<rparr>) []))]))]"

definition mainGraph :: "cfgExecContext \<Rightarrow> rtdag" where
  "mainGraph ctx = (case load applyPtr ctx of Some d \<Rightarrow> d | None \<Rightarrow> New)"

text \<open>The predecessors and successors of some vertices in the main graph.\<close>

definition sampleEdges :: "cfgExecContext \<Rightarrow> string list \<Rightarrow> (string list \<times> string list) list" where
  "sampleEdges ctx = map (\<lambda>v. (GetUpVertexes (mainGraph ctx) v, GetDownVertexes (mainGraph ctx) v))"

text \<open>The configuration above is valid and Parse accepts it, but the block does not wait for the
  task its function reads: the only predecessor of \<open>b\<close> is the resource, \<open>q\<close> has no successor, and the
  lost edge is a loop on the empty vertex name.\<close>

lemma block_dependency_lost:
  "ValidateSyntax sampleK blockCfg = Some [] \<and>
   map_option (\<lambda>(c, rs). (map_option (\<lambda>c. sampleEdges c [''b'', ''q'', '''']) c, rs))
     (Parse sampleK (\<lambda>_. id_orders) 9 blockCfg)
   = Some (Some [([''r''], []), ([], []), ([''''], [''''])], [])"
proof
  show "ValidateSyntax sampleK blockCfg = Some []" by code_simp
  show "map_option (\<lambda>(c, rs). (map_option (\<lambda>c. sampleEdges c [''b'', ''q'', '''']) c, rs))
     (Parse sampleK (\<lambda>_. id_orders) 9 blockCfg)
   = Some (Some [([''r''], []), ([], []), ([''''], [''''])], [])" by code_simp
qed

section \<open>The resolve phase\<close>

text \<open>The resolve phase reports nothing and changes nothing, on every configuration: its walk has
  no callback for a resource, and the walk visits the pipelines of a resource only when there is
  one.  No reference or dependsOn entry is resolved.\<close>

lemma resolve_never_reports:
  "resolve cCfg cec gvar = Some \<lparr>ps_cec = cec, ps_gvar = gvar, ps_result = []\<rparr>"
  by (rule resolve_unchanged)

text \<open>So Parse accepts a task that depends on a vertex that does not exist, and the graph has an
  edge from it.\<close>

lemma unknown_dependency_accepted:
  "map_option (\<lambda>(c, rs). (map_option (\<lambda>c. (sampleEdges c [''y''], VertexExists (mainGraph c) ''ghost'')) c, rs))
     (Parse sampleK (\<lambda>_. id_orders) 9 (oneFor [(''y'', task [''ghost''])]))
   = Some (Some ([([''ghost''], [])], False), [])"
  by code_simp

section \<open>External resources\<close>

text \<open>The resources an event asks for.\<close>

fun eventResources :: "event \<Rightarrow> raw set" where
  "eventResources (GvkObjectAt oc v) = {go_Resource v}"
| "eventResources (FunctionAt oc v) =
     (case fn_Input v of None \<Rightarrow> {} | Some inp \<Rightarrow> if in_Resource inp = [] then {} else {in_Resource inp}) \<union>
     {r. \<exists>(_, out) \<in> set (elems (fn_Output v)). r = out_Resource out \<and> \<not> out_Internal out \<and> r \<noteq> []}"
| "eventResources _ = {}"

definition collects :: "k8slib \<Rightarrow> er \<Rightarrow> er \<Rightarrow> raw set \<Rightarrow> bool" where
  "collects K s t rs \<longleftrightarrow> (er_result t = [] \<longrightarrow> er_result s = [] \<and>
     (distinct (er_resources s) \<and> None \<notin> set (er_resources s) \<longrightarrow>
        distinct (er_resources t) \<and> None \<notin> set (er_resources t) \<and>
        set (er_resources t) = set (er_resources s) \<union> (\<lambda>r. fst (GetGVK K r)) ` rs))"

lemma collects_refl [simp]: "collects K s s {}"
  by (simp add: collects_def)

lemma collects_trans: "collects K s t a \<Longrightarrow> collects K t u b \<Longrightarrow> collects K s u (a \<union> b)"
  unfolding collects_def by (auto simp: image_Un)

lemma erFound_iff: "None \<notin> set rs \<Longrightarrow> erFound (Some g) rs = Some (Some g \<in> set rs)"
proof (induction rs)
  case (Cons r rs)
  then obtain x where "r = Some x" by (cases r) auto
  moreover have "gvk_Group x = gvk_Group g \<and> gvk_Version x = gvk_Version g \<and> gvk_Kind x = gvk_Kind g \<longleftrightarrow> x = g"
    by auto
  ultimately show ?case using Cons by auto
qed simp

lemma addResource_collects:
  assumes "addResource K oc v s = Some t"
  shows "collects K s t {v}"
proof -
  let ?s = "s\<lparr>er_result := recordErr oc (snd (GetGVK K v)) (er_result s)\<rparr>"
  have a: "addGVK (fst (GetGVK K v)) ?s = Some t"
    using assms by (simp add: addResource_def getgvk_def split_def Let_def)
  show ?thesis
  proof (cases "snd (GetGVK K v)")
    case None
    then obtain g where g: "fst (GetGVK K v) = Some g" using GetGVK_result [of K v] by auto
    show ?thesis unfolding collects_def
    proof (intro impI conjI)
      assume "er_result t = []"
      then show "er_result s = []" using a by (auto simp: addGVK_def None recordErr_def bind_eq_Some_conv split: if_splits)
    next
      assume "distinct (er_resources s) \<and> None \<notin> set (er_resources s)"
      then show "distinct (er_resources t)" "None \<notin> set (er_resources t)"
        "set (er_resources t) = set (er_resources s) \<union> (\<lambda>r. fst (GetGVK K r)) ` {v}"
        using a by (auto simp: addGVK_def g erFound_iff split: if_splits)
    qed
  next
    case (Some err)
    then have "er_result t \<noteq> []"
      using a by (auto simp: addGVK_def recordErr_def recordResult_def bind_eq_Some_conv split: if_splits)
    then show ?thesis by (simp add: collects_def)
  qed
qed

lemma getFunctionGvk_collects:
  assumes "getFunctionGvk K oc v s = Some t"
  shows "collects K s t (eventResources (FunctionAt oc v))"
proof -
  let ?in = "case fn_Input v of None \<Rightarrow> {} | Some inp \<Rightarrow> if in_Resource inp = [] then {} else {in_Resource inp}"
  obtain s1 s2 where
    1: "(case fn_Input v of None \<Rightarrow> Some s
         | Some inp \<Rightarrow> if length (in_Resource inp) \<noteq> 0 then addResource K oc (in_Resource inp) s else Some s) = Some s1" and
    2: "(if fn_Type v = GoTemplateType then do {
             inp \<leftarrow> fn_Input v;
             (if length (in_Resource inp) \<noteq> 0 then addResource K oc (in_Resource inp) s1 else Some s1) }
           else Some s1) = Some s2" and
    3: "ofold (\<lambda>(_, w) r. if \<not> out_Internal w \<and> length (out_Resource w) \<noteq> 0
                       then addResource K oc (out_Resource w) r else Some r) (elems (fn_Output v)) s2 = Some t"
    using assms unfolding getFunctionGvk_def bind_eq_Some_conv [of _ _ t] by blast
  have a: "collects K s s1 ?in"
    using 1 addResource_collects [of K oc _ s s1] by (cases "fn_Input v") (auto split: if_splits)
  have "collects K s1 s2 (if fn_Type v = GoTemplateType then ?in else {})"
  proof (cases "fn_Type v = GoTemplateType")
    case True
    then obtain inp where "fn_Input v = Some inp" using 2 by (auto simp: bind_eq_Some_conv)
    then show ?thesis using 2 True addResource_collects [of K oc _ s1 s2] by (auto split: if_splits)
  next
    case False
    then show ?thesis using 2 by simp
  qed
  from collects_trans [OF a this] have b: "collects K s s2 ?in" by (auto split: if_splits)
  have c: "collects K s2 t (\<Union>e \<in> set (elems (fn_Output v)).
      {r. r = out_Resource (snd e) \<and> \<not> out_Internal (snd e) \<and> r \<noteq> []})"
  proof (rule ofold_union [OF 3, where R = "collects K" and
        g = "\<lambda>e. {r. r = out_Resource (snd e) \<and> \<not> out_Internal (snd e) \<and> r \<noteq> []}"])
    show "collects K u w {r. r = out_Resource (snd e) \<and> \<not> out_Internal (snd e) \<and> r \<noteq> []}"
      if "(case e of (_, w) \<Rightarrow> \<lambda>r. if \<not> out_Internal w \<and> length (out_Resource w) \<noteq> 0
        then addResource K oc (out_Resource w) r else Some r) u = Some w" for e :: "string \<times> Output" and u w
    proof (cases "\<not> out_Internal (snd e) \<and> out_Resource (snd e) \<noteq> []")
      case True
      then have "{r. r = out_Resource (snd e) \<and> \<not> out_Internal (snd e) \<and> r \<noteq> []} = {out_Resource (snd e)}"
        by auto
      then show ?thesis using True that addResource_collects by (auto simp: split_def)
    next
      case False
      then have n: "{r. r = out_Resource (snd e) \<and> \<not> out_Internal (snd e) \<and> r \<noteq> []} = {}" by auto
      have "u = w" using False that by (auto simp: split_def)
      then show ?thesis unfolding n by simp
    qed
  qed (auto intro: collects_trans)
  have "(\<Union>e \<in> set (elems (fn_Output v)). {r. r = out_Resource (snd e) \<and> \<not> out_Internal (snd e) \<and> r \<noteq> []}) =
      {r. \<exists>(_, out) \<in> set (elems (fn_Output v)). r = out_Resource out \<and> \<not> out_Internal out \<and> r \<noteq> []}"
    by (auto simp: split_def)
  then show ?thesis using collects_trans [OF b c] by simp
qed

lemma er_event:
  assumes "handle (erWalk K) cfg e s = Some t"
  shows "collects K s t (eventResources e)"
proof (cases e)
  case (GvkObjectAt oc v)
  then obtain g where "getGvk K oc v s = Some (g, t)" using assms by (auto simp: erWalk_def)
  then have "addResource K oc (go_Resource v) s = Some t"
    by (auto simp: getGvk_def addResource_def split_def Let_def bind_eq_Some_conv)
  then show ?thesis using addResource_collects by (simp add: GvkObjectAt)
next
  case (FunctionAt oc v)
  then have "getFunctionGvk K oc v s = Some t" using assms by (simp add: erWalk_def call2_def)
  then show ?thesis unfolding FunctionAt by (rule getFunctionGvk_collects)
qed (use assms in \<open>simp_all add: erWalk_def noCallbacks_def call1_def call2_def\<close>)

lemma external_resources:
  assumes "GetExternalResources K cfg = Some (resources, [])"
  shows "distinct resources \<and> None \<notin> set resources \<and>
    set resources = (\<lambda>r. fst (GetGVK K r)) `
      (\<Union>e \<in> set (configEvents (\<lambda>r. fst (GetGVK K r)) cfg). eventResources e)"
proof -
  obtain t where t: "ofold (handle (erWalk K) cfg) (configEvents (\<lambda>r. fst (GetGVK K r)) cfg)
      \<lparr>er_result = [], er_resources = []\<rparr> = Some t" "er_resources t = resources" "er_result t = []"
    using assms by (auto simp: GetExternalResources_def ers.walk_events bind_eq_Some_conv)
  have "collects K \<lparr>er_result = [], er_resources = []\<rparr> t
      (\<Union>e \<in> set (configEvents (\<lambda>r. fst (GetGVK K r)) cfg). eventResources e)"
    by (rule ofold_union [where R = "collects K", OF t(1) collects_refl collects_trans er_event])
  then show ?thesis using t(2,3) unfolding collects_def by auto
qed

text \<open>C21: without errors, GetExternalResources returns every group-version-kind once, and exactly the
  ones of the resources of the configuration, of the inputs of its functions and of their
  outputs that are not internal.\<close>

theorem GetExternalResources_exact:
  assumes "GetExternalResources K cfg = Some (resources, [])"
  shows "distinct resources \<and> None \<notin> set resources \<and>
    set resources = (\<lambda>r. fst (GetGVK K r)) `
      (\<Union>e \<in> set (configEvents (\<lambda>r. fst (GetGVK K r)) cfg). eventResources e)"
  by (rule external_resources [OF assms])

theorem GetExternalResources_exact_witness:
  "\<exists>resources. GetExternalResources sampleK (withSecond FOWOwn) = Some (resources, []) \<and> distinct resources"
proof -
  have e: "GetExternalResources sampleK (withSecond FOWOwn) = Some ([Some (kind ''A''), Some (kind ''B'')], [])"
    by code_simp
  from GetExternalResources_exact [OF e] e show ?thesis by blast
qed

end
