(* ===== verification/Executor.thy ===== *)
theory Executor
  imports Dag "HOL-Library.Multiset"
begin

text \<open>
  The concurrent executor of pkg/ccutils/executor (executor.go, exec\_context.go).

  Every goroutine is a thread with its program point; a step (\<open>act\<close>) lets one thread move, or two
  that meet on an unbuffered channel.  Go leaves open which goroutine moves, in which order a
  \<open>range\<close> over a map visits the channels and what the vertex function returns: all that is in the
  \<open>choice\<close>, so the reachable states are those of every run.  The five-second timeouts of the \<open>select\<close>s only log:
  they are the polls at the end of this theory, apart from the steps that change the state.  The channels are unbuffered, and a value and the closing of its channel are two steps.
  A panic of any goroutine ends the process.  The read/write locks only make some of these steps
  wait; they are left out, so the model has every run of the code.
\<close>

section \<open>Threads\<close>

datatype thread =
  TExec string
| TMark string
| TWait string "string list"
| TRun string
| TSend string bool "string list"
| TClose string bool string "string list"
| TCloseFn string
| TMain "string list"
| TReturned bool
| TEnd

datatype logEntry = Started string | Finished string bool

record est =
  threads :: "thread list"
  visited :: "string set"
  depClosed :: "(string \<times> string) set"
  fnClosed :: "string set"
  cancelled :: bool
  panicked :: bool
  runLog :: "logEntry list"

datatype choice =
  Exec nat
| Mark nat "string list"
| Start nat
| Finish nat bool "string list"
| Sync nat nat
| SendClosed nat
| RecvClosed nat
| CloseDep nat
| FnDone nat nat
| FnClosed nat
| FnRecvClosed nat
| CloseFn nat
| MainEnd nat
| CtxDone nat
| Cancel

definition threadAt :: "est \<Rightarrow> nat \<Rightarrow> thread option" where
  "threadAt s n = (if n < length (threads s) then Some (threads s ! n) else None)"

definition setThread :: "nat \<Rightarrow> thread \<Rightarrow> est \<Rightarrow> est" where
  "setThread n t s = s\<lparr>threads := (threads s)[n := t]\<rparr>"

definition spawn :: "thread list \<Rightarrow> est \<Rightarrow> est" where
  "spawn ts s = s\<lparr>threads := threads s @ ts\<rparr>"

text \<open>A map visits each of its keys once.\<close>

definition orderOf :: "string list \<Rightarrow> string list \<Rightarrow> bool" where
  "orderOf ord keys \<longleftrightarrow> distinct ord \<and> set ord = set keys"

section \<open>Construction and start (New, init, Run)\<close>

text \<open>\<open>init\<close> adds the channel of a dependency to the context of the vertex depended upon, which is
  nil when there is no such vertex.\<close>

definition exec_init :: "'v dag \<Rightarrow> unit go" where
  "exec_init d =
     (if list_all (\<lambda>(vertexName, _). list_all (\<lambda>dep. VertexExists d dep) (GetUpVertexes d vertexName))
           (GetVertices d)
      then Some () else None)"

text \<open>The main walk: \<open>execute(from, true)\<close> marks and schedules the first vertex, spawns the walk over
  its successors and waits for the functions, in the order \<open>mainOrd\<close>.\<close>

definition execute_from :: "'v dag \<Rightarrow> string \<Rightarrow> string list \<Rightarrow> string list \<Rightarrow> est go" where
  "execute_from d root depOrd mainOrd = do {
     _ \<leftarrow> exec_init d;
     (if VertexExists d root \<and> orderOf depOrd (GetUpVertexes d root) \<and> orderOf mainOrd (gkeys (GetVertices d))
      then Some \<lparr>threads = TMain mainOrd # TWait root depOrd # map TExec (GetDownVertexes d root),
        visited = {root}, depClosed = {}, fnClosed = {}, cancelled = False, panicked = False, runLog = []\<rparr>
      else None) }"

section \<open>Steps\<close>

text \<open>\<open>execute(v, false)\<close>: the test whether the vertex is visited, and the assignment that marks it,
  are two critical sections.\<close>

definition step_exec :: "'v dag \<Rightarrow> nat \<Rightarrow> est \<Rightarrow> est option" where
  "step_exec d n s =
     (case threadAt s n of
        Some (TExec v) \<Rightarrow>
          Some (if \<not> VertexExists d v then s\<lparr>panicked := True\<rparr>
                else if v \<in> visited s then spawn (map TExec (GetDownVertexes d v)) (setThread n TEnd s)
                else setThread n (TMark v) s)
      | _ \<Rightarrow> None)"

definition step_mark :: "'v dag \<Rightarrow> nat \<Rightarrow> string list \<Rightarrow> est \<Rightarrow> est option" where
  "step_mark d n ord s =
     (case threadAt s n of
        Some (TMark v) \<Rightarrow>
          if orderOf ord (GetUpVertexes d v)
          then Some (spawn (TWait v ord # map TExec (GetDownVertexes d v))
                 ((setThread n TEnd s)\<lparr>visited := insert v (visited s)\<rparr>))
          else None
      | _ \<Rightarrow> None)"

text \<open>\<open>run\<close>: the vertex function, then a value to every dependent, in the order \<open>ord\<close>; \<open>init\<close>
  has put into \<open>doneChs\<close> of a vertex one channel for each vertex that depends on it.\<close>

definition step_start :: "nat \<Rightarrow> est \<Rightarrow> est option" where
  "step_start n s =
     (case threadAt s n of
        Some (TWait v []) \<Rightarrow> Some ((setThread n (TRun v) s)\<lparr>runLog := runLog s @ [Started v]\<rparr>)
      | _ \<Rightarrow> None)"

definition doneChs :: "'v dag \<Rightarrow> string \<Rightarrow> string list" where
  "doneChs d u = filter (\<lambda>w. u \<in> set (GetUpVertexes d w)) (gkeys (GetVertices d))"

definition step_finish :: "'v dag \<Rightarrow> nat \<Rightarrow> bool \<Rightarrow> string list \<Rightarrow> est \<Rightarrow> est option" where
  "step_finish d n success ord s =
     (case threadAt s n of
        Some (TRun v) \<Rightarrow>
          if orderOf ord (doneChs d v)
          then Some ((setThread n (TSend v success ord) s)\<lparr>runLog := runLog s @ [Finished v success]\<rparr>)
          else None
      | _ \<Rightarrow> None)"

text \<open>A value passes from a vertex to the goroutine that waits for it; both go on, whatever the
  value (\<open>if ok { continue }\<close>).\<close>

definition step_sync :: "nat \<Rightarrow> nat \<Rightarrow> est \<Rightarrow> est option" where
  "step_sync n m s =
     (case (threadAt s n, threadAt s m) of
        (Some (TSend u success (w # ws)), Some (TWait w' (u' # us))) \<Rightarrow>
          if w' = w \<and> u' = u \<and> (u, w) \<notin> depClosed s
          then Some (setThread m (TWait w us) (setThread n (TClose u success w ws) s))
          else None
      | _ \<Rightarrow> None)"

text \<open>The channel is closed after the value; closing a closed channel panics.\<close>

definition step_close_dep :: "nat \<Rightarrow> est \<Rightarrow> est option" where
  "step_close_dep n s =
     (case threadAt s n of
        Some (TClose u success w ws) \<Rightarrow>
          Some (if (u, w) \<in> depClosed s then s\<lparr>panicked := True\<rparr>
                else (setThread n (TSend u success ws) s)\<lparr>depClosed := insert (u, w) (depClosed s)\<rparr>)
      | _ \<Rightarrow> None)"

text \<open>A send on a closed channel panics; a receive from one yields false, and the wait fails.\<close>

definition step_send_closed :: "nat \<Rightarrow> est \<Rightarrow> est option" where
  "step_send_closed n s =
     (case threadAt s n of
        Some (TSend u success (w # ws)) \<Rightarrow>
          if (u, w) \<in> depClosed s then Some (s\<lparr>panicked := True\<rparr>) else None
      | _ \<Rightarrow> None)"

definition step_recv_closed :: "nat \<Rightarrow> est \<Rightarrow> est option" where
  "step_recv_closed n s =
     (case threadAt s n of
        Some (TWait w (u # us)) \<Rightarrow>
          if (u, w) \<in> depClosed s then Some (setThread n TEnd s) else None
      | _ \<Rightarrow> None)"

text \<open>The main walk receives the result of a function; a failure cancels the context and returns.\<close>

definition step_fn_done :: "nat \<Rightarrow> nat \<Rightarrow> est \<Rightarrow> est option" where
  "step_fn_done n m s =
     (case (threadAt s n, threadAt s m) of
        (Some (TSend u success []), Some (TMain (v # vs))) \<Rightarrow>
          if v = u \<and> u \<notin> fnClosed s
          then Some (if success then setThread m (TMain vs) (setThread n (TCloseFn u) s)
                     else (setThread m (TReturned False) (setThread n (TCloseFn u) s))\<lparr>cancelled := True\<rparr>)
          else None
      | _ \<Rightarrow> None)"

definition step_close_fn :: "nat \<Rightarrow> est \<Rightarrow> est option" where
  "step_close_fn n s =
     (case threadAt s n of
        Some (TCloseFn u) \<Rightarrow>
          Some (if u \<in> fnClosed s then s\<lparr>panicked := True\<rparr>
                else (setThread n TEnd s)\<lparr>fnClosed := insert u (fnClosed s)\<rparr>)
      | _ \<Rightarrow> None)"

definition step_fn_closed :: "nat \<Rightarrow> est \<Rightarrow> est option" where
  "step_fn_closed n s =
     (case threadAt s n of
        Some (TSend u success []) \<Rightarrow>
          if u \<in> fnClosed s then Some (s\<lparr>panicked := True\<rparr>) else None
      | _ \<Rightarrow> None)"

definition step_fn_recv_closed :: "nat \<Rightarrow> est \<Rightarrow> est option" where
  "step_fn_recv_closed n s =
     (case threadAt s n of
        Some (TMain (v # vs)) \<Rightarrow>
          if v \<in> fnClosed s then Some ((setThread n (TReturned False) s)\<lparr>cancelled := True\<rparr>) else None
      | _ \<Rightarrow> None)"

definition step_main_end :: "nat \<Rightarrow> est \<Rightarrow> est option" where
  "step_main_end n s =
     (case threadAt s n of Some (TMain []) \<Rightarrow> Some (setThread n (TReturned True) s) | _ \<Rightarrow> None)"

definition step_ctx_done :: "nat \<Rightarrow> est \<Rightarrow> est option" where
  "step_ctx_done n s =
     (case threadAt s n of
        Some (TMain (v # vs)) \<Rightarrow> if cancelled s then Some (setThread n (TReturned False) s) else None
      | _ \<Rightarrow> None)"

fun act :: "'v dag \<Rightarrow> choice \<Rightarrow> est \<Rightarrow> est option" where
  "act d c s =
     (if panicked s then None
      else case c of
        Exec n \<Rightarrow> step_exec d n s
      | Mark n ord \<Rightarrow> step_mark d n ord s
      | Start n \<Rightarrow> step_start n s
      | Finish n success ord \<Rightarrow> step_finish d n success ord s
      | Sync n m \<Rightarrow> step_sync n m s
      | SendClosed n \<Rightarrow> step_send_closed n s
      | RecvClosed n \<Rightarrow> step_recv_closed n s
      | CloseDep n \<Rightarrow> step_close_dep n s
      | FnDone n m \<Rightarrow> step_fn_done n m s
      | FnClosed n \<Rightarrow> step_fn_closed n s
      | FnRecvClosed n \<Rightarrow> step_fn_recv_closed n s
      | CloseFn n \<Rightarrow> step_close_fn n s
      | MainEnd n \<Rightarrow> step_main_end n s
      | CtxDone n \<Rightarrow> step_ctx_done n s
      | Cancel \<Rightarrow> Some (s\<lparr>cancelled := True\<rparr>))"

declare act.simps [simp del]

text \<open>The states of all runs from a vertex.\<close>

inductive reachable :: "'v dag \<Rightarrow> string \<Rightarrow> est \<Rightarrow> bool" for d :: "'v dag" and root :: string where
  begin_run: "execute_from d root depOrd mainOrd = Some s \<Longrightarrow> reachable d root s"
| run_step: "reachable d root s \<Longrightarrow> act d c s = Some t \<Longrightarrow> reachable d root t"

text \<open>A run given by its choices, to compute with.\<close>

definition run_choices :: "'v dag \<Rightarrow> choice list \<Rightarrow> est \<Rightarrow> est option" where
  "run_choices d cs s = ofold (act d) cs s"

lemma run_choices_reachable:
  assumes "run_choices d cs s = Some t" and "reachable d root s"
  shows "reachable d root t"
  using assms(1) unfolding run_choices_def
  by (rule ofold_inv [where P = "reachable d root"]) (use assms(2) in \<open>auto intro: run_step\<close>)

section \<open>Polls\<close>

text \<open>The two waiting loops wake up every five seconds, log and wait on: \<open>waitDependencies\<close> while a dependency is
  missing, \<open>waitFunctionCompletion\<close> while a function is.  Such a poll is a step that changes nothing; a run
  with its polls is a list of \<open>pollChoice\<close>s.\<close>

datatype pollChoice = Poll nat | Move choice

definition poll_dependencies :: "nat \<Rightarrow> est \<Rightarrow> est option" where
  "poll_dependencies n s = (case threadAt s n of Some (TWait w (u # us)) \<Rightarrow> Some s | _ \<Rightarrow> None)"

definition poll_functions :: "nat \<Rightarrow> est \<Rightarrow> est option" where
  "poll_functions n s = (case threadAt s n of Some (TMain (v # vs)) \<Rightarrow> Some s | _ \<Rightarrow> None)"

fun pollAct :: "'v dag \<Rightarrow> pollChoice \<Rightarrow> est \<Rightarrow> est option" where
  "pollAct d (Move c) s = act d c s"
| "pollAct d (Poll n) s =
     (if panicked s then None
      else case poll_dependencies n s of Some s \<Rightarrow> Some s | None \<Rightarrow> poll_functions n s)"

definition run_polls :: "'v dag \<Rightarrow> pollChoice list \<Rightarrow> est \<Rightarrow> est option" where
  "run_polls d ps s = ofold (pollAct d) ps s"

fun movesOf :: "pollChoice list \<Rightarrow> choice list" where
  "movesOf [] = []"
| "movesOf (Move c # ps) = c # movesOf ps"
| "movesOf (Poll n # ps) = movesOf ps"

lemma poll_same: "pollAct d (Poll n) s = Some t \<Longrightarrow> t = s"
  by (auto simp: poll_dependencies_def poll_functions_def split: if_splits option.splits thread.splits list.splits)

text \<open>Without its polls a run leads to the same state.\<close>

lemma run_polls_moves: "run_polls d ps s = Some t \<Longrightarrow> run_choices d (movesOf ps) s = Some t"
  unfolding run_polls_def run_choices_def
proof (induction ps arbitrary: s rule: movesOf.induct)
  case (3 n ps)
  then obtain u where "pollAct d (Poll n) s = Some u" and "ofold (pollAct d) ps u = Some t"
    by (auto simp: bind_eq_Some_conv simp del: pollAct.simps)
  moreover have "u = s" by (rule poll_same) fact
  ultimately show ?case using "3.IH" by simp
qed (auto simp: bind_eq_Some_conv)

lemma set_movesOf: "c \<in> set (movesOf ps) \<longleftrightarrow> Move c \<in> set ps"
  by (induction ps rule: movesOf.induct) auto

text \<open>A goroutine that can poll can do so as often as it likes.\<close>

lemma poll_again:
  assumes "run_polls d ps s = Some t" and "pollAct d (Poll n) t \<noteq> None"
  shows "run_polls d (ps @ replicate k (Poll n)) s = Some t"
proof -
  have p: "pollAct d (Poll n) t = Some t" using assms(2) poll_same by (metis option.exhaust)
  have "ofold (pollAct d) (replicate k (Poll n)) t = Some t"
    by (induction k) (simp_all add: p del: pollAct.simps)
  then show ?thesis using assms(1) by (simp add: run_polls_def ofold_append)
qed

end
