(* ===== verification/Executor_Properties.thy ===== *)
theory Executor_Properties
  imports Executor
begin

text \<open>
  What every run of the executor keeps.  The tokens of a run are counted: a potential sums a
  weight over the threads, and an event in the log is paid for by the weight a thread loses.
\<close>

section \<open>Threads under the steps\<close>

definition weigh :: "(thread \<Rightarrow> int) \<Rightarrow> est \<Rightarrow> int" where
  "weigh f s = sum_list (map f (threads s))"

definition logged :: "est \<Rightarrow> logEntry \<Rightarrow> int" where
  "logged s e = int (count_list (runLog s) e)"

lemma sum_list_map_update:
  "n < length xs \<Longrightarrow> sum_list (map f (xs[n := y])) = sum_list (map f xs) - f (xs ! n) + (f y :: int)"
proof (induction xs arbitrary: n)
  case (Cons a xs)
  then show ?case by (cases n) auto
qed simp

lemma weigh_setThread: "threadAt s n = Some x \<Longrightarrow> weigh f (setThread n y s) = weigh f s - f x + f y"
  by (auto simp: weigh_def setThread_def threadAt_def sum_list_map_update split: if_splits)

lemma weigh_spawn: "weigh f (spawn ts s) = weigh f s + sum_list (map f ts)"
  by (simp add: weigh_def spawn_def)

lemma weigh_fields:
  "weigh f (s\<lparr>visited := a\<rparr>) = weigh f s" "weigh f (s\<lparr>depClosed := b\<rparr>) = weigh f s"
  "weigh f (s\<lparr>fnClosed := c\<rparr>) = weigh f s" "weigh f (s\<lparr>cancelled := e\<rparr>) = weigh f s"
  "weigh f (s\<lparr>panicked := g\<rparr>) = weigh f s" "weigh f (s\<lparr>runLog := h\<rparr>) = weigh f s"
  by (simp_all add: weigh_def)

lemma threadAt_fields:
  "threadAt (s\<lparr>visited := a\<rparr>) k = threadAt s k" "threadAt (s\<lparr>depClosed := b\<rparr>) k = threadAt s k"
  "threadAt (s\<lparr>fnClosed := c\<rparr>) k = threadAt s k" "threadAt (s\<lparr>cancelled := e\<rparr>) k = threadAt s k"
  "threadAt (s\<lparr>panicked := g\<rparr>) k = threadAt s k" "threadAt (s\<lparr>runLog := h\<rparr>) k = threadAt s k"
  by (simp_all add: threadAt_def)

lemma threadAt_setThread: "k \<noteq> n \<Longrightarrow> threadAt (setThread n y s) k = threadAt s k"
  by (simp add: threadAt_def setThread_def)

lemma fields_setThread:
  "visited (setThread n y s) = visited s" "depClosed (setThread n y s) = depClosed s"
  "fnClosed (setThread n y s) = fnClosed s" "cancelled (setThread n y s) = cancelled s"
  "panicked (setThread n y s) = panicked s" "runLog (setThread n y s) = runLog s"
  by (simp_all add: setThread_def)

lemma fields_spawn:
  "visited (spawn ts s) = visited s" "depClosed (spawn ts s) = depClosed s"
  "fnClosed (spawn ts s) = fnClosed s" "cancelled (spawn ts s) = cancelled s"
  "panicked (spawn ts s) = panicked s" "runLog (spawn ts s) = runLog s"
  by (simp_all add: spawn_def)

lemmas thread_simps = weigh_setThread weigh_spawn weigh_fields threadAt_fields threadAt_setThread
  fields_setThread fields_spawn

lemma weigh_nonneg: "(\<And>t. 0 \<le> f t) \<Longrightarrow> 0 \<le> weigh f s"
  unfolding weigh_def by (rule sum_list_nonneg) auto

lemma weigh_member:
  assumes "t \<in> set (threads s)" and "\<And>t. 0 \<le> f t"
  shows "f t \<le> weigh f s"
  unfolding weigh_def by (rule member_le_sum_list) (use assms in auto)

lemma sum_list_zero: "(\<And>x. x \<in> set xs \<Longrightarrow> f x = (0::int)) \<Longrightarrow> sum_list (map f xs) = 0"
  by (induction xs) auto

text \<open>What makes a goroutine panic: a vertex that is not there, a channel closed before.\<close>

inductive panicCause :: "'v dag \<Rightarrow> est \<Rightarrow> bool" for d :: "'v dag" and s :: est where
  no_vertex: "threadAt s n = Some (TExec v) \<Longrightarrow> \<not> VertexExists d v \<Longrightarrow> panicCause d s"
| send_closed: "threadAt s n = Some (TSend u b (w # ws)) \<Longrightarrow> (u, w) \<in> depClosed s \<Longrightarrow> panicCause d s"
| close_closed: "threadAt s n = Some (TClose u b w ws) \<Longrightarrow> (u, w) \<in> depClosed s \<Longrightarrow> panicCause d s"
| fn_send_closed: "threadAt s n = Some (TSend u b []) \<Longrightarrow> u \<in> fnClosed s \<Longrightarrow> panicCause d s"
| fn_close_closed: "threadAt s n = Some (TCloseFn u) \<Longrightarrow> u \<in> fnClosed s \<Longrightarrow> panicCause d s"

text \<open>The ways a step changes the state.\<close>

lemma act_cases [consumes 1, case_names panic cancel exec_skip exec_mark mark_it start_fn finish_fn
    sync_dep close_dep recv_closed fn_sync fn_closed_main close_fn main_end ctx_done]:
  assumes "act d c s = Some t"
  obtains
    "t = s\<lparr>panicked := True\<rparr>"
      "panicCause d s"
  | "t = s\<lparr>cancelled := True\<rparr>" "c = Cancel"
  | n v where "threadAt s n = Some (TExec v)" "v \<in> visited s" "VertexExists d v"
      "t = spawn (map TExec (GetDownVertexes d v)) (setThread n TEnd s)"
  | n v where "threadAt s n = Some (TExec v)" "v \<notin> visited s" "VertexExists d v"
      "t = setThread n (TMark v) s"
  | n v ord where "threadAt s n = Some (TMark v)" "orderOf ord (GetUpVertexes d v)"
      "t = spawn (TWait v ord # map TExec (GetDownVertexes d v))
         ((setThread n TEnd s)\<lparr>visited := insert v (visited s)\<rparr>)"
  | n v where "threadAt s n = Some (TWait v [])"
      "t = (setThread n (TRun v) s)\<lparr>runLog := runLog s @ [Started v]\<rparr>"
  | n v b ord where "threadAt s n = Some (TRun v)" "orderOf ord (doneChs d v)"
      "t = (setThread n (TSend v b ord) s)\<lparr>runLog := runLog s @ [Finished v b]\<rparr>"
  | n k u b w ws us where "threadAt s n = Some (TSend u b (w # ws))"
      "threadAt s k = Some (TWait w (u # us))" "k \<noteq> n" "(u, w) \<notin> depClosed s"
      "t = setThread k (TWait w us) (setThread n (TClose u b w ws) s)"
  | n u b w ws where "threadAt s n = Some (TClose u b w ws)" "(u, w) \<notin> depClosed s"
      "t = (setThread n (TSend u b ws) s)\<lparr>depClosed := insert (u, w) (depClosed s)\<rparr>"
  | n w u us where "threadAt s n = Some (TWait w (u # us))" "(u, w) \<in> depClosed s" "t = setThread n TEnd s"
  | n k u b vs where "threadAt s n = Some (TSend u b [])" "threadAt s k = Some (TMain (u # vs))" "k \<noteq> n"
      "u \<notin> fnClosed s"
      "t = (if b then setThread k (TMain vs) (setThread n (TCloseFn u) s)
            else (setThread k (TReturned False) (setThread n (TCloseFn u) s))\<lparr>cancelled := True\<rparr>)"
  | n v vs where "threadAt s n = Some (TMain (v # vs))" "v \<in> fnClosed s"
      "t = (setThread n (TReturned False) s)\<lparr>cancelled := True\<rparr>"
  | n u where "threadAt s n = Some (TCloseFn u)" "u \<notin> fnClosed s"
      "t = (setThread n TEnd s)\<lparr>fnClosed := insert u (fnClosed s)\<rparr>"
  | n where "threadAt s n = Some (TMain [])" "t = setThread n (TReturned True) s"
  | n v vs where "threadAt s n = Some (TMain (v # vs))" "cancelled s" "t = setThread n (TReturned False) s"
proof -
  have np: "\<not> panicked s" using assms by (auto simp: act.simps)
  note a = assms [unfolded act.simps]
  show thesis
  proof (cases c)
    case (Exec n)
    then show thesis using a np
      by (auto simp: step_exec_def split: option.splits thread.splits if_splits intro: that(1,3,4) panicCause.intros)
  next
    case (Mark n ord)
    then show thesis using a np that(5)
      by (auto simp: step_mark_def split: option.splits thread.splits if_splits)
  next
    case (Start n)
    then show thesis using a np that(6)
      by (auto simp: step_start_def split: option.splits thread.splits list.splits)
  next
    case (Finish n b ord)
    then show thesis using a np that(7)
      by (auto simp: step_finish_def split: option.splits thread.splits if_splits)
  next
    case (Sync n k)
    have "k \<noteq> n" if "threadAt s n = Some (TSend u b ws)" "threadAt s k = Some (TWait w us)" for u b w ws us
      using that by auto
    then show thesis using Sync a np that(8)
      by (auto simp: step_sync_def split: option.splits thread.splits list.splits if_splits)
  next
    case (SendClosed n)
    then show thesis using a np
      by (auto simp: step_send_closed_def split: option.splits thread.splits list.splits if_splits intro: that(1) panicCause.intros)
  next
    case (RecvClosed n)
    then show thesis using a np that(10)
      by (auto simp: step_recv_closed_def split: option.splits thread.splits list.splits if_splits)
  next
    case (CloseDep n)
    then show thesis using a np
      by (auto simp: step_close_dep_def split: option.splits thread.splits if_splits intro: that(1,9) panicCause.intros)
  next
    case (FnDone n k)
    have "k \<noteq> n" if "threadAt s n = Some (TSend u b ws)" "threadAt s k = Some (TMain us)" for u b ws us
      using that by auto
    then show thesis using FnDone a np that(11)
      by (auto simp: step_fn_done_def split: option.splits thread.splits list.splits if_splits)
  next
    case (FnClosed n)
    then show thesis using a np
      by (auto simp: step_fn_closed_def split: option.splits thread.splits list.splits if_splits intro: that(1) panicCause.intros)
  next
    case (FnRecvClosed n)
    then show thesis using a np that(12)
      by (auto simp: step_fn_recv_closed_def split: option.splits thread.splits list.splits if_splits)
  next
    case (CloseFn n)
    then show thesis using a np
      by (auto simp: step_close_fn_def split: option.splits thread.splits if_splits intro: that(1,13) panicCause.intros)
  next
    case (MainEnd n)
    then show thesis using a np that(14)
      by (auto simp: step_main_end_def split: option.splits thread.splits list.splits)
  next
    case (CtxDone n)
    then show thesis using a np that(15)
      by (auto simp: step_ctx_done_def split: option.splits thread.splits list.splits if_splits)
  next
    case Cancel
    then show thesis using a np that(2) by auto
  qed
qed

section \<open>What a thread promises\<close>

definition allT :: "(thread \<Rightarrow> bool) \<Rightarrow> est \<Rightarrow> bool" where
  "allT P s \<longleftrightarrow> (\<forall>t\<in>set (threads s). P t)"

lemma allT_at: "allT P s \<Longrightarrow> threadAt s n = Some t \<Longrightarrow> P t"
  by (auto simp: allT_def threadAt_def split: if_splits)

lemma allT_setThread [intro]: "allT P s \<Longrightarrow> P t \<Longrightarrow> allT P (setThread n t s)"
  using set_update_subset_insert [of "threads s" n t] by (auto simp: allT_def setThread_def)

lemma allT_simps [simp]:
  "allT P (spawn ts s) \<longleftrightarrow> allT P s \<and> (\<forall>t\<in>set ts. P t)"
  "allT P (s\<lparr>visited := a\<rparr>) = allT P s" "allT P (s\<lparr>depClosed := b\<rparr>) = allT P s"
  "allT P (s\<lparr>fnClosed := c\<rparr>) = allT P s" "allT P (s\<lparr>cancelled := e\<rparr>) = allT P s"
  "allT P (s\<lparr>panicked := g\<rparr>) = allT P s" "allT P (s\<lparr>runLog := h\<rparr>) = allT P s"
  by (auto simp: allT_def spawn_def)

lemma allT_mono: "allT P s \<Longrightarrow> (\<And>t. P t \<Longrightarrow> Q t) \<Longrightarrow> allT Q s"
  by (auto simp: allT_def)

text \<open>What holds of a thread, given the events \<open>L\<close> logged so far.\<close>

definition below :: "'v dag \<Rightarrow> string \<Rightarrow> string \<Rightarrow> bool" where
  "below d root v \<longleftrightarrow> (root, v) \<in> (edges d)\<^sup>*"

fun tok :: "'v dag \<Rightarrow> string \<Rightarrow> logEntry set \<Rightarrow> thread \<Rightarrow> bool" where
  "tok d root L (TExec v) = below d root v"
| "tok d root L (TMark v) = (below d root v \<and> v \<noteq> root)"
| "tok d root L (TWait v us) = (below d root v \<and> distinct us \<and> set us \<subseteq> set (GetUpVertexes d v))"
| "tok d root L (TRun v) = below d root v"
| "tok d root L (TSend u b ws) = (below d root u \<and> distinct ws \<and> Finished u b \<in> L)"
| "tok d root L (TClose u b w ws) = (below d root u \<and> w \<notin> set ws \<and> distinct ws \<and> Finished u b \<in> L)"
| "tok d root L (TCloseFn u) = True"
| "tok d root L (TMain vs) = (\<forall>v. VertexExists d v \<longrightarrow> v \<notin> set vs \<longrightarrow> Finished v True \<in> L)"
| "tok d root L (TReturned b) = (b \<longrightarrow> (\<forall>v. VertexExists d v \<longrightarrow> Finished v True \<in> L))"
| "tok d root L TEnd = True"

lemma tok_mono: "tok d root L t \<Longrightarrow> L \<subseteq> M \<Longrightarrow> tok d root M t"
  by (induction d root L t rule: tok.induct) auto

definition below_log :: "'v dag \<Rightarrow> string \<Rightarrow> logEntry set \<Rightarrow> bool" where
  "below_log d root L \<longleftrightarrow> (\<forall>v. Started v \<in> L \<longrightarrow> below d root v) \<and> (\<forall>v b. Finished v b \<in> L \<longrightarrow> below d root v)"

definition base_inv :: "'v dag \<Rightarrow> string \<Rightarrow> est \<Rightarrow> bool" where
  "base_inv d root s \<longleftrightarrow>
     root \<in> visited s \<and> allT (tok d root (set (runLog s))) s \<and> below_log d root (set (runLog s))"

lemma below_down: "below d root v \<Longrightarrow> w \<in> set (GetDownVertexes d v) \<Longrightarrow> below d root w"
  by (auto simp: below_def edges_def intro: rtrancl_into_rtrancl)

lemma below_root: "below d root root"
  by (simp add: below_def)

lemma base_inv_start: "execute_from d root depOrd mainOrd = Some s \<Longrightarrow> base_inv d root s"
  using below_down [of d root root]
  by (auto simp: execute_from_def base_inv_def allT_def below_log_def orderOf_def GetVertices_def
      below_root VertexExists_def gget_None_iff split: if_splits Option.bind_splits)

lemma base_inv_step:
  assumes "act d c s = Some t" and inv: "base_inv d root s"
  shows "base_inv d root t"
proof -
  let ?L = "set (runLog s)"
  have root: "root \<in> visited s" and toks: "allT (tok d root ?L) s" and log: "below_log d root ?L"
    using inv by (simp_all add: base_inv_def)
  have keep: "allT (tok d root (insert e ?L)) s" for e
    by (rule allT_mono [OF toks]) (auto intro: tok_mono)
  note at = allT_at [OF toks]
  show ?thesis
    using assms(1)
  proof (cases rule: act_cases)
    case (exec_skip n v)
    then show ?thesis using root toks log at [OF exec_skip(1)]
      by (auto simp: base_inv_def thread_simps intro: below_down)
  next
    case (exec_mark n v)
    then show ?thesis using root toks log at [OF exec_mark(1)] by (auto simp: base_inv_def thread_simps)
  next
    case (mark_it n v ord)
    then show ?thesis using root toks log at [OF mark_it(1)]
      by (auto simp: base_inv_def thread_simps orderOf_def intro: below_down)
  next
    case (start_fn n v)
    then show ?thesis using root keep log at [OF start_fn(1)]
      by (auto simp: base_inv_def thread_simps below_log_def)
  next
    case (finish_fn n v b ord)
    then show ?thesis using root keep log at [OF finish_fn(1)]
      by (auto simp: base_inv_def thread_simps below_log_def orderOf_def)
  next
    case (sync_dep n k u b w ws us)
    then show ?thesis using root toks log at [OF sync_dep(1)] at [OF sync_dep(2)]
      by (auto simp: base_inv_def thread_simps intro!: allT_setThread)
  next
    case (close_dep n u b w ws)
    then show ?thesis using root toks log at [OF close_dep(1)] by (auto simp: base_inv_def thread_simps)
  next
    case (fn_sync n k u b vs)
    then show ?thesis using root toks log at [OF fn_sync(1)] at [OF fn_sync(2)]
      by (auto simp: base_inv_def thread_simps intro!: allT_setThread)
  next
    case (main_end n)
    then show ?thesis using root toks log at [OF main_end(1)] by (auto simp: base_inv_def thread_simps)
  qed (use root toks log in \<open>auto simp: base_inv_def thread_simps\<close>)
qed

lemma base_inv: "reachable d root s \<Longrightarrow> base_inv d root s"
  by (induction rule: reachable.induct) (auto intro: base_inv_start base_inv_step)

section \<open>Counting\<close>

text \<open>A vertex \<open>w\<close> starts only with a value from its dependency \<open>u\<close>, and \<open>u\<close> has one value for it
  each time it finishes: the values that \<open>u\<close> still has for \<open>w\<close>, and those that \<open>w\<close> holds.\<close>

fun depTokens :: "string \<Rightarrow> string \<Rightarrow> thread \<Rightarrow> int" where
  "depTokens u w (TWait w' us) = of_bool (w' = w \<and> u \<notin> set us)"
| "depTokens u w (TSend u' b ws) = of_bool (u' = u \<and> w \<in> set ws)"
| "depTokens u w (TClose u' b w' ws) = of_bool (u' = u \<and> w \<in> set ws)"
| "depTokens u w t = 0"

text \<open>The closings of the channel from \<open>u\<close> to \<open>w\<close> that are still to come, and of the one to the
  main walk; a worker of \<open>v\<close> before its function starts, and one that runs.\<close>

fun depCloses :: "string \<Rightarrow> string \<Rightarrow> thread \<Rightarrow> int" where
  "depCloses u w (TSend u' b ws) = of_bool (u' = u \<and> w \<in> set ws)"
| "depCloses u w (TClose u' b w' ws) = of_bool (u' = u \<and> (w' = w \<or> w \<in> set ws))"
| "depCloses u w t = 0"

fun fnCloses :: "string \<Rightarrow> thread \<Rightarrow> int" where
  "fnCloses u (TSend u' b ws) = of_bool (u' = u)"
| "fnCloses u (TClose u' b w' ws) = of_bool (u' = u)"
| "fnCloses u (TCloseFn u') = of_bool (u' = u)"
| "fnCloses u t = 0"

fun workers :: "string \<Rightarrow> thread \<Rightarrow> int" where
  "workers v (TWait v' us) = of_bool (v' = v)"
| "workers v t = 0"

fun running :: "string \<Rightarrow> thread \<Rightarrow> int" where
  "running v (TRun v') = of_bool (v' = v)"
| "running v t = 0"

definition finishes :: "est \<Rightarrow> string \<Rightarrow> int" where
  "finishes s v = logged s (Finished v True) + logged s (Finished v False)"

lemma tokens_nonneg: "0 \<le> depTokens u w t" "0 \<le> depCloses u w t" "0 \<le> fnCloses u t" "0 \<le> workers v t"
  "0 \<le> running v t"
  by (cases t; simp)+

lemmas count_simps = thread_simps logged_def finishes_def comp_def

definition counts :: "'v dag \<Rightarrow> string \<Rightarrow> string \<Rightarrow> string \<Rightarrow> est \<Rightarrow> bool" where
  "counts d root u w s \<longleftrightarrow>
     ((u, w) \<in> upedges d \<longrightarrow> weigh (depTokens u w) s + logged s (Started w) \<le> finishes s u) \<and>
     of_bool ((u, w) \<in> depClosed s) + weigh (depCloses u w) s \<le> finishes s u \<and>
     of_bool (u \<in> fnClosed s) + weigh (fnCloses u) s \<le> finishes s u \<and>
     weigh (running u) s + finishes s u = logged s (Started u) \<and>
     weigh (workers root) s + logged s (Started root) \<le> 1"

lemma counts_start: "execute_from d root depOrd mainOrd = Some s \<Longrightarrow> counts d root u w s"
  by (auto simp: execute_from_def counts_def count_simps weigh_def orderOf_def upedges_def
      split: if_splits Option.bind_splits)

lemma counts_step:
  assumes "act d c s = Some t" and base: "base_inv d root s" and inv: "counts d root u w s"
  shows "counts d root u w t"
proof -
  have at: "tok d root (set (runLog s)) x" if "threadAt s n = Some x" for n x
    using base that by (auto simp: base_inv_def dest: allT_at)
  note le = inv [unfolded counts_def]
  show ?thesis
    using assms(1)
  proof (cases rule: act_cases)
    case (mark_it n v ord)
    then show ?thesis using le at [OF mark_it(1)]
      by (auto simp: counts_def count_simps orderOf_def upedges_def)
  next
    case (sync_dep n k u' b w' ws us)
    then show ?thesis using le at [OF sync_dep(1)] at [OF sync_dep(2)]
      by (auto simp: counts_def count_simps)
  next
    case (close_dep n u' b w' ws)
    then show ?thesis using le at [OF close_dep(1)] by (auto simp: counts_def count_simps)
  next
    case (finish_fn n v b ord)
    then show ?thesis using le by (cases b) (auto simp: counts_def count_simps)
  qed (use le in \<open>auto simp: counts_def count_simps\<close>)
qed

lemma counts: "reachable d root s \<Longrightarrow> counts d root u w s"
  by (induction rule: reachable.induct) (auto intro: counts_start counts_step base_inv)

section \<open>Order of the vertex functions\<close>

lemma log_step: "act d c s = Some t \<Longrightarrow> runLog t = runLog s \<or> (\<exists>e. runLog t = runLog s @ [e])"
  by (cases rule: act_cases) (auto simp: thread_simps)

lemma logged_pos: "0 < logged s e \<longleftrightarrow> e \<in> set (runLog s)"
  using count_list_0_iff [of "runLog s" e] by (cases "count_list (runLog s) e") (auto simp: logged_def)

lemma finishes_pos: "0 < finishes s u \<longleftrightarrow> (\<exists>b. Finished u b \<in> set (runLog s))"
proof -
  have "0 \<le> logged s e" for e by (simp add: logged_def)
  then show ?thesis using logged_pos [of s "Finished u True"] logged_pos [of s "Finished u False"]
    unfolding finishes_def by (smt (verit) ex_bool_eq)
qed

lemma started_le_finishes:
  "reachable d root s \<Longrightarrow> (u, w) \<in> upedges d \<Longrightarrow> logged s (Started w) \<le> finishes s u"
  using counts [of d root s u w] weigh_nonneg [of "depTokens u w" s, OF tokens_nonneg(1)]
  by (simp add: counts_def)

lemma finishes_le_started: "reachable d root s \<Longrightarrow> finishes s u \<le> logged s (Started u)"
  using counts [of d root s u u] weigh_nonneg [of "running u" s, OF tokens_nonneg(5)]
  by (simp add: counts_def)

definition ordered :: "'v dag \<Rightarrow> logEntry list \<Rightarrow> bool" where
  "ordered d L \<longleftrightarrow> (\<forall>before w after u. L = before @ Started w # after \<longrightarrow>
     u \<in> set (GetUpVertexes d w) \<longrightarrow> (\<exists>b. Finished u b \<in> set before))"

lemma ordered_snoc:
  assumes "ordered d L"
    and "\<And>w u. e = Started w \<Longrightarrow> u \<in> set (GetUpVertexes d w) \<Longrightarrow> \<exists>b. Finished u b \<in> set L"
  shows "ordered d (L @ [e])"
  unfolding ordered_def
proof (intro allI impI)
  fix before w after u
  assume L: "L @ [e] = before @ Started w # after" and u: "u \<in> set (GetUpVertexes d w)"
  show "\<exists>b. Finished u b \<in> set before"
  proof (cases after rule: rev_cases)
    case Nil
    then show ?thesis using L u assms(2) by auto
  next
    case (snoc ys y)
    then show ?thesis using L u assms(1) by (auto simp: ordered_def)
  qed
qed

lemma ordered_runLog: "reachable d root s \<Longrightarrow> ordered d (runLog s)"
proof (induction rule: reachable.induct)
  case (begin_run depOrd mainOrd s)
  then show ?case by (auto simp: execute_from_def ordered_def split: if_splits Option.bind_splits)
next
  case (run_step s c t)
  have t: "reachable d root t" using run_step.hyps by (rule reachable.run_step)
  from log_step [OF run_step.hyps(2)] show ?case
  proof (elim disjE exE)
    fix e assume e: "runLog t = runLog s @ [e]"
    have "\<exists>b. Finished u b \<in> set (runLog s)" if "e = Started w" "u \<in> set (GetUpVertexes d w)" for w u
    proof -
      have "0 < finishes t u"
        using started_le_finishes [OF t, of u w] that logged_pos [of t "Started w"] e
        by (auto simp: upedges_def)
      then show ?thesis using e that(1) by (auto simp: finishes_pos)
    qed
    then show ?case unfolding e by (intro ordered_snoc run_step.IH)
  qed (use run_step.IH in simp)
qed

section \<open>Vertices run once\<close>

lemma started_once:
  assumes ok: "dag_ok d" and run: "reachable d root s"
  shows "logged s (Started v) \<le> 1"
proof (cases "below d root v")
  case True
  then have "(root, v) \<in> (edges d)\<^sup>*" by (simp add: below_def)
  then show ?thesis
  proof (induction rule: rtrancl_induct)
    case base
    show ?case using counts [OF run, of root root] weigh_nonneg [of "workers root" s, OF tokens_nonneg(4)]
      by (simp add: counts_def)
  next
    case (step u w)
    have "(u, w) \<in> upedges d" using step.hyps(2) ok by (simp add: dag_ok_def)
    then show ?case
      using started_le_finishes [OF run] finishes_le_started [OF run, of u] step.IH by fastforce
  qed
next
  case False
  have "below_log d root (set (runLog s))" using base_inv [OF run] by (simp add: base_inv_def)
  then have "Started v \<notin> set (runLog s)" using False by (auto simp: below_log_def)
  then show ?thesis by (simp add: logged_def count_list_0_iff)
qed

lemma no_panicCause:
  assumes ok: "dag_ok d" and closed: "\<forall>(u, w)\<in>edges d. VertexExists d u \<longrightarrow> VertexExists d w" and root: "VertexExists d root"
    and run: "reachable d root s"
  shows "\<not> panicCause d s"
proof
  assume "panicCause d s"
  have mem: "x \<in> set (threads s)" if "threadAt s n = Some x" for n x
    using that by (auto simp: threadAt_def split: if_splits)
  have dep: "of_bool ((u, w) \<in> depClosed s) + depCloses u w x \<le> 1" if "threadAt s n = Some x" for n x u w
    using counts [OF run, of u w] weigh_member [OF mem [OF that], of "depCloses u w", OF tokens_nonneg(2)]
      finishes_le_started [OF run, of u] started_once [OF ok run, of u]
    by (auto simp: counts_def)
  have fn: "of_bool (u \<in> fnClosed s) + fnCloses u x \<le> 1" if "threadAt s n = Some x" for n x u
    using counts [OF run, of u u] weigh_member [OF mem [OF that], of "fnCloses u", OF tokens_nonneg(3)]
      finishes_le_started [OF run, of u] started_once [OF ok run, of u]
    by (auto simp: counts_def)
  have ex: "VertexExists d v" if "below d root v" for v
    using that [unfolded below_def] by (induction rule: rtrancl_induct) (use root closed in auto)
  show False
    using \<open>panicCause d s\<close>
  proof cases
    case (no_vertex n v)
    have "below d root v"
      using base_inv [OF run] allT_at [OF _ no_vertex(1)] by (fastforce simp: base_inv_def)
    then show False using no_vertex(2) ex by simp
  next
    case (send_closed n u b w ws)
    then show False using dep [of n _ u w] by fastforce
  next
    case (close_closed n u b w ws)
    then show False using dep [of n _ u w] by fastforce
  next
    case (fn_send_closed n u b)
    then show False using fn [of n _ u] by fastforce
  next
    case (fn_close_closed n u)
    then show False using fn [of n _ u] by fastforce
  qed
qed

lemma no_panic:
  assumes ok: "dag_ok d" and closed: "\<forall>(u, w)\<in>edges d. VertexExists d u \<longrightarrow> VertexExists d w" and "reachable d root s"
  shows "\<not> panicked s \<and> VertexExists d root"
  using assms(3)
proof (induction rule: reachable.induct)
  case (begin_run depOrd mainOrd s)
  then show ?case by (auto simp: execute_from_def split: if_splits Option.bind_splits)
next
  case (run_step s c t)
  have "\<not> panicCause d s" by (rule no_panicCause [OF ok closed _ run_step.hyps(1)]) (use run_step.IH in simp)
  with run_step.hyps(2) show ?case
    by (cases rule: act_cases) (use run_step.IH in \<open>auto simp: thread_simps\<close>)
qed

section \<open>The abstract scheduler\<close>

text \<open>What a run should look like from outside: a vertex starts once, when all it depends on has finished,
  and finishes once, after it started.\<close>

inductive schedule :: "'v dag \<Rightarrow> logEntry list \<Rightarrow> bool" for d :: "'v dag" where
  nothing: "schedule d []"
| starts: "schedule d L \<Longrightarrow> Started w \<notin> set L \<Longrightarrow>
    (\<forall>u\<in>set (GetUpVertexes d w). \<exists>b. Finished u b \<in> set L) \<Longrightarrow> schedule d (L @ [Started w])"
| finishes: "schedule d L \<Longrightarrow> Started v \<in> set L \<Longrightarrow> (\<forall>b. Finished v b \<notin> set L) \<Longrightarrow>
    schedule d (L @ [Finished v b])"

lemma count_snoc: "count_list (L @ [e]) e \<le> 1 \<Longrightarrow> e \<notin> set L"
  by (simp add: count_list_0_iff)

lemma schedule_step:
  assumes sched: "schedule d L" and ord: "ordered d (L @ [e])"
    and once: "\<And>v. count_list (L @ [e]) (Started v) \<le> 1"
    and fin: "\<And>v. count_list (L @ [e]) (Finished v True) + count_list (L @ [e]) (Finished v False)
      \<le> count_list (L @ [e]) (Started v)"
  shows "schedule d (L @ [e])"
proof (cases e)
  case (Started w)
  have "Started w \<notin> set L" using once [of w] Started count_snoc by fastforce
  moreover have "\<forall>u\<in>set (GetUpVertexes d w). \<exists>b. Finished u b \<in> set L"
    using ord Started by (auto simp: ordered_def)
  ultimately show ?thesis unfolding Started by (rule schedule.starts [OF sched])
next
  case (Finished v b)
  have le: "count_list (L @ [e]) (Finished v c) + count_list (L @ [e]) (Finished v (\<not> c)) \<le> 1" for c
    using fin [of v] once [of v] by (cases c) auto
  have "Finished v c \<notin> set L" for c
  proof (cases "c = b")
    case True
    then show ?thesis using le [of b] Finished count_snoc [of L e] by auto
  next
    case False
    then have "c = (\<not> b)" by simp
    moreover have "count_list (L @ [e]) (Finished v b) \<ge> 1" by (simp add: Finished)
    ultimately have "count_list (L @ [e]) (Finished v c) = 0" using le [of b] by simp
    then show ?thesis by (auto simp: count_list_0_iff)
  qed
  moreover have "Started v \<in> set L"
  proof -
    have "count_list (L @ [e]) (Finished v b) \<ge> 1" by (simp add: Finished)
    then have "count_list (L @ [e]) (Started v) \<ge> 1" using fin [of v] by (cases b) auto
    then show ?thesis by (auto simp: Finished count_list_0_iff intro: ccontr)
  qed
  ultimately show ?thesis unfolding Finished by (intro schedule.finishes [OF sched]) auto
qed

lemma schedule_runLog:
  assumes "dag_ok d" and "reachable d root s"
  shows "schedule d (runLog s)"
  using assms(2)
proof (induction rule: reachable.induct)
  case (begin_run depOrd mainOrd s)
  then show ?case by (auto simp: execute_from_def schedule.nothing split: if_splits Option.bind_splits)
next
  case (run_step s c t)
  have t: "reachable d root t" using run_step.hyps by (rule reachable.run_step)
  from log_step [OF run_step.hyps(2)] show ?case
  proof (elim disjE exE)
    fix e assume e: "runLog t = runLog s @ [e]"
    show ?case
      unfolding e
    proof (rule schedule_step [OF run_step.IH])
      show "ordered d (runLog s @ [e])" using ordered_runLog [OF t] by (simp add: e)
      show "count_list (runLog s @ [e]) (Started v) \<le> 1" for v
        using started_once [OF assms(1) t, of v] by (simp add: logged_def e)
      show "count_list (runLog s @ [e]) (Finished v True) + count_list (runLog s @ [e]) (Finished v False)
          \<le> count_list (runLog s @ [e]) (Started v)" for v
        using finishes_le_started [OF t, of v] by (simp add: finishes_def logged_def e)
    qed
  qed (use run_step.IH in simp)
qed

section \<open>What success means\<close>

lemma success_finished:
  assumes run: "reachable d root s" and "TReturned True \<in> set (threads s)" and "VertexExists d v"
  shows "Finished v True \<in> set (runLog s)" and "below d root v"
proof -
  have inv: "base_inv d root s" by (rule base_inv [OF run])
  then show fin: "Finished v True \<in> set (runLog s)"
    using assms(2,3) by (fastforce simp: base_inv_def allT_def)
  show "below d root v" using fin inv by (auto simp: base_inv_def below_log_def)
qed

end
