(* ===== verification/Executor_Progress.thy ===== *)
theory Executor_Progress
  imports Executor_Properties
begin

text \<open>
  Runs of the executor end: a bound on the steps of a run of an acyclic graph, and for a graph in which every
  vertex depends on one other at most, that a run which cannot go on has returned.
\<close>

section \<open>The steps that are left\<close>

text \<open>A goroutine that walks from a vertex costs what the walk below it can cost; the height of a vertex
  is the number of vertices below it.\<close>

definition height :: "'v dag \<Rightarrow> string \<Rightarrow> nat" where
  "height d v = card {w. (v, w) \<in> (edges d)\<^sup>+}"

definition workerCost :: "'v dag \<Rightarrow> int" where
  "workerCost d = 8 + 2 * int (length (vertices d)) + int (card (edges d))"

definition walkCost :: "'v dag \<Rightarrow> string \<Rightarrow> int" where
  "walkCost d v = workerCost d * (int (card (edges d)) + 1) ^ (height d v + 1)"

fun cost :: "'v dag \<Rightarrow> thread \<Rightarrow> int" where
  "cost d (TExec v) = walkCost d v"
| "cost d (TMark v) = walkCost d v - 1"
| "cost d (TWait v us) = 4 + 2 * int (length (vertices d)) + int (length us)"
| "cost d (TRun v) = 3 + 2 * int (length (vertices d))"
| "cost d (TSend u b ws) = 2 + 2 * int (length ws)"
| "cost d (TClose u b w ws) = 3 + 2 * int (length ws)"
| "cost d (TCloseFn u) = 1"
| "cost d (TMain vs) = 1 + int (length vs)"
| "cost d (TReturned b) = 0"
| "cost d TEnd = 0"

definition work :: "'v dag \<Rightarrow> est \<Rightarrow> int" where
  "work d s = weigh (cost d) s + of_bool (\<not> panicked s)"

lemma workerCost_pos: "8 \<le> workerCost d"
  by (simp add: workerCost_def)

lemma walkCost_pos: "8 \<le> walkCost d v"
proof -
  have "1 \<le> (int (card (edges d)) + 1) ^ (height d v + 1)" by (rule one_le_power) simp
  then show ?thesis using mult_mono [of 8 "workerCost d" 1] workerCost_pos [of d] by (simp add: walkCost_def)
qed

lemma cost_nonneg: "0 \<le> cost d t"
proof (cases t)
  case (TExec v)
  then show ?thesis using walkCost_pos [of d v] by simp
next
  case (TMark v)
  then show ?thesis using walkCost_pos [of d v] by simp
qed simp_all

lemma work_nonneg: "0 \<le> work d s"
  unfolding work_def using weigh_nonneg [of "cost d" s, OF cost_nonneg] by simp

lemma height_less:
  assumes "finite (edges d)" and "acyclic (edges d)" and "(v, w) \<in> edges d"
  shows "height d w < height d v"
  unfolding height_def
proof (rule psubset_card_mono)
  have "{x. (v, x) \<in> (edges d)\<^sup>+} \<subseteq> Range (edges d)" by (auto dest: tranclD2)
  then show "finite {x. (v, x) \<in> (edges d)\<^sup>+}" using assms(1) by (simp add: finite_Range finite_subset)
  have "w \<notin> {x. (w, x) \<in> (edges d)\<^sup>+}" using assms(2) by (simp add: acyclic_def)
  moreover have "{x. (w, x) \<in> (edges d)\<^sup>+} \<subseteq> {x. (v, x) \<in> (edges d)\<^sup>+}" using assms(3) by auto
  ultimately show "{x. (w, x) \<in> (edges d)\<^sup>+} \<subset> {x. (v, x) \<in> (edges d)\<^sup>+}" using assms(3) by blast
qed

lemma neighbours_bounded:
  assumes "dag_ok d"
  shows "length (GetDownVertexes d v) \<le> card (edges d)" "length (GetUpVertexes d v) \<le> card (edges d)"
proof -
  have fin: "finite (edges d)" and d: "distinct (GetDownVertexes d v)" "distinct (GetUpVertexes d v)"
    and up: "upedges d = edges d" using assms by (auto simp: dag_ok_def)
  have "Pair v ` set (GetDownVertexes d v) \<subseteq> edges d" by (auto simp: edges_def)
  then have "card (Pair v ` set (GetDownVertexes d v)) \<le> card (edges d)" by (rule card_mono [OF fin])
  then show "length (GetDownVertexes d v) \<le> card (edges d)"
    by (simp add: card_image inj_on_def distinct_card [OF d(1)])
  have "(\<lambda>u. (u, v)) ` set (GetUpVertexes d v) \<subseteq> edges d" unfolding up [symmetric] by (auto simp: upedges_def)
  then have "card ((\<lambda>u. (u, v)) ` set (GetUpVertexes d v)) \<le> card (edges d)" by (rule card_mono [OF fin])
  then show "length (GetUpVertexes d v) \<le> card (edges d)"
    by (simp add: card_image inj_on_def distinct_card [OF d(2)])
qed

lemma order_length: "orderOf ord keys \<Longrightarrow> length ord \<le> length keys"
  unfolding orderOf_def by (metis card_length distinct_card)

lemma walkCost_down:
  assumes "dag_ok d" and "acyclic (edges d)"
  shows "workerCost d + sum_list (map (walkCost d) (GetDownVertexes d v)) \<le> walkCost d v"
proof -
  let ?E = "int (card (edges d))" and ?P = "(int (card (edges d)) + 1) ^ height d v"
  have P: "1 \<le> ?P" by (rule one_le_power) simp
  have W: "0 \<le> workerCost d" using workerCost_pos [of d] by simp
  have "walkCost d w \<le> workerCost d * ?P" if "w \<in> set (GetDownVertexes d v)" for w
  proof -
    have "height d w + 1 \<le> height d v"
      using height_less [of d v w] assms that by (simp add: dag_ok_def edges_def)
    then have "(?E + 1) ^ (height d w + 1) \<le> ?P" by (rule power_increasing) simp
    then show ?thesis unfolding walkCost_def by (rule mult_left_mono [OF _ W])
  qed
  then have "sum_list (map (walkCost d) (GetDownVertexes d v)) \<le>
      sum_list (map (\<lambda>_. workerCost d * ?P) (GetDownVertexes d v))"
    by (rule sum_list_mono)
  also have "\<dots> = int (length (GetDownVertexes d v)) * (workerCost d * ?P)" by (simp add: sum_list_triv)
  also have "\<dots> \<le> ?E * (workerCost d * ?P)"
    using neighbours_bounded(1) [OF assms(1), of v] W P by (intro mult_right_mono) simp_all
  finally have "sum_list (map (walkCost d) (GetDownVertexes d v)) \<le> ?E * (workerCost d * ?P)" .
  moreover have "workerCost d \<le> workerCost d * ?P" using mult_left_mono [OF P W] by simp
  ultimately show ?thesis by (simp add: walkCost_def algebra_simps)
qed

lemma map_cost_exec: "map (cost d \<circ> TExec) vs = map (walkCost d) vs"
  by simp

lemma work_step:
  assumes "dag_ok d" and "acyclic (edges d)" and act: "act d c s = Some t" and "c \<noteq> Cancel"
  shows "work d t < work d s"
proof -
  have np: "\<not> panicked s" using act by (auto simp: act.simps)
  note down = walkCost_down [OF assms(1,2)]
  note simps = work_def thread_simps comp_def np
  show ?thesis
    using act
  proof (cases rule: act_cases)
    case panic
    then show ?thesis using np by (simp add: work_def thread_simps)
  next
    case cancel
    then show ?thesis using assms(4) by simp
  next
    case (exec_skip n v)
    then show ?thesis using down [of v] workerCost_pos [of d] by (simp add: simps)
  next
    case (exec_mark n v)
    then show ?thesis by (simp add: simps)
  next
    case (mark_it n v ord)
    have "int (length ord) \<le> int (card (edges d))"
      using order_length [OF mark_it(2)] neighbours_bounded(2) [OF assms(1), of v] by simp
    with mark_it show ?thesis using down [of v] by (simp add: simps workerCost_def)
  next
    case (start_fn n v)
    then show ?thesis by (simp add: simps)
  next
    case (finish_fn n v b ord)
    have "length (doneChs d v) \<le> length (vertices d)"
      by (simp add: doneChs_def GetVertices_def length_filter_le [THEN order_trans])
    then have "length ord \<le> length (vertices d)" using order_length [OF finish_fn(2)] by simp
    with finish_fn show ?thesis by (simp add: simps)
  qed (simp_all add: simps)
qed

lemma run_choices_bounded:
  assumes "dag_ok d" and "acyclic (edges d)"
  shows "run_choices d cs s = Some t \<Longrightarrow> Cancel \<notin> set cs \<Longrightarrow> int (length cs) + work d t \<le> work d s"
  unfolding run_choices_def
proof (induction cs arbitrary: s)
  case (Cons c cs)
  then obtain s' where "act d c s = Some s'" and "ofold (act d) cs s' = Some t" by (auto simp: bind_eq_Some_conv)
  with Cons show ?case using work_step [OF assms, of c s s'] by force
qed simp

section \<open>Graphs in which a vertex depends on one other\<close>

definition treeLike :: "'v dag \<Rightarrow> string \<Rightarrow> bool" where
  "treeLike d root \<longleftrightarrow> dag_ok d \<and> VertexExists d root \<and> GetUpVertexes d root = [] \<and>
     (\<forall>v. length (GetUpVertexes d v) \<le> 1) \<and>
     (\<forall>(u, w)\<in>edges d. VertexExists d u \<and> VertexExists d w) \<and>
     (\<forall>v. VertexExists d v \<longrightarrow> (root, v) \<in> (edges d)\<^sup>*)"

text \<open>What is counted: the goroutines that are to schedule a vertex, those that work for it, the values it still
  owes, the channels it is about to close, and the workers that have the value of a dependency.\<close>

fun sched :: "string \<Rightarrow> thread \<Rightarrow> int" where
  "sched v (TExec v') = of_bool (v' = v)"
| "sched v (TMark v') = of_bool (v' = v)"
| "sched v t = 0"

fun life :: "string \<Rightarrow> thread \<Rightarrow> int" where
  "life v (TWait v' us) = of_bool (v' = v)"
| "life v (TRun v') = of_bool (v' = v)"
| "life v (TSend v' b ws) = of_bool (v' = v)"
| "life v (TClose v' b w ws) = of_bool (v' = v)"
| "life v (TCloseFn v') = of_bool (v' = v)"
| "life v t = 0"

fun owed :: "string \<Rightarrow> string \<Rightarrow> thread \<Rightarrow> int" where
  "owed u w (TSend u' b ws) = of_bool (u' = u \<and> w \<in> set ws)"
| "owed u w (TClose u' b w' ws) = of_bool (u' = u \<and> w \<in> set ws)"
| "owed u w t = 0"

fun closing :: "string \<Rightarrow> string \<Rightarrow> thread \<Rightarrow> int" where
  "closing u w (TClose u' b w' ws) = of_bool (u' = u \<and> w' = w)"
| "closing u w t = 0"

fun got :: "string \<Rightarrow> string \<Rightarrow> thread \<Rightarrow> int" where
  "got u w (TWait w' us) = of_bool (w' = w \<and> u \<notin> set us)"
| "got u w t = 0"

lemma more_nonneg: "0 \<le> sched v t" "0 \<le> life v t" "0 \<le> owed u w t" "0 \<le> closing u w t" "0 \<le> got u w t"
  by (cases t; simp)+

definition vertexInv :: "string \<Rightarrow> est \<Rightarrow> bool" where
  "vertexInv v s \<longleftrightarrow>
     weigh (life v) s + of_bool (v \<in> fnClosed s) = of_bool (v \<in> visited s) \<and>
     weigh (workers v) s + logged s (Started v) = of_bool (v \<in> visited s)"

definition edgeInv :: "string \<Rightarrow> string \<Rightarrow> est \<Rightarrow> bool" where
  "edgeInv u w s \<longleftrightarrow>
     weigh (sched w) s + of_bool (w \<in> visited s) = of_bool (u \<in> visited s) \<and>
     weigh (owed u w) s + weigh (closing u w) s + of_bool ((u, w) \<in> depClosed s) = finishes s u \<and>
     weigh (closing u w) s + of_bool ((u, w) \<in> depClosed s) = weigh (got u w) s + logged s (Started w)"

fun sends :: "'v dag \<Rightarrow> thread \<Rightarrow> bool" where
  "sends d (TSend u b ws) = (set ws \<subseteq> set (doneChs d u))"
| "sends d (TClose u b w ws) = (w \<in> set (doneChs d u) \<and> set ws \<subseteq> set (doneChs d u))"
| "sends d t = True"

definition treeInv :: "'v dag \<Rightarrow> string \<Rightarrow> est \<Rightarrow> bool" where
  "treeInv d root s \<longleftrightarrow> base_inv d root s \<and> allT (sends d) s \<and> weigh (sched root) s = 0 \<and>
     (\<forall>v. vertexInv v s) \<and> (\<forall>(u, w)\<in>edges d. edgeInv u w s)"

lemma sum_of_bool: "distinct xs \<Longrightarrow> sum_list (map (\<lambda>y. of_bool (y = x)) xs) = (of_bool (x \<in> set xs) :: int)"
  by (induction xs) auto

lemma sum_of_bool': "distinct xs \<Longrightarrow> sum_list (map (\<lambda>y. of_bool (x = y)) xs) = (of_bool (x \<in> set xs) :: int)"
  by (induction xs) auto

lemma sum_zero: "sum_list (map (\<lambda>_. 0) xs) = (0 :: int)"
  by (induction xs) auto

lemma threadAt_mem: "threadAt s n = Some x \<Longrightarrow> x \<in> set (threads s)"
  by (auto simp: threadAt_def split: if_splits)

lemma mem_threadAt: "x \<in> set (threads s) \<Longrightarrow> \<exists>n. threadAt s n = Some x"
  by (auto simp: threadAt_def in_set_conv_nth)

lemma treeLikeD:
  assumes "treeLike d root"
  shows "dag_ok d" "VertexExists d root" "GetUpVertexes d root = []" "distinct (GetDownVertexes d v)"
    "w \<in> set (GetDownVertexes d u) \<longleftrightarrow> (u, w) \<in> edges d" "u \<in> set (GetUpVertexes d w) \<longleftrightarrow> (u, w) \<in> edges d"
    "(u, w) \<in> edges d \<Longrightarrow> VertexExists d u \<and> VertexExists d w \<and> w \<noteq> root"
    "(u, w) \<in> edges d \<Longrightarrow> (u', w) \<in> edges d \<Longrightarrow> u' = u"
    "VertexExists d v \<Longrightarrow> (root, v) \<in> (edges d)\<^sup>*"
proof -
  have up: "u \<in> set (GetUpVertexes d w) \<longleftrightarrow> (u, w) \<in> edges d" for u w
    using assms by (auto simp: treeLike_def dag_ok_def upedges_def)
  show "dag_ok d" "VertexExists d root" "GetUpVertexes d root = []" "distinct (GetDownVertexes d v)"
    "w \<in> set (GetDownVertexes d u) \<longleftrightarrow> (u, w) \<in> edges d" "u \<in> set (GetUpVertexes d w) \<longleftrightarrow> (u, w) \<in> edges d"
    "VertexExists d v \<Longrightarrow> (root, v) \<in> (edges d)\<^sup>*"
    using assms up by (auto simp: treeLike_def dag_ok_def edges_def)
  show "(u, w) \<in> edges d \<Longrightarrow> VertexExists d u \<and> VertexExists d w \<and> w \<noteq> root"
    using assms up [of u w] by (auto simp: treeLike_def)
  have "length (GetUpVertexes d w) \<le> 1" using assms by (simp add: treeLike_def)
  then show "(u, w) \<in> edges d \<Longrightarrow> (u', w) \<in> edges d \<Longrightarrow> u' = u"
    unfolding up [symmetric] by (cases "GetUpVertexes d w") auto
qed

lemma below_parent: "below d root v \<Longrightarrow> v = root \<or> (\<exists>u. (u, v) \<in> edges d)"
  by (auto simp: below_def elim: rtranclE)

lemma doneChs_edge: "treeLike d root \<Longrightarrow> w \<in> set (doneChs d u) \<longleftrightarrow> (u, w) \<in> edges d"
  using treeLikeD(6,7) by (fastforce simp: doneChs_def GetVertices_def VertexExists_def gget_None_iff)

text \<open>A vertex is scheduled once, and a worker never finds the channel of its dependency closed.\<close>

lemma scheduled_once:
  assumes tree: "treeLike d root" and inv: "treeInv d root s" and "t \<in> set (threads s)" and "sched v t = 1"
  shows "v \<notin> visited s"
proof
  assume vis: "v \<in> visited s"
  have one: "1 \<le> weigh (sched v) s" using weigh_member [OF assms(3), of "sched v", OF more_nonneg(1)] assms(4) by simp
  have "tok d root (set (runLog s)) t" using inv assms(3) by (auto simp: treeInv_def base_inv_def allT_def)
  then have "below d root v" using assms(4) by (cases t) auto
  then show False
  proof (cases "v = root")
    case True
    then show False using inv one by (simp add: treeInv_def)
  next
    case False
    then obtain u where "(u, v) \<in> edges d" using below_parent \<open>below d root v\<close> by blast
    then have "edgeInv u v s" using inv by (auto simp: treeInv_def)
    then show False using one vis by (cases "u \<in> visited s") (simp_all add: edgeInv_def)
  qed
qed

lemma weigh_minus: "weigh (\<lambda>t. f t - g t) s = weigh f s - weigh g s"
  unfolding weigh_def by (induction "threads s" arbitrary: s) (auto simp: sum_list_subtractf)

lemma not_got:
  assumes inv: "vertexInv w s" and t: "TWait w us \<in> set (threads s)" and "u \<in> set us"
  shows "weigh (got u w) s = 0" "logged s (Started w) = 0"
proof -
  have nn: "0 \<le> workers w x - got u w x" for x by (cases x) auto
  have "1 \<le> weigh (\<lambda>x. workers w x - got u w x) s"
    using weigh_member [OF t, of "\<lambda>x. workers w x - got u w x", OF nn] assms(3) by simp
  moreover have "0 \<le> weigh (got u w) s" by (rule weigh_nonneg [OF more_nonneg(5)])
  moreover have "0 \<le> logged s (Started w)" by (simp add: logged_def)
  moreover have "weigh (workers w) s + logged s (Started w) \<le> 1" using inv by (simp add: vertexInv_def)
  ultimately show "weigh (got u w) s = 0" "logged s (Started w) = 0" by (simp_all add: weigh_minus)
qed

lemma wait_not_closed:
  assumes tree: "treeLike d root" and inv: "treeInv d root s" and t: "TWait w (u # us) \<in> set (threads s)"
  shows "(u, w) \<notin> depClosed s" "(u, w) \<in> edges d"
proof -
  have "allT (tok d root (set (runLog s))) s" using inv by (simp add: treeInv_def base_inv_def)
  then have "tok d root (set (runLog s)) (TWait w (u # us))" using t unfolding allT_def by blast
  then show e: "(u, w) \<in> edges d" using treeLikeD(6) [OF tree] by auto
  have "vertexInv w s" "edgeInv u w s" using inv e by (auto simp: treeInv_def)
  with not_got [of w s "u # us" u] t have "weigh (closing u w) s + of_bool ((u, w) \<in> depClosed s) = 0"
    by (simp add: edgeInv_def)
  then show "(u, w) \<notin> depClosed s" using weigh_nonneg [of "closing u w" s, OF more_nonneg(4)] by auto
qed

text \<open>The invariant under the steps.\<close>

lemma sends_step:
  assumes "act d c s = Some t" and "allT (sends d) s"
  shows "allT (sends d) t"
proof -
  note at = allT_at [OF assms(2)]
  show ?thesis
    using assms(1)
  proof (cases rule: act_cases)
    case (finish_fn n v b ord)
    then show ?thesis using assms(2) by (auto simp: orderOf_def)
  next
    case (sync_dep n k u b w ws us)
    then show ?thesis using assms(2) at [OF sync_dep(1)] by (auto intro!: allT_setThread)
  next
    case (close_dep n u b w ws)
    then show ?thesis using assms(2) at [OF close_dep(1)] by auto
  next
    case (fn_sync n k u b vs)
    then show ?thesis using assms(2) by (auto intro!: allT_setThread)
  qed (use assms(2) in auto)
qed

lemma sched_root_step:
  assumes "act d c s = Some t" and tree: "treeLike d root" and "weigh (sched root) s = 0"
  shows "weigh (sched root) t = 0"
proof -
  have nr: "root \<notin> set (GetDownVertexes d v)" for v using treeLikeD(5,7) [OF tree] by blast
  have down: "sum_list (map (\<lambda>y. of_bool (y = root)) (GetDownVertexes d v)) = (0 :: int)" for v
    using sum_of_bool [OF treeLikeD(4) [OF tree], of root v] nr [of v] by simp
  have other: "sched root x = 0" if "threadAt s n = Some x" for n x
    using weigh_member [OF threadAt_mem [OF that], of "sched root", OF more_nonneg(1)] more_nonneg(1) [of root x] assms(3) by simp
  show ?thesis using assms(1)
  proof (cases rule: act_cases)
    case (exec_skip n v)
    then show ?thesis using assms(3) down [of v] other [OF exec_skip(1)] by (simp add: thread_simps comp_def)
  next
    case (exec_mark n v)
    then show ?thesis using assms(3) other [OF exec_mark(1)] by (simp add: thread_simps)
  next
    case (mark_it n v ord)
    then show ?thesis using assms(3) down [of v] other [OF mark_it(1)] by (simp add: thread_simps comp_def)
  qed (use assms(3) down in \<open>auto simp: thread_simps comp_def\<close>)
qed

lemma vertexInv_step:
  assumes act: "act d c s = Some t" and tree: "treeLike d root" and inv: "treeInv d root s"
  shows "vertexInv v t"
proof -
  have v: "vertexInv v s" using inv by (simp add: treeInv_def)
  note le = v [unfolded vertexInv_def]
  show ?thesis
    using act
  proof (cases rule: act_cases)
    case (mark_it n x ord)
    have "x \<notin> visited s" by (rule scheduled_once [OF tree inv threadAt_mem [OF mark_it(1)]]) simp
    with mark_it show ?thesis using le by (auto simp: vertexInv_def count_simps sum_zero)
  next
    case (recv_closed n w u us)
    then show ?thesis using wait_not_closed [OF tree inv threadAt_mem [OF recv_closed(1)]] by simp
  next
    case (finish_fn n x b ord)
    then show ?thesis using le by (cases b) (auto simp: vertexInv_def count_simps)
  qed (use le in \<open>auto simp: vertexInv_def count_simps sum_zero\<close>)
qed

lemma edgeInv_step:
  assumes act: "act d c s = Some t" and tree: "treeLike d root" and inv: "treeInv d root s" and e: "(u, w) \<in> edges d"
  shows "edgeInv u w t"
proof -
  have base: "base_inv d root s" and i: "edgeInv u w s" and sends: "allT (sends d) s"
    using inv e by (auto simp: treeInv_def)
  have at: "tok d root (set (runLog s)) x" if "threadAt s n = Some x" for n x
    using base that by (auto simp: base_inv_def dest: allT_at)
  note le = i [unfolded edgeInv_def]
  show ?thesis
    using act
  proof (cases rule: act_cases)
    case (exec_skip n v)
    have "v \<notin> visited s" by (rule scheduled_once [OF tree inv threadAt_mem [OF exec_skip(1)]]) simp
    with exec_skip show ?thesis by simp
  next
    case (mark_it n v ord)
    have nv: "v \<notin> visited s" by (rule scheduled_once [OF tree inv threadAt_mem [OF mark_it(1)]]) simp
    have down: "sum_list (map (\<lambda>y. of_bool (y = w)) (GetDownVertexes d v)) = (of_bool (u = v) :: int)"
      using sum_of_bool [OF treeLikeD(4) [OF tree], of w v] treeLikeD(5,8) [OF tree] e by auto
    have "u \<in> set ord \<longleftrightarrow> (u, v) \<in> edges d" using mark_it(2) treeLikeD(6) [OF tree] by (auto simp: orderOf_def)
    with mark_it nv down show ?thesis using le e by (auto simp: edgeInv_def count_simps sum_zero)
  next
    case (finish_fn n v b ord)
    have "w \<in> set ord \<longleftrightarrow> (v, w) \<in> edges d" using finish_fn(2) doneChs_edge [OF tree] by (auto simp: orderOf_def)
    with finish_fn show ?thesis using le e by (cases b) (auto simp: edgeInv_def count_simps)
  next
    case (sync_dep n k u' b w' ws us)
    then show ?thesis using le at [OF sync_dep(1)] at [OF sync_dep(2)]
      by (auto simp: edgeInv_def count_simps)
  next
    case (close_dep n u' b w' ws)
    then show ?thesis using le at [OF close_dep(1)] by (auto simp: edgeInv_def count_simps)
  next
    case (recv_closed n w u us)
    then show ?thesis using wait_not_closed [OF tree inv threadAt_mem [OF recv_closed(1)]] by simp
  qed (use le in \<open>auto simp: edgeInv_def count_simps\<close>)
qed

lemma treeInv_step: "act d c s = Some t \<Longrightarrow> treeLike d root \<Longrightarrow> treeInv d root s \<Longrightarrow> treeInv d root t"
  unfolding treeInv_def [of d root t]
  using base_inv_step sends_step sched_root_step vertexInv_step edgeInv_step
  by (smt (verit, best) case_prodI2 treeInv_def)

lemma treeInv_start:
  assumes "execute_from d root depOrd mainOrd = Some s" and tree: "treeLike d root"
  shows "treeInv d root s"
proof -
  have s: "s = \<lparr>threads = TMain mainOrd # TWait root [] # map TExec (GetDownVertexes d root),
      visited = {root}, depClosed = {}, fnClosed = {}, cancelled = False, panicked = False, runLog = []\<rparr>"
    using assms(1) treeLikeD(3) [OF tree] by (auto simp: execute_from_def orderOf_def split: if_splits Option.bind_splits)
  have down: "sum_list (map (\<lambda>y. of_bool (y = w)) (GetDownVertexes d root)) = (of_bool ((root, w) \<in> edges d) :: int)" for w
    using sum_of_bool [OF treeLikeD(4) [OF tree], of w root] treeLikeD(5) [OF tree] by simp
  have "edgeInv u w s" if "(u, w) \<in> edges d" for u w
    using that treeLikeD(7,8) [OF tree] down [of w]
    by (auto simp: edgeInv_def s weigh_def logged_def finishes_def comp_def sum_zero)
  moreover have "vertexInv v s" for v by (auto simp: vertexInv_def s weigh_def logged_def comp_def sum_zero)
  moreover have "weigh (sched root) s = 0"
    using down [of root] treeLikeD(7) [OF tree, of root root] by (auto simp: s weigh_def comp_def)
  ultimately show ?thesis
    using base_inv_start [OF assms(1)] by (auto simp: treeInv_def allT_def s)
qed

lemma treeInv: "reachable d root s \<Longrightarrow> treeLike d root \<Longrightarrow> treeInv d root s"
  by (induction rule: reachable.induct) (auto intro: treeInv_start treeInv_step)

section \<open>A run that cannot go on has returned\<close>

text \<open>The main goroutine: the functions it still waits for are those of vertices whose channels are open and
  have not been used.\<close>

fun mains :: "thread \<Rightarrow> int" where
  "mains (TMain vs) = 1"
| "mains (TReturned b) = 1"
| "mains t = 0"

fun closingFn :: "string \<Rightarrow> thread \<Rightarrow> int" where
  "closingFn v (TCloseFn v') = of_bool (v' = v)"
| "closingFn v t = 0"

fun awaits :: "'v dag \<Rightarrow> est \<Rightarrow> thread \<Rightarrow> bool" where
  "awaits d s (TMain vs) = (distinct vs \<and> (\<forall>v\<in>set vs. VertexExists d v \<and> v \<notin> fnClosed s \<and> weigh (closingFn v) s = 0))"
| "awaits d s t = True"

definition mainInv :: "'v dag \<Rightarrow> est \<Rightarrow> bool" where
  "mainInv d s \<longleftrightarrow> weigh mains s = 1 \<and> allT (awaits d s) s"

lemma mains_nonneg: "0 \<le> mains t" "0 \<le> closingFn v t"
  by (cases t; simp)+

lemma mainInv_start: "execute_from d root depOrd mainOrd = Some s \<Longrightarrow> mainInv d s"
  by (auto simp: execute_from_def mainInv_def allT_def weigh_def orderOf_def comp_def sum_zero GetVertices_def
      VertexExists_def gget_None_iff split: if_splits Option.bind_splits)

lemma awaits_mono:
  assumes "awaits d s t" and "fnClosed s' = fnClosed s" and "\<And>v. weigh (closingFn v) s' = weigh (closingFn v) s"
  shows "awaits d s' t"
  using assms by (cases t) auto

lemma allT_awaits:
  assumes "allT (awaits d s) r" and "fnClosed s' = fnClosed s" and "\<And>v. weigh (closingFn v) s' = weigh (closingFn v) s"
  shows "allT (awaits d s') r"
  using allT_mono [OF assms(1)] awaits_mono [OF _ assms(2,3)] by blast

lemma unique_main:
  assumes "weigh mains s = 1" and "x \<in> set (threads s)" "mains x = 1" and "y \<in> set (threads s)" "mains y = 1"
  shows "x = y"
proof (rule ccontr)
  assume ne: "x \<noteq> y"
  let ?f = "\<lambda>z t. (of_bool (t = z) :: int)"
  have "?f x t + ?f y t \<le> mains t" for t
    using ne assms(3,5) mains_nonneg(1) [of t] by auto
  then have "weigh (\<lambda>t. ?f x t + ?f y t) s \<le> weigh mains s"
    unfolding weigh_def by (intro sum_list_mono) simp
  moreover have "1 \<le> weigh (?f x) s" "1 \<le> weigh (?f y) s"
    using weigh_member [OF assms(2), of "?f x"] weigh_member [OF assms(4), of "?f y"] by simp_all
  moreover have "weigh (\<lambda>t. ?f x t + ?f y t) s = weigh (?f x) s + weigh (?f y) s"
    unfolding weigh_def by (simp add: sum_list_addf)
  ultimately show False using assms(1) by simp
qed

lemma mainInv_step:
  assumes act: "act d c s = Some t" and inv: "mainInv d s"
  shows "mainInv d t"
proof -
  have m: "weigh mains s = 1" and aw: "allT (awaits d s) s" using inv by (simp_all add: mainInv_def)
  have main: "weigh mains t = 1"
    using act by (cases rule: act_cases) (use m in \<open>auto simp: thread_simps comp_def sum_zero\<close>)
  have keep: "allT (awaits d t) s" if "fnClosed t = fnClosed s" and "\<And>v. weigh (closingFn v) t = weigh (closingFn v) s"
    by (rule allT_awaits [OF aw that])
  have "allT (awaits d t) t"
    using act
  proof (cases rule: act_cases)
    case (fn_sync n k u b vs)
    have a: "awaits d s (TMain (u # vs))" by (rule allT_at [OF aw fn_sync(2)])
    show ?thesis
    proof (cases b)
      case True
      have cl: "weigh (closingFn v) t = weigh (closingFn v) s + of_bool (u = v)" for v
        using fn_sync True by (auto simp: thread_simps)
      have "threadAt t k = Some (TMain vs)"
        using fn_sync(2,5) True by (auto simp: threadAt_def setThread_def split: if_splits)
      then have mem: "TMain vs \<in> set (threads t)" by (rule threadAt_mem)
      have "awaits d t (TMain vs)" using a cl fn_sync(5) True by (auto simp: thread_simps)
      then show ?thesis unfolding allT_def using unique_main [OF main mem] by (metis awaits.elims(3) mains.simps(1))
    next
      case False
      have "threadAt t k = Some (TReturned False)"
        using fn_sync(2,5) False by (auto simp: threadAt_def setThread_def split: if_splits)
      then have "x \<noteq> TMain ys" if "x \<in> set (threads t)" for x ys
        using unique_main [OF main threadAt_mem, of k "TReturned False" x] that by auto
      then show ?thesis unfolding allT_def by (metis awaits.elims(3))
    qed
  next
    case (close_fn n u)
    have 1: "1 \<le> weigh (closingFn u) s"
      using weigh_member [OF threadAt_mem [OF close_fn(1)], of "closingFn u", OF mains_nonneg(2)] by simp
    have cl: "weigh (closingFn v) t = weigh (closingFn v) s - of_bool (u = v)" for v
      using close_fn by (auto simp: thread_simps)
    have "awaits d t x" if "awaits d s x" for x
      using that 1 cl close_fn(3) by (cases x) (auto simp: thread_simps)
    then have "allT (awaits d t) s" using allT_mono [OF aw] by blast
    then show ?thesis unfolding close_fn(3) using close_fn(3) by (auto intro!: allT_setThread)
  next
    case (sync_dep n k u b w ws us)
    then have "allT (awaits d t) s" by (intro keep) (auto simp: thread_simps)
    then show ?thesis unfolding sync_dep(5) by (auto intro!: allT_setThread)
  qed (use keep in \<open>auto simp: thread_simps comp_def sum_zero intro!: allT_setThread\<close>)
  with main show ?thesis by (simp add: mainInv_def)
qed

lemma mainInv: "reachable d root s \<Longrightarrow> mainInv d s"
  by (induction rule: reachable.induct) (auto intro: mainInv_start mainInv_step)

definition stuck :: "'v dag \<Rightarrow> est \<Rightarrow> bool" where
  "stuck d s \<longleftrightarrow> (\<forall>c. c \<noteq> Cancel \<longrightarrow> act d c s = None)"

lemma stuckD: "stuck d s \<Longrightarrow> c \<noteq> Cancel \<Longrightarrow> act d c s = None"
  by (simp add: stuck_def)

lemma an_order: "orderOf (remdups xs) xs"
  by (simp add: orderOf_def)

lemma stuck_thread:
  assumes st: "stuck d s" and np: "\<not> panicked s" and "x \<in> set (threads s)"
  shows "(\<exists>w u us. x = TWait w (u # us)) \<or> (\<exists>u b ws. x = TSend u b ws) \<or> (\<exists>v vs. x = TMain (v # vs)) \<or>
    (\<exists>b. x = TReturned b) \<or> x = TEnd"
proof -
  obtain n where n: "threadAt s n = Some x" using mem_threadAt [OF assms(3)] by blast
  note no = stuckD [OF st]
  show ?thesis
  proof (cases x)
    case (TExec v)
    then show ?thesis using no [of "Exec n"] n np by (simp add: act.simps step_exec_def)
  next
    case (TMark v)
    then show ?thesis using no [of "Mark n (remdups (GetUpVertexes d v))"] n np an_order by (simp add: act.simps step_mark_def)
  next
    case (TWait w us)
    then show ?thesis using no [of "Start n"] n np by (cases us) (simp_all add: act.simps step_start_def)
  next
    case (TRun v)
    then show ?thesis using no [of "Finish n True (remdups (doneChs d v))"] n np an_order by (simp add: act.simps step_finish_def)
  next
    case (TClose u b w ws)
    then show ?thesis using no [of "CloseDep n"] n np by (simp add: act.simps step_close_dep_def)
  next
    case (TCloseFn u)
    then show ?thesis using no [of "CloseFn n"] n np by (simp add: act.simps step_close_fn_def)
  next
    case (TMain vs)
    then show ?thesis using no [of "MainEnd n"] n np by (cases vs) (simp_all add: act.simps step_main_end_def)
  qed simp_all
qed

lemma weigh_zero: "(\<And>x. x \<in> set (threads s) \<Longrightarrow> f x = 0) \<Longrightarrow> weigh f s = 0"
  unfolding weigh_def by (rule sum_list_zero)

lemma weigh_pos: "0 < weigh f s \<Longrightarrow> \<exists>x\<in>set (threads s). f x \<noteq> 0"
  using weigh_zero [of s f] by force

lemma stuck_np:
  assumes tree: "treeLike d root" and run: "reachable d root s" and st: "stuck d s"
  shows "\<not> panicked s"
  using no_panic [OF treeLikeD(1) [OF tree] _ run] treeLikeD(7) [OF tree] by blast

lemma stuck_worker:
  assumes tree: "treeLike d root" and run: "reachable d root s" and st: "stuck d s"
    and x: "x \<in> set (threads s)" "workers v x \<noteq> 0"
  shows "\<exists>us. x = TWait v us"
  using stuck_thread [OF st stuck_np [OF tree run st] x(1)] x(2) by (elim disjE exE) (simp_all split: if_splits)

lemma stuck_inv:
  assumes tree: "treeLike d root" and run: "reachable d root s" and st: "stuck d s"
  shows "vertexInv v s" "(u, w) \<in> edges d \<Longrightarrow> edgeInv u w s" "weigh (sched root) s = 0" "root \<in> visited s"
  using treeInv [OF run tree] by (auto simp: treeInv_def base_inv_def)

lemma stuck_zero:
  assumes tree: "treeLike d root" and run: "reachable d root s" and st: "stuck d s"
  shows "weigh (sched v) s = 0" "weigh (closing u w) s = 0" "weigh (running v) s = 0" "weigh (closingFn v) s = 0"
  by (rule weigh_zero; use stuck_thread [OF st stuck_np [OF tree run st]] in fastforce)+

lemma stuck_visited:
  assumes tree: "treeLike d root" and run: "reachable d root s" and st: "stuck d s" and "VertexExists d v"
  shows "v \<in> visited s"
proof -
  have "(root, v) \<in> (edges d)\<^sup>*" by (rule treeLikeD(9) [OF tree assms(4)])
  then show ?thesis
  proof (induction rule: rtrancl_induct)
    case base
    then show ?case by (rule stuck_inv(4) [OF tree run st])
  next
    case (step u w)
    then show ?case using stuck_inv(2) [OF tree run st step.hyps(2)] stuck_zero(1) [OF tree run st, of w] by (simp add: edgeInv_def)
  qed
qed

lemma stuck_waits:
  assumes tree: "treeLike d root" and run: "reachable d root s" and st: "stuck d s"
    and "TWait w us \<in> set (threads s)"
  shows "\<exists>u. us = [u] \<and> (u, w) \<in> edges d"
proof -
  obtain u vs where us: "us = u # vs" using stuck_thread [OF st stuck_np [OF tree run st] assms(4)] by auto
  have "allT (tok d root (set (runLog s))) s" using base_inv [OF run] by (simp add: base_inv_def)
  then have t: "distinct us" "set us \<subseteq> set (GetUpVertexes d w)" using assms(4) unfolding allT_def by fastforce+
  then have "v = u" if "v \<in> set vs" for v using that us treeLikeD(6,8) [OF tree] by (metis list.set_intros subsetD)
  then have "vs = []" using t(1) us by (cases vs) auto
  then show ?thesis using us t(2) treeLikeD(6) [OF tree] by auto
qed

text \<open>A value is always received: the dependent vertex waits for it.\<close>

lemma stuck_no_value:
  assumes tree: "treeLike d root" and run: "reachable d root s" and st: "stuck d s"
  shows "TSend u b (w # ws) \<notin> set (threads s)"
proof
  assume t: "TSend u b (w # ws) \<in> set (threads s)"
  have "allT (sends d) s" using treeInv [OF run tree] by (simp add: treeInv_def)
  then have "w \<in> set (doneChs d u)" using t unfolding allT_def by fastforce
  then have e: "(u, w) \<in> edges d" using doneChs_edge [OF tree] by simp
  have ei: "edgeInv u w s" by (rule stuck_inv(2) [OF tree run st e])
  have "1 \<le> weigh (owed u w) s" using weigh_member [OF t, of "owed u w", OF more_nonneg(3)] by simp
  moreover have "finishes s u \<le> 1" using finishes_le_started [OF run, of u] started_once [OF treeLikeD(1) [OF tree] run, of u] by simp
  moreover have "0 \<le> weigh (got u w) s" "0 \<le> logged s (Started w)"
    using weigh_nonneg [OF more_nonneg(5)] by (simp_all add: logged_def)
  moreover have "weigh (owed u w) s + (weigh (got u w) s + logged s (Started w)) = finishes s u"
      "of_bool ((u, w) \<in> depClosed s) = weigh (got u w) s + logged s (Started w)"
    using ei stuck_zero(2) [OF tree run st, of u w] by (simp_all add: edgeInv_def)
  ultimately have "logged s (Started w) = 0" and open': "(u, w) \<notin> depClosed s"
    by (linarith, (cases "(u, w) \<in> depClosed s"; simp))
  then have "weigh (workers w) s = 1"
    using stuck_inv(1) [OF tree run st, of w] stuck_visited [OF tree run st, of w] treeLikeD(7) [OF tree e] by (simp add: vertexInv_def)
  then obtain x where x: "x \<in> set (threads s)" "workers w x \<noteq> 0" using weigh_pos [of "workers w" s] by auto
  then obtain us where "x = TWait w us" using stuck_worker [OF tree run st] by blast
  with x(1) obtain u' where "TWait w [u'] \<in> set (threads s)" "(u', w) \<in> edges d" using stuck_waits [OF tree run st] by blast
  then have "TWait w [u] \<in> set (threads s)" using treeLikeD(8) [OF tree e] by blast
  then obtain m where m: "threadAt s m = Some (TWait w [u])" using mem_threadAt by blast
  obtain n where n: "threadAt s n = Some (TSend u b (w # ws))" using mem_threadAt [OF t] by blast
  show False using stuckD [OF st, of "Sync n m"] stuck_np [OF tree run st] n m open' by (simp add: act.simps step_sync_def)
qed

lemma stuck_finished:
  assumes tree: "treeLike d root" and run: "reachable d root s" and st: "stuck d s" and "VertexExists d v"
  shows "finishes s v = 1 \<and> weigh (workers v) s = 0"
proof -
  have run1: "finishes s v = logged s (Started v)" for v
    using counts [OF run, of v v] stuck_zero(3) [OF tree run st, of v] by (simp add: counts_def)
  have fin: "finishes s v = 1 \<and> weigh (workers v) s = 0" if "VertexExists d v" "\<And>us. TWait v us \<notin> set (threads s)" for v
  proof -
    have "weigh (workers v) s = 0"
      by (rule weigh_zero) (metis stuck_worker [OF tree run st] that(2))
    then show ?thesis using stuck_inv(1) [OF tree run st, of v] stuck_visited [OF tree run st that(1)] run1 by (simp add: vertexInv_def)
  qed
  have "(root, v) \<in> (edges d)\<^sup>*" by (rule treeLikeD(9) [OF tree assms(4)])
  then show ?thesis
  proof (induction rule: rtrancl_induct)
    case base
    have "TWait root us \<notin> set (threads s)" for us using stuck_waits [OF tree run st, of root us] treeLikeD(7) [OF tree] by blast
    then show ?case using fin treeLikeD(2) [OF tree] by blast
  next
    case (step u w)
    have "TWait w us \<notin> set (threads s)" for us
    proof
      assume t: "TWait w us \<in> set (threads s)"
      then obtain u' where "us = [u']" "(u', w) \<in> edges d" using stuck_waits [OF tree run st] by blast
      then have us: "us = [u]" using treeLikeD(8) [OF tree step.hyps(2)] by blast
      have "weigh (owed u w) s = 0"
      proof (rule weigh_zero)
        fix x assume x: "x \<in> set (threads s)"
        show "owed u w x = 0"
        proof (cases x)
          case (TSend u' b ws)
          then show ?thesis using stuck_no_value [OF tree run st] x by (cases ws) auto
        next
          case (TClose u' b w' ws)
          then show ?thesis using stuck_thread [OF st stuck_np [OF tree run st] x] by simp
        qed simp_all
      qed
      then have "weigh (got u w) s + logged s (Started w) = 1"
        using stuck_inv(2) [OF tree run st step.hyps(2)] step.IH stuck_zero(2) [OF tree run st, of u w] by (auto simp: edgeInv_def)
      then show False using not_got [OF stuck_inv(1) [OF tree run st] t, of u] us by simp
    qed
    then show ?case using fin treeLikeD(7) [OF tree step.hyps(2)] by blast
  qed
qed

lemma stuck_returned:
  assumes tree: "treeLike d root" and run: "reachable d root s" and st: "stuck d s"
  shows "\<exists>b. TReturned b \<in> set (threads s)"
proof -
  have mi: "mainInv d s" by (rule mainInv [OF run])
  then obtain x where x: "x \<in> set (threads s)" "mains x \<noteq> 0" using weigh_pos [of mains s] by (auto simp: mainInv_def)
  have "x \<noteq> TMain (v # vs)" for v vs
  proof
    assume m: "x = TMain (v # vs)"
    then have v: "VertexExists d v" "v \<notin> fnClosed s" using mi x(1) by (auto simp: mainInv_def allT_def)
    then have "weigh (life v) s = 1" using stuck_inv(1) [OF tree run st, of v] stuck_visited [OF tree run st, of v] by (simp add: vertexInv_def)
    then obtain y where y: "y \<in> set (threads s)" "life v y \<noteq> 0" using weigh_pos [of "life v" s] by auto
    have "\<exists>b. y = TSend v b []"
      using stuck_thread [OF st stuck_np [OF tree run st] y(1)]
    proof (elim disjE exE)
      fix w u us assume "y = TWait w (u # us)"
      then have "workers v y = 1" using y(2) by (auto split: if_splits)
      then show ?thesis using weigh_member [OF y(1), of "workers v", OF tokens_nonneg(4)] stuck_finished [OF tree run st v(1)] by simp
    next
      fix u b ws assume "y = TSend u b ws"
      then show ?thesis using y stuck_no_value [OF tree run st] by (cases ws) (auto split: if_splits)
    qed (use y(2) in auto)
    then obtain b n where n: "threadAt s n = Some (TSend v b [])" using mem_threadAt [OF y(1)] by blast
    obtain k where k: "threadAt s k = Some (TMain (v # vs))" using mem_threadAt [OF x(1)] m by blast
    show False using stuckD [OF st, of "FnDone n k"] stuck_np [OF tree run st] n k v(2) by (simp add: act.simps step_fn_done_def)
  qed
  then show ?thesis using stuck_thread [OF st stuck_np [OF tree run st] x(1)] x by auto
qed

end
