(* ===== verification/Executor_Theorems.thy ===== *)
theory Executor_Theorems
  imports Executor_Properties
begin

text \<open>
  The properties of the executor: order, single execution, no panic, the meaning of success, and
  runs that show where it blocks or goes on after a failure.
\<close>

section \<open>Runs to compute with\<close>

definition graphOf :: "(string \<times> string) list \<Rightarrow> string list \<Rightarrow> unit dag" where
  "graphOf es vs = fold (\<lambda>(u, w). Connect u w) es (New\<lparr>vertices := map (\<lambda>v. (v, ())) vs\<rparr>)"

lemma dag_ok_graphOf: "distinct vs \<Longrightarrow> dag_ok (graphOf es vs)"
proof -
  assume "distinct vs"
  then have "dag_ok (New\<lparr>vertices := map (\<lambda>v. (v, ())) vs\<rparr> :: unit dag)"
    by (simp add: dag_ok_def New_def edges_def upedges_def GetDownVertexes_def GetUpVertexes_def
        comp_def)
  moreover have "dag_ok r \<Longrightarrow> dag_ok (fold (\<lambda>(u, w). Connect u w) es r)" for r :: "unit dag"
    by (induction es arbitrary: r) auto
  ultimately show ?thesis by (simp add: graphOf_def)
qed

text \<open>A root with one successor.\<close>

definition pairGraph :: "unit dag" where
  "pairGraph = graphOf [(''r'', ''a'')] [''r'', ''a'']"

definition pairStart :: est where
  "pairStart = \<lparr>threads = [TMain [''r'', ''a''], TWait ''r'' [], TExec ''a''], visited = {''r''},
     depClosed = {}, fnClosed = {}, cancelled = False, panicked = False, runLog = []\<rparr>"

definition pairRun :: "bool \<Rightarrow> choice list" where
  "pairRun b = [Exec 2, Mark 2 [''r''], Start 1, Finish 1 b [''a''], Sync 1 3, CloseDep 1, Start 3,
     Finish 3 True [], FnDone 1 0]"

text \<open>The goroutines of a state that can move, one candidate for every choice.\<close>

fun idle :: "est \<Rightarrow> thread \<Rightarrow> bool" where
  "idle s (TWait w (u # us)) = ((u, w) \<notin> depClosed s)"
| "idle s (TSend u b []) =
     (u \<notin> fnClosed s \<and> list_all (\<lambda>m. case m of TMain (v # _) \<Rightarrow> v \<noteq> u | _ \<Rightarrow> True) (threads s))"
| "idle s (TSend u b (w # ws)) = ((u, w) \<notin> depClosed s \<and>
     list_all (\<lambda>m. case m of TWait w' (v # _) \<Rightarrow> (v, w') \<noteq> (u, w) | _ \<Rightarrow> True) (threads s))"
| "idle s (TMain (v # vs)) = (v \<notin> fnClosed s)"
| "idle s (TReturned b) = True"
| "idle s TEnd = True"
| "idle s _ = False"

definition blocked :: "est \<Rightarrow> bool" where
  "blocked s \<longleftrightarrow> \<not> cancelled s \<and> list_all (idle s) (threads s)"

lemma blocked_act:
  assumes "blocked s"
  shows "act d c s \<in> {None, Some (s\<lparr>cancelled := True\<rparr>)}"
proof (cases "act d c s")
  case (Some t)
  have nc: "\<not> cancelled s" using assms by (simp add: blocked_def)
  have b: "idle s x" if "threadAt s n = Some x" for n x
    using assms that unfolding blocked_def list_all_iff by (auto simp: threadAt_def split: if_splits)
  have mem: "x \<in> set (threads s)" if "threadAt s n = Some x" for n x
    using that by (auto simp: threadAt_def split: if_splits)
  from Some have "t = s\<lparr>cancelled := True\<rparr>"
  proof (cases rule: act_cases)
    case panic
    from panic(2) show ?thesis by cases (use b in \<open>fastforce+\<close>)
  next
    case (sync_dep n k u b' w ws us)
    then show ?thesis using b [OF sync_dep(1)] mem [OF sync_dep(2)] by (auto simp: list_all_iff)
  next
    case (fn_sync n k u b' vs)
    then show ?thesis using b [OF fn_sync(1)] mem [OF fn_sync(2)] by (auto simp: list_all_iff)
  qed (use nc in \<open>auto dest: b\<close>)
  then show ?thesis using Some by simp
qed simp

section \<open>Safety\<close>

text \<open>The function of a vertex starts only after the functions of all the vertices it depends on
  have finished.\<close>

lemma vertex_waits_for_dependencies:
  assumes "reachable d root s" and "runLog s = before @ Started w # after"
    and "u \<in> set (GetUpVertexes d w)"
  shows "\<exists>b. Finished u b \<in> set before"
  using ordered_runLog [OF assms(1)] assms(2,3) by (auto simp: ordered_def)

lemma pair_reachable: "reachable pairGraph ''r'' pairStart"
proof (rule reachable.begin_run)
  show "execute_from pairGraph ''r'' [] [''r'', ''a''] = Some pairStart" by code_simp
qed

definition pairEnd :: "bool \<Rightarrow> est" where
  "pairEnd b = \<lparr>threads = [if b then TMain [''a''] else TReturned False, TCloseFn ''r'', TEnd, TSend ''a'' True []],
     visited = {''r'', ''a''}, depClosed = {(''r'', ''a'')}, fnClosed = {}, cancelled = \<not> b,
     panicked = False, runLog = [Started ''r'', Finished ''r'' b, Started ''a'', Finished ''a'' True]\<rparr>"

lemma pair_run: "run_choices pairGraph (pairRun b) pairStart = Some (pairEnd b)"
  by (induction b rule: bool.induct) code_simp+

lemma pairEnd_reachable: "reachable pairGraph ''r'' (pairEnd b)"
  by (rule run_choices_reachable [OF pair_run pair_reachable])

lemma runLog_pairEnd:
  "runLog (pairEnd b) = [Started ''r'', Finished ''r'' b] @ Started ''a'' # [Finished ''a'' True]"
  by (simp add: pairEnd_def)

theorem vertex_waits_for_dependencies_witness:
  "\<exists>b. Finished ''r'' b \<in> set [Started ''r'', Finished ''r'' True]"
proof (rule vertex_waits_for_dependencies [OF pairEnd_reachable runLog_pairEnd])
  show "''r'' \<in> set (GetUpVertexes pairGraph ''a'')" by code_simp
qed

text \<open>C3: the executor refines the abstract scheduler: what the log of a run records, in any interleaving, is
  a schedule in which every vertex starts at most once, after all its dependencies, and finishes at
  most once, after it started.\<close>

theorem executor_refines_scheduler:
  assumes "dag_ok d" and "reachable d root s"
  shows "schedule d (runLog s)"
  by (rule schedule_runLog [OF assms])

theorem executor_refines_scheduler_witness: "schedule pairGraph (runLog (pairEnd True))"
proof (rule executor_refines_scheduler [OF _ pairEnd_reachable])
  show "dag_ok pairGraph" unfolding pairGraph_def by (rule dag_ok_graphOf) simp
qed

text \<open>In a well-formed graph no vertex function runs twice in a run, however often the walk comes
  to the vertex and however its workers interleave.\<close>

lemma vertex_runs_at_most_once:
  assumes "dag_ok d" and "reachable d root s"
  shows "count_list (runLog s) (Started v) \<le> 1"
  using started_once [OF assms, of v] by (simp add: logged_def)

theorem vertex_runs_at_most_once_witness: "count_list (runLog (pairEnd True)) (Started ''a'') \<le> 1"
proof (rule vertex_runs_at_most_once [OF _ pairEnd_reachable])
  show "dag_ok pairGraph" unfolding pairGraph_def by (rule dag_ok_graphOf) simp
qed

text \<open>C14: in a well-formed graph whose edges lead from vertices to vertices no goroutine panics: no value is
  sent on a closed channel and no channel is closed twice.\<close>

theorem executor_never_panics:
  assumes "dag_ok d" and "\<forall>(u, w)\<in>edges d. VertexExists d u \<longrightarrow> VertexExists d w" and "reachable d root s"
  shows "\<not> panicked s"
  using no_panic [OF assms] by simp

lemma edges_fold_Connect: "edges (fold (\<lambda>(u, w). Connect u w) es r) = edges r \<union> set es"
  by (induction es arbitrary: r) (auto simp: dag_simps)

lemma edges_no_edges: "edges (New\<lparr>vertices := vs\<rparr>) = {}"
  by (simp add: edges_def GetDownVertexes_def New_def)

lemma edges_graphOf: "edges (graphOf es vs) = set es"
  by (simp add: graphOf_def edges_fold_Connect edges_no_edges)

theorem executor_never_panics_witness: "\<not> panicked (pairEnd False)"
proof (rule executor_never_panics [OF _ _ pairEnd_reachable])
  show "dag_ok pairGraph" unfolding pairGraph_def by (rule dag_ok_graphOf) simp
  have "VertexExists pairGraph ''a''" by code_simp
  then show "\<forall>(u, w)\<in>edges pairGraph. VertexExists pairGraph u \<longrightarrow> VertexExists pairGraph w" by (simp add: pairGraph_def edges_graphOf)
qed

section \<open>What success means\<close>

text \<open>C13: when the walk reports success, every vertex has run with success, and every vertex is
  below the root: a vertex that the root does not reach keeps the run from ever succeeding.\<close>

theorem success_means_all_finished:
  assumes "reachable d root s" and "TReturned True \<in> set (threads s)" and "VertexExists d v"
  shows "Finished v True \<in> set (runLog s) \<and> (root, v) \<in> (edges d)\<^sup>*"
  using success_finished [OF assms] by (simp add: below_def)

definition successEnd :: est where
  "successEnd = \<lparr>threads = [TReturned True, TEnd, TEnd, TEnd], visited = {''r'', ''a''},
     depClosed = {(''r'', ''a'')}, fnClosed = {''r'', ''a''}, cancelled = False, panicked = False,
     runLog = [Started ''r'', Finished ''r'' True, Started ''a'', Finished ''a'' True]\<rparr>"

lemma successEnd_reachable: "reachable pairGraph ''r'' successEnd"
proof (rule run_choices_reachable [OF _ pairEnd_reachable])
  show "run_choices pairGraph [CloseFn 1, FnDone 3 0, CloseFn 3, MainEnd 0] (pairEnd True) = Some successEnd"
    by code_simp
qed

theorem success_means_all_finished_witness:
  "Finished ''a'' True \<in> set (runLog successEnd) \<and> (''r'', ''a'') \<in> (edges pairGraph)\<^sup>*"
proof (rule success_means_all_finished [OF successEnd_reachable])
  show "TReturned True \<in> set (threads successEnd)" by (simp add: successEnd_def)
  show "VertexExists pairGraph ''a''" by code_simp
qed

section \<open>Where the executor goes wrong\<close>

text \<open>The function of a vertex runs although the vertex it depends on has failed:
  \<open>waitDependencies\<close> goes on whenever a value arrives and never looks at it.\<close>

lemma dependent_runs_after_failure:
  "\<exists>s. reachable pairGraph ''r'' s \<and>
     runLog s = [Started ''r'', Finished ''r'' False, Started ''a'', Finished ''a'' True]"
  by (rule exI [of _ "pairEnd False"]) (simp add: pairEnd_reachable runLog_pairEnd)

text \<open>Two sources, two sinks, every edge between them.\<close>

definition crossGraph :: "unit dag" where
  "crossGraph = graphOf [(''r'', ''a''), (''r'', ''b''), (''a'', ''x''), (''a'', ''y''), (''b'', ''x''), (''b'', ''y'')]
     [''r'', ''a'', ''b'', ''x'', ''y'']"

text \<open>The diamond: the walk comes to \<open>x\<close> twice.\<close>

definition diamond :: "unit dag" where
  "diamond = graphOf [(''r'', ''a''), (''r'', ''b''), (''a'', ''x''), (''b'', ''x'')] [''r'', ''a'', ''b'', ''x'']"

definition startOf :: "string list \<Rightarrow> string list \<Rightarrow> est" where
  "startOf vs downs = \<lparr>threads = TMain vs # TWait ''r'' [] # map TExec downs, visited = {''r''},
     depClosed = {}, fnClosed = {}, cancelled = False, panicked = False, runLog = []\<rparr>"

definition ranTo :: "'v dag \<Rightarrow> choice list \<Rightarrow> est \<Rightarrow> logEntry list \<Rightarrow> bool" where
  "ranTo d cs s L \<longleftrightarrow> (case run_choices d cs s of None \<Rightarrow> False | Some t \<Rightarrow> blocked t \<and> runLog t = L)"

lemma ranTo_blocked:
  assumes "ranTo d cs s L" and "reachable d root s"
  shows "\<exists>t. reachable d root t \<and> runLog t = L \<and> (\<forall>c. act d c t \<in> {None, Some (t\<lparr>cancelled := True\<rparr>)})"
proof -
  obtain t where t: "run_choices d cs s = Some t" "blocked t" "runLog t = L"
    using assms(1) by (auto simp: ranTo_def split: option.splits)
  then show ?thesis using run_choices_reachable [OF t(1) assms(2)] blocked_act [OF t(2)] by blast
qed

definition crossRun :: "choice list" where
  "crossRun = [Exec 2, Mark 2 [''r''], Exec 3, Mark 3 [''r''], Exec 5, Mark 5 [''b'', ''a''],
     Exec 6, Mark 6 [''a'', ''b''], Exec 8, Exec 9,
     Start 1, Finish 1 True [''a'', ''b''], Sync 1 4, CloseDep 1, Sync 1 7, CloseDep 1, FnDone 1 0, CloseFn 1,
     Start 4, Finish 4 True [''x'', ''y''], Start 7, Finish 7 True [''y'', ''x'']]"

text \<open>A deadlock: \<open>a\<close> offers its value first to \<open>x\<close> and \<open>b\<close> first to \<open>y\<close>, while \<open>x\<close> waits first for
  \<open>b\<close> and \<open>y\<close> for \<open>a\<close>; all have succeeded so far, and nothing but a cancel can happen any more.\<close>

lemma value_order_deadlock:
  "\<exists>s. reachable crossGraph ''r'' s \<and>
     runLog s = [Started ''r'', Finished ''r'' True, Started ''a'', Finished ''a'' True,
       Started ''b'', Finished ''b'' True] \<and>
     (\<forall>c. act crossGraph c s \<in> {None, Some (s\<lparr>cancelled := True\<rparr>)})"
proof (rule ranTo_blocked)
  show "ranTo crossGraph crossRun (startOf [''r'', ''a'', ''b'', ''x'', ''y''] [''a'', ''b''])
      [Started ''r'', Finished ''r'' True, Started ''a'', Finished ''a'' True, Started ''b'', Finished ''b'' True]"
    by code_simp
  have "execute_from crossGraph ''r'' [] [''r'', ''a'', ''b'', ''x'', ''y''] =
      Some (startOf [''r'', ''a'', ''b'', ''x'', ''y''] [''a'', ''b''])" by code_simp
  then show "reachable crossGraph ''r'' (startOf [''r'', ''a'', ''b'', ''x'', ''y''] [''a'', ''b''])"
    by (rule reachable.begin_run)
qed

definition diamondRun :: "choice list" where
  "diamondRun = [Exec 2, Mark 2 [''r''], Exec 3, Mark 3 [''r''], Exec 5, Exec 7,
     Mark 5 [''a'', ''b''], Mark 7 [''b'', ''a''],
     Start 1, Finish 1 True [''a'', ''b''], Sync 1 4, CloseDep 1, Sync 1 6, CloseDep 1, FnDone 1 0, CloseFn 1,
     Start 4, Finish 4 True [''x''], Sync 4 8, CloseDep 4, FnDone 4 0, CloseFn 4,
     Start 6, Finish 6 True [''x''], Sync 6 9, CloseDep 6, FnDone 6 0, CloseFn 6, RecvClosed 8, RecvClosed 9]"

text \<open>The test and the marking of a visit are two critical sections, so a vertex can get two
  workers; each takes one of the values for it and finds the other channel closed, and the vertex
  never runs: all its dependencies have succeeded and the run hangs.\<close>

lemma two_workers_starve:
  "\<exists>s. reachable diamond ''r'' s \<and>
     runLog s = [Started ''r'', Finished ''r'' True, Started ''a'', Finished ''a'' True,
       Started ''b'', Finished ''b'' True] \<and>
     (\<forall>c. act diamond c s \<in> {None, Some (s\<lparr>cancelled := True\<rparr>)})"
proof (rule ranTo_blocked)
  show "ranTo diamond diamondRun (startOf [''r'', ''a'', ''b'', ''x''] [''a'', ''b''])
      [Started ''r'', Finished ''r'' True, Started ''a'', Finished ''a'' True, Started ''b'', Finished ''b'' True]"
    by code_simp
  have "execute_from diamond ''r'' [] [''r'', ''a'', ''b'', ''x''] =
      Some (startOf [''r'', ''a'', ''b'', ''x''] [''a'', ''b''])" by code_simp
  then show "reachable diamond ''r'' (startOf [''r'', ''a'', ''b'', ''x''] [''a'', ''b''])"
    by (rule reachable.begin_run)
qed

end
