(* ===== verification/Executor_Liveness.thy ===== *)
theory Executor_Liveness
  imports Executor_Progress Executor_Theorems
begin

text \<open>
  The executor comes to an end: the properties that bound the runs of every acyclic graph, and that in a graph
  whose vertices have one dependency at most every run completes, with success unless a function has failed.
\<close>

section \<open>Who is to blame for a failure\<close>

fun blames :: "est \<Rightarrow> thread \<Rightarrow> bool" where
  "blames s (TReturned b) = (b \<or> cancelled s)"
| "blames s t = True"

definition blameInv :: "est \<Rightarrow> bool" where
  "blameInv s \<longleftrightarrow> allT (blames s) s \<and> (cancelled s \<longrightarrow> (\<exists>v. Finished v False \<in> set (runLog s)))"

lemma blames_mono: "blames s x \<Longrightarrow> (cancelled s \<Longrightarrow> cancelled t) \<Longrightarrow> blames t x"
  by (cases x) auto

lemma allT_blames:
  assumes "allT (blames s) r" and "cancelled s \<Longrightarrow> cancelled t"
  shows "allT (blames t) r"
  using allT_mono [OF assms(1)] blames_mono [OF _ assms(2)] by blast

lemma blameInv_step:
  assumes act: "act d c s = Some t" and "c \<noteq> Cancel" and run: "reachable d root s" and inv: "blameInv s"
  shows "blameInv t"
proof -
  have bl: "allT (blames s) s" and ca: "cancelled s \<Longrightarrow> \<exists>v. Finished v False \<in> set (runLog s)"
    using inv by (simp_all add: blameInv_def)
  have tk: "allT (tok d root (set (runLog s))) s" using base_inv [OF run] by (simp add: base_inv_def)
  have aw: "allT (awaits d s) s" using mainInv [OF run] by (simp add: mainInv_def)
  have keep: "allT (blames t) s" if "cancelled s \<Longrightarrow> cancelled t" by (rule allT_blames [OF bl that])
  show ?thesis
    using act
  proof (cases rule: act_cases)
    case cancel
    then show ?thesis using assms(2) by simp
  next
    case (fn_sync n k u b vs)
    have "Finished u b \<in> set (runLog s)" using allT_at [OF tk fn_sync(1)] by simp
    moreover have "allT (blames t) s" using fn_sync(5) by (intro keep) (auto simp: thread_simps)
    ultimately show ?thesis unfolding blameInv_def using fn_sync(5) ca
      by (cases b) (auto simp: thread_simps intro!: allT_setThread)
  next
    case (fn_closed_main n v vs)
    then show ?thesis using allT_at [OF aw fn_closed_main(1)] by simp
  qed (use keep ca in \<open>auto simp: blameInv_def thread_simps intro!: allT_setThread\<close>)
qed

lemma blameInv_start: "execute_from d root depOrd mainOrd = Some s \<Longrightarrow> blameInv s"
  by (auto simp: execute_from_def blameInv_def allT_def split: if_splits Option.bind_splits)

lemma run_choices_blameInv:
  "run_choices d cs s = Some t \<Longrightarrow> Cancel \<notin> set cs \<Longrightarrow> reachable d root s \<Longrightarrow> blameInv s \<Longrightarrow> blameInv t"
  unfolding run_choices_def
proof (induction cs arbitrary: s)
  case (Cons c cs)
  then obtain s' where "act d c s = Some s'" and "ofold (act d) cs s' = Some t" by (auto simp: bind_eq_Some_conv)
  with Cons show ?case using blameInv_step [of d c s s' root] run_step [of d root s c s'] by force
qed simp

section \<open>Runs end\<close>

text \<open>C9: in a well-formed acyclic graph no run changes the state for ever: whatever the interleaving, a run that nobody
  cancels has, besides the five-second polls of its waiting goroutines, at most as many steps as the work its
  first state has left, and the polls change nothing.  A run may still not return: a goroutine whose value never
  comes can poll for ever.\<close>

theorem acyclic_runs_end:
  assumes "dag_ok d" and "acyclic (edges d)" and "run_polls d ps s = Some t" and "Move Cancel \<notin> set ps"
  shows "int (length (movesOf ps)) \<le> work d s \<and> run_choices d (movesOf ps) s = Some t \<and>
    (\<forall>n k. pollAct d (Poll n) t \<noteq> None \<longrightarrow> run_polls d (ps @ replicate k (Poll n)) s = Some t)"
proof -
  note moves = run_polls_moves [OF assms(3)]
  have "Cancel \<notin> set (movesOf ps)" using assms(4) by (simp add: set_movesOf)
  then have "int (length (movesOf ps)) \<le> work d s"
    using run_choices_bounded [OF assms(1,2) moves] work_nonneg [of d t] by simp
  then show ?thesis using moves poll_again [OF assms(3)] by blast
qed

lemma pairGraph_ok: "dag_ok pairGraph" "edges pairGraph = {(''r'', ''a'')}"
  unfolding pairGraph_def by (rule dag_ok_graphOf, simp) (simp add: edges_graphOf)

text \<open>The run of the pair, with two polls of the main walk at the start.\<close>

definition pairPolls :: "pollChoice list" where
  "pairPolls = Poll 0 # Poll 0 # map Move (pairRun True)"

lemma run_polls_Move: "run_polls d (map Move cs) s = run_choices d cs s"
  unfolding run_polls_def run_choices_def
proof (induction cs arbitrary: s)
  case (Cons c cs)
  then show ?case by (cases "act d c s") simp_all
qed simp

lemma movesOf_Move: "movesOf (map Move cs) = cs"
  by (induction cs) simp_all

theorem acyclic_runs_end_witness: "int (length (movesOf pairPolls)) \<le> work pairGraph pairStart"
proof -
  have "pollAct pairGraph (Poll 0) pairStart = Some pairStart"
    by (simp add: pairStart_def poll_dependencies_def poll_functions_def threadAt_def)
  then have "run_polls pairGraph pairPolls pairStart = run_polls pairGraph (map Move (pairRun True)) pairStart"
    by (simp add: run_polls_def pairPolls_def del: pollAct.simps)
  note run = trans [OF this trans [OF run_polls_Move pair_run]]
  have "acyclic (edges pairGraph)" by (auto simp: pairGraph_ok acyclic_def trancl_insert)
  moreover have "Move Cancel \<notin> set pairPolls" by (simp add: pairPolls_def pairRun_def)
  ultimately show ?thesis using acyclic_runs_end [OF pairGraph_ok(1) _ run] by blast
qed

section \<open>Runs complete\<close>

lemma stuck_log:
  assumes "treeLike d root" and "reachable d root s" and "stuck d s" and "VertexExists d v"
  shows "count_list (runLog s) (Started v) = 1" "\<exists>b. Finished v b \<in> set (runLog s)"
proof -
  have f: "finishes s v = 1" and run: "finishes s v = logged s (Started v)"
    using stuck_finished [OF assms] counts [OF assms(2), of v v] stuck_zero(3) [OF assms(1-3), of v]
    by (simp_all add: counts_def)
  then show "count_list (runLog s) (Started v) = 1" by (simp add: logged_def)
  show "\<exists>b. Finished v b \<in> set (runLog s)"
    using f by (auto simp: finishes_def logged_def count_list_0_iff intro: ccontr)
qed

lemma tree_run_ends:
  assumes "treeLike d root" and "execute_from d root depOrd mainOrd = Some s\<^sub>0" and "run_choices d cs s\<^sub>0 = Some s"
    and "stuck d s"
  shows "(\<forall>v. VertexExists d v \<longrightarrow> count_list (runLog s) (Started v) = 1 \<and> (\<exists>b. Finished v b \<in> set (runLog s))) \<and>
    (\<exists>b. TReturned b \<in> set (threads s)) \<and>
    (Cancel \<notin> set cs \<and> (\<forall>v. Finished v False \<notin> set (runLog s)) \<longrightarrow> TReturned True \<in> set (threads s))"
proof -
  have r0: "reachable d root s\<^sub>0" by (rule reachable.begin_run [OF assms(2)])
  have run: "reachable d root s" by (rule run_choices_reachable [OF assms(3) r0])
  obtain b where b: "TReturned b \<in> set (threads s)" using stuck_returned [OF assms(1) run assms(4)] by blast
  moreover have "b" if "Cancel \<notin> set cs" "\<forall>v. Finished v False \<notin> set (runLog s)"
  proof -
    have "blameInv s" by (rule run_choices_blameInv [OF assms(3) that(1) r0 blameInv_start [OF assms(2)]])
    then show ?thesis using b that(2) by (auto simp: blameInv_def allT_def)
  qed
  ultimately show ?thesis using stuck_log [OF assms(1) run assms(4)] by auto
qed

text \<open>In a graph whose vertices have one dependency at most, all below the root, a run that can take no
  further step has run every vertex exactly once and has returned, and it has returned success when every
  function succeeded and nobody cancelled.\<close>

lemma tree_run_completes:
  assumes "treeLike d root" and "execute_from d root depOrd mainOrd = Some s\<^sub>0" and "run_choices d cs s\<^sub>0 = Some s"
    and "stuck d s"
  shows "(\<forall>v. VertexExists d v \<longrightarrow> count_list (runLog s) (Started v) = 1 \<and> (\<exists>b. Finished v b \<in> set (runLog s))) \<and>
    (\<exists>b. TReturned b \<in> set (threads s)) \<and>
    (Cancel \<notin> set cs \<and> (\<forall>v. Finished v False \<notin> set (runLog s)) \<longrightarrow> TReturned True \<in> set (threads s))"
  by (rule tree_run_ends [OF assms])

lemma treeLike_pair: "treeLike pairGraph ''r''"
proof -
  have "fst ` set (vertices pairGraph) = {''r'', ''a''}" by code_simp
  then have v: "VertexExists pairGraph v \<longleftrightarrow> v = ''r'' \<or> v = ''a''" for v by (auto simp: VertexExists_def gget_None_iff)
  have up: "set (GetUpVertexes pairGraph v) = {u. (u, v) \<in> edges pairGraph}" "distinct (GetUpVertexes pairGraph v)" for v
    using pairGraph_ok(1) by (auto simp: dag_ok_def upedges_def)
  have "length (GetUpVertexes pairGraph v) = card {u. (u, v) \<in> edges pairGraph}" for v
    using distinct_card [OF up(2)] up(1) by metis
  then have "length (GetUpVertexes pairGraph v) \<le> 1" for v by (cases "v = ''a''") (simp_all add: pairGraph_ok(2))
  then show ?thesis using up(1) [of "''r''"] by (auto simp: treeLike_def v pairGraph_ok)
qed

definition ended :: "est \<Rightarrow> bool" where
  "ended s \<longleftrightarrow> \<not> panicked s \<and> list_all (\<lambda>x. case x of TReturned b \<Rightarrow> True | TEnd \<Rightarrow> True | _ \<Rightarrow> False) (threads s)"

lemma ended_stuck:
  assumes "ended s"
  shows "stuck d s"
proof -
  have t: "(\<exists>b. x = TReturned b) \<or> x = TEnd" if "threadAt s n = Some x" for n x
    using assms threadAt_mem [OF that] by (cases x) (auto simp: ended_def list_all_iff)
  have "act d c s \<noteq> Some t" if "c \<noteq> Cancel" for c t
  proof
    assume "act d c s = Some t"
    then show False
    proof (cases rule: act_cases)
      case panic
      from panic(2) show ?thesis by cases (auto dest: t)
    qed (use that in \<open>auto dest: t\<close>)
  qed
  then show ?thesis unfolding stuck_def by (metis not_Some_eq)
qed

lemma stuck_success: "stuck pairGraph successEnd"
  by (rule ended_stuck) (simp add: ended_def successEnd_def)

theorem tree_run_completes_witness: "TReturned True \<in> set (threads successEnd)"
proof -
  have "execute_from pairGraph ''r'' [] [''r'', ''a''] = Some pairStart" by code_simp
  moreover have "run_choices pairGraph (pairRun True @ [CloseFn 1, FnDone 3 0, CloseFn 3, MainEnd 0]) pairStart = Some successEnd"
    by code_simp
  ultimately show ?thesis using tree_run_completes [OF treeLike_pair _ _ stuck_success]
    by (auto simp: pairRun_def successEnd_def)
qed

end
