(* ===== verification/Functions.thy ===== *)
theory Functions
  imports Exec_Context
begin

text \<open>
  The functions a vertex can run: pkg/exec/fnmap/functions (fn.go, jq.go, run\_*.go, init.go),
  their dispatch (pkg/exec/fnmap/fnmap.go) and the handler the executor calls for every vertex
  (pkg/exec/exechandler).

  A function object is a record; the callbacks it puts in \<open>fnExecConfig\<close> act on that record, and
  an unset callback is \<open>None\<close>: calling it panics.  The input store is shared with the caller and
  returned.  What the code calls outside the repository is the parameter \<open>extlib\<close>: gojq (parsing
  and compiling a query against variable names gives a function from their values to a finite
  stream of errors and values), text/template with the JSON decoding of its output, the list
  call of the k8s client, the fn-sdk resource context, the function container and the service
  clients.  The names of the variables are compiled with their values in the same order, so gojq may be given
  them in any order.  Two ranges over maps whose order can be seen take it from \<open>extlib\<close> as well:
  \<open>varOrder\<close> that over the local variables, \<open>inputOrder\<close> that over the input of an image.
\<close>

section \<open>Outside the repository\<close>

type_synonym rctx = "(string, raw list) gmap"

record extlib =
  k8s :: k8slib
  gojq :: "string \<Rightarrow> string list \<Rightarrow> string + (any list \<Rightarrow> (string + any) list)"
  executeTemplate :: "string \<Rightarrow> (string, any) gmap \<Rightarrow> string + any"
  clientList :: "gvk \<Rightarrow> string + any list"
  addResource :: "(string, any) gmap \<Rightarrow> rctx \<Rightarrow> string + rctx"
  newRunner :: "Function \<Rightarrow> string + (rctx \<Rightarrow> string + rctx)"
  unmarshalObject :: "raw \<Rightarrow> string + (bool \<times> gvk)"
  unmarshalMap :: "raw \<Rightarrow> string + any"
  serviceClient :: "gvk \<Rightarrow> (raw \<Rightarrow> string + raw) option"
  varOrder :: "Function \<Rightarrow> input \<Rightarrow> nat list"
  inputOrder :: "input \<Rightarrow> nat list"

section \<open>Errors\<close>

text \<open>exechandler/errors.go: one error is compared by identity, the others are messages.\<close>

datatype fnerr = ErrConditionFalse | FnErr string

fun ErrorString :: "fnerr \<Rightarrow> string" where
  "ErrorString ErrConditionFalse = ''condition false, no need to run''"
| "ErrorString (FnErr m) = m"

section \<open>Queries (jq.go, fn.go)\<close>

text \<open>The variable names with their dollar sign and the values in the same order.\<close>

definition varNames :: "input \<Rightarrow> string list" where
  "varNames i = map (\<lambda>(name, _). CHR ''$'' # name) (input_Get i)"

definition varValues :: "input \<Rightarrow> any list" where
  "varValues i = map snd (input_Get i)"

definition nullIteration :: "string \<Rightarrow> bool" where
  "nullIteration err \<longleftrightarrow> strContains err ''cannot iterate over: null''"

fun collect :: "(string + any) list \<Rightarrow> any list \<Rightarrow> string + any list" where
  "collect [] result = Inr result"
| "collect (Inl err # vs) result = (if nullIteration err then Inr result else Inl err)"
| "collect (Inr v # vs) result = collect vs (result @ [v])"

definition runJQ :: "extlib \<Rightarrow> string \<Rightarrow> input \<Rightarrow> string + any" where
  "runJQ L exp i =
     (if exp = '''' then Inl ''missing input value''
      else case gojq L exp (varNames i) of
        Inl err \<Rightarrow> Inl err
      | Inr code \<Rightarrow> (case collect (code (varValues i)) [] of
            Inl err \<Rightarrow> Inl err
          | Inr result \<Rightarrow> Inr (ASlice result)))"

definition runJQOnce :: "(any list \<Rightarrow> (string + any) list) \<Rightarrow> any list \<Rightarrow> string + any" where
  "runJQOnce code vars =
     (case code vars of
        [] \<Rightarrow> Inl ''no result''
      | v # _ \<Rightarrow> v)"

text \<open>The items of a range: nil values are left out.\<close>

fun collectItems :: "(string + any) list \<Rightarrow> any list \<Rightarrow> string + any list" where
  "collectItems [] result = Inr result"
| "collectItems (Inl err # vs) result = (if nullIteration err then Inr result else Inl err)"
| "collectItems (Inr v # vs) result = collectItems vs (if v = ANil then result else result @ [v])"

definition runRange :: "extlib \<Rightarrow> string \<Rightarrow> input \<Rightarrow> string + any list" where
  "runRange L exp i =
     (case gojq L exp (varNames i) of
        Inl err \<Rightarrow> Inl err
      | Inr code \<Rightarrow> collectItems (code (varValues i)) [])"

definition runCondition :: "extlib \<Rightarrow> string \<Rightarrow> input \<Rightarrow> string + bool" where
  "runCondition L exp i =
     (case gojq L exp (varNames i) of
        Inl err \<Rightarrow> Inl err
      | Inr code \<Rightarrow>
          (case code (varValues i) of
             [] \<Rightarrow> Inl ''not result''
           | Inl err # _ \<Rightarrow> Inl err
           | Inr (ABool r) # _ \<Rightarrow> Inr r
           | Inr v # _ \<Rightarrow> Inl ''unexpected result type, want bool''))"

text \<open>The local variables, one after the other, each sees those before it; the \<open>range\<close> over their map takes them
  in the order chosen by \<open>varOrder\<close>.\<close>

fun resolveVars :: "extlib \<Rightarrow> (string \<times> string) list \<Rightarrow> input \<Rightarrow> fnerr option \<times> input" where
  "resolveVars L [] i = (None, i)"
| "resolveVars L ((varName, expression) # vs) i =
     (case runJQ L expression i of
        Inl err \<Rightarrow> (Some (FnErr err), i)
      | Inr v \<Rightarrow> resolveVars L vs (input_AddEntry varName v i))"

definition resolveLocalVars :: "extlib \<Rightarrow> Function \<Rightarrow> input \<Rightarrow> fnerr option \<times> input" where
  "resolveLocalVars L fnconfig i = resolveVars L (ranged (varOrder L fnconfig i) (fn_Vars fnconfig)) i"

section \<open>Execution of a function (fn.go)\<close>

record ('s, 'r) fnExecConfig =
  executeRange :: bool
  executeSingle :: bool
  filterInputFn :: "('s \<Rightarrow> input \<Rightarrow> input) option"
  runFn :: "(input \<Rightarrow> 's \<Rightarrow> ((fnerr + 'r) \<times> 's) go) option"
  initOutputFn :: "(nat \<Rightarrow> 's \<Rightarrow> 's) option"
  recordOutputFn :: "('r \<Rightarrow> 's \<Rightarrow> 's) option"
  getFinalResultFn :: "'s \<Rightarrow> out_store option \<times> fnerr option"

text \<open>\<open>fmt.Sprint\<close> of an index.\<close>

fun Sprint :: "nat \<Rightarrow> string" where
  "Sprint n = (if n < 10 then [char_of (48 + n)] else Sprint (n div 10) @ [char_of (48 + n mod 10)])"

declare Sprint.simps [simp del]

text \<open>One run: filter the input, run, record.\<close>

definition runOnce :: "('s, 'r) fnExecConfig \<Rightarrow> input \<Rightarrow> 's \<Rightarrow> (fnerr option \<times> 's) go" where
  "runOnce r i s = do {
     filterInput \<leftarrow> filterInputFn r;
     run \<leftarrow> runFn r;
     (x, s) \<leftarrow> run (filterInput s i) s;
     (case x of
        Inl err \<Rightarrow> Some (Some err, s)
      | Inr x \<Rightarrow> do {
          recordOutput \<leftarrow> recordOutputFn r;
          Some (None, recordOutput x s) }) }"

fun execItems :: "extlib \<Rightarrow> ('s, 'r) fnExecConfig \<Rightarrow> Function \<Rightarrow> nat \<Rightarrow> any list \<Rightarrow> input \<Rightarrow> 's \<Rightarrow>
    (fnerr option \<times> input \<times> 's) go" where
  "execItems L r fnconfig n [] i s = Some (None, i, s)"
| "execItems L r fnconfig n (val # items) i s =
     (if val = ANil then execItems L r fnconfig (n + 1) items i s
      else
        (let i = input_AddEntry ''VALUE'' val i;
             i = input_AddEntry ''KEY'' (AStr (Sprint n)) i;
             i = input_AddEntry ''INDEX'' (ANum (int n)) i
         in case resolveLocalVars L fnconfig i of
              (Some err, i) \<Rightarrow> Some (Some err, i, s)
            | (None, i) \<Rightarrow>
                if executeRange r then
                  (case runOnce r i s of
                     None \<Rightarrow> None
                   | Some (Some err, s) \<Rightarrow> Some (Some err, i, s)
                   | Some (None, s) \<Rightarrow> execItems L r fnconfig (n + 1) items i s)
                else execItems L r fnconfig (n + 1) items i s))"

text \<open>The block: the items, if there is a range, or the reason to stop.\<close>

definition blockItems :: "extlib \<Rightarrow> Function \<Rightarrow> input \<Rightarrow> (out_store option \<times> fnerr) + any list option" where
  "blockItems L fnconfig i =
     (if HasBlock fnconfig then
        (case (case BRange (fn_Block fnconfig) of
                 None \<Rightarrow> Inr None
               | Some rv \<Rightarrow> (case runRange L (RValue rv) i of Inl err \<Rightarrow> Inl err | Inr items \<Rightarrow> Inr (Some items))) of
           Inl err \<Rightarrow> Inl (None, FnErr err)
         | Inr items \<Rightarrow>
             (case BCondition (fn_Block fnconfig) of
                None \<Rightarrow> Inr items
              | Some condition \<Rightarrow>
                  (case (if CExpression condition = '''' then Inr True
                         else runCondition L (CExpression condition) i) of
                     Inl err \<Rightarrow> Inl (None, FnErr err)
                   | Inr False \<Rightarrow> Inl (Some output_New, ErrConditionFalse)
                   | Inr True \<Rightarrow>
                       (case BRange (CBlock condition) of
                          None \<Rightarrow> Inr items
                        | Some rv \<Rightarrow>
                            (case runRange L (RValue rv) i of
                               Inl err \<Rightarrow> Inl (None, FnErr err)
                             | Inr items \<Rightarrow> Inr (Some items))))))
      else Inr None)"

definition execSingle :: "extlib \<Rightarrow> ('s, 'r) fnExecConfig \<Rightarrow> Function \<Rightarrow> input \<Rightarrow> 's \<Rightarrow>
    ((out_store option \<times> fnerr option) \<times> input \<times> 's) go" where
  "execSingle L r fnconfig i s =
     (if executeSingle r then do {
        initOutput \<leftarrow> initOutputFn r;
        (let s = initOutput 1 s in
         case resolveLocalVars L fnconfig i of
           (Some err, i) \<Rightarrow> Some ((None, Some err), i, s)
         | (None, i) \<Rightarrow>
             (case runOnce r i s of
                None \<Rightarrow> None
              | Some (Some err, s) \<Rightarrow> Some ((None, Some err), i, s)
              | Some (None, s) \<Rightarrow> Some (getFinalResultFn r s, i, s))) }
      else Some (getFinalResultFn r s, i, s))"

definition exec :: "extlib \<Rightarrow> ('s, 'r) fnExecConfig \<Rightarrow> Function \<Rightarrow> input \<Rightarrow> 's \<Rightarrow>
    ((out_store option \<times> fnerr option) \<times> input \<times> 's) go" where
  "exec L r fnconfig i s =
     (case blockItems L fnconfig i of
        Inl (out, err) \<Rightarrow> Some ((out, Some err), i, s)
      | Inr None \<Rightarrow> execSingle L r fnconfig i s
      | Inr (Some []) \<Rightarrow> do {
          initOutput \<leftarrow> initOutputFn r;
          Some ((None, None), i, initOutput 0 s) }
      | Inr (Some items) \<Rightarrow> do {
          initOutput \<leftarrow> initOutputFn r;
          (case execItems L r fnconfig 0 items i (initOutput (length items) s) of
             None \<Rightarrow> None
           | Some (Some err, i, s) \<Rightarrow> Some ((None, Some err), i, s)
           | Some (None, i, s) \<Rightarrow> execSingle L r fnconfig i s) })"

end
