(* ===== verification/Function_Types.thy ===== *)
theory Function_Types
  imports Functions
begin

text \<open>
  The function types of pkg/exec/fnmap/functions, one section per file: the object, its callbacks and
  \<open>Run\<close>.  An object is made anew for every run.
\<close>

section \<open>What they share\<close>

text \<open>The loop of every \<open>getFinalResult\<close>: an entry for every output of the vertex, with the data of the
  run; an output that is no \<open>OutputInfo\<close> ends it with an error.\<close>

fun finalEntries :: "any \<Rightarrow> (string \<times> any) list \<Rightarrow> out_store \<Rightarrow> out_store option \<times> fnerr option" where
  "finalEntries data [] out = (Some out, None)"
| "finalEntries data ((varName, v) # vs) out =
     (case infoOf v of
        None \<Rightarrow> (Some out, Some (FnErr ''expecting outputInfo''))
      | Some oi \<Rightarrow> finalEntries data vs
          (output_AddEntry varName (AOutputInfo (OutputInfo (oi_Internal oi) False (oi_GVK oi) data)) out))"

definition liftErr :: "string + 'a \<Rightarrow> fnerr + 'a" where
  "liftErr x = (case x of Inl err \<Rightarrow> Inl (FnErr err) | Inr v \<Rightarrow> Inr v)"

text \<open>What a run gives back: the output and the error, the input, the outputs and the results.\<close>

datatype ExecType = ExecRootType | ExecBlockType

record ResultInfo =
  ri_Type :: ExecType
  ri_ExecName :: string
  ri_VertexName :: string
  ri_Input :: "input option"
  ri_Output :: "out_store option"
  ri_Success :: bool
  ri_Reason :: string

record world =
  curOutputs :: out_store
  curResults :: "ResultInfo slice"

type_synonym fnResult = "(out_store option \<times> fnerr option) \<times> input \<times> world"

definition withWorld :: "world \<Rightarrow> ((out_store option \<times> fnerr option) \<times> input \<times> 's) go \<Rightarrow> fnResult go" where
  "withWorld w x = (case x of None \<Rightarrow> None | Some (oe, i, _) \<Rightarrow> Some (oe, i, w))"

section \<open>root (run\_root.go)\<close>

definition root_getFinalResult :: "unit \<Rightarrow> out_store option \<times> fnerr option" where
  "root_getFinalResult r = (Some output_New, None)"

definition NewRootFn :: "(unit, unit) fnExecConfig" where
  "NewRootFn = \<lparr>executeRange = False, executeSingle = False, filterInputFn = None, runFn = None,
     initOutputFn = None, recordOutputFn = None, getFinalResultFn = root_getFinalResult\<rparr>"

definition root_Run :: "extlib \<Rightarrow> VertexContext \<Rightarrow> input \<Rightarrow> world \<Rightarrow> fnResult go" where
  "root_Run L vertexContext i w = withWorld w (exec L NewRootFn (vc_Function vertexContext) i ())"

section \<open>jq (run\_jq.go)\<close>

record jqFn =
  jq_outputs :: out_store
  jq_expression :: string
  jq_output :: any

definition jq_run :: "extlib \<Rightarrow> input \<Rightarrow> jqFn \<Rightarrow> ((fnerr + any) \<times> jqFn) go" where
  "jq_run L i r = Some (liftErr (runJQ L (jq_expression r) i), r)"

definition jq_getFinalResult :: "jqFn \<Rightarrow> out_store option \<times> fnerr option" where
  "jq_getFinalResult r = finalEntries (jq_output r) (output_Get (jq_outputs r)) output_New"

definition NewJQFn :: "extlib \<Rightarrow> (jqFn, any) fnExecConfig" where
  "NewJQFn L = \<lparr>executeRange = False, executeSingle = True, filterInputFn = Some (\<lambda>r i. i),
     runFn = Some (jq_run L), initOutputFn = Some (\<lambda>numItems r. r),
     recordOutputFn = Some (\<lambda>x r. r\<lparr>jq_output := x\<rparr>), getFinalResultFn = jq_getFinalResult\<rparr>"

definition jq_Run :: "extlib \<Rightarrow> VertexContext \<Rightarrow> input \<Rightarrow> world \<Rightarrow> fnResult go" where
  "jq_Run L vertexContext i w = do {
     fi \<leftarrow> fn_Input (vc_Function vertexContext);
     withWorld w (exec L (NewJQFn L) (vc_Function vertexContext) i
       \<lparr>jq_outputs = vc_Outputs vertexContext, jq_expression = in_Expression fi, jq_output = ANil\<rparr>) }"

section \<open>slice (run\_slice.go)\<close>

record sliceFn =
  slice_outputs :: out_store
  slice_value :: string
  slice_output :: "any list"

definition slice_run :: "extlib \<Rightarrow> input \<Rightarrow> sliceFn \<Rightarrow> ((fnerr + any) \<times> sliceFn) go" where
  "slice_run L i r = Some
     ((if slice_value r = '''' then Inl (FnErr ''missing input value'')
       else case gojq L (slice_value r) (varNames i) of
         Inl err \<Rightarrow> Inl (FnErr err)
       | Inr code \<Rightarrow>
           (case code (varValues i) of
              [] \<Rightarrow> Inl (FnErr ''no value'')
            | v # _ \<Rightarrow> liftErr v)), r)"

definition slice_initOutput :: "nat \<Rightarrow> sliceFn \<Rightarrow> sliceFn" where
  "slice_initOutput numItems r = r\<lparr>slice_output := []\<rparr>"

definition slice_recordOutput :: "any \<Rightarrow> sliceFn \<Rightarrow> sliceFn" where
  "slice_recordOutput x r = r\<lparr>slice_output := slice_output r @ [x]\<rparr>"

definition slice_getFinalResult :: "sliceFn \<Rightarrow> out_store option \<times> fnerr option" where
  "slice_getFinalResult r =
     finalEntries (ASlice (slice_output r)) (output_Get (slice_outputs r)) output_New"

definition NewSliceFn :: "extlib \<Rightarrow> (sliceFn, any) fnExecConfig" where
  "NewSliceFn L = \<lparr>executeRange = True, executeSingle = False, filterInputFn = Some (\<lambda>r i. i),
     runFn = Some (slice_run L), initOutputFn = Some slice_initOutput,
     recordOutputFn = Some slice_recordOutput, getFinalResultFn = slice_getFinalResult\<rparr>"

definition slice_Run :: "extlib \<Rightarrow> VertexContext \<Rightarrow> input \<Rightarrow> world \<Rightarrow> fnResult go" where
  "slice_Run L vertexContext i w = do {
     fi \<leftarrow> fn_Input (vc_Function vertexContext);
     withWorld w (exec L (NewSliceFn L) (vc_Function vertexContext) i
       \<lparr>slice_outputs = vc_Outputs vertexContext, slice_value = in_Value fi, slice_output = []\<rparr>) }"

section \<open>map (run\_map.go)\<close>

record mapFn =
  map_outputs :: out_store
  map_key :: string
  map_value :: string
  map_output :: "(string, any) gmap"

definition map_run :: "extlib \<Rightarrow> input \<Rightarrow> mapFn \<Rightarrow> ((fnerr + string \<times> any) \<times> mapFn) go" where
  "map_run L i r = Some
     ((if map_value r = '''' then Inl (FnErr ''missing input value'')
       else if map_key r = '''' then Inl (FnErr ''missing input key'')
       else case gojq L (map_value r) (varNames i) of
         Inl err \<Rightarrow> Inl (FnErr err)
       | Inr valC \<Rightarrow>
           (case gojq L (map_key r) (varNames i) of
              Inl err \<Rightarrow> Inl (FnErr err)
            | Inr keyC \<Rightarrow>
                (case runJQOnce valC (varValues i) of
                   Inl err \<Rightarrow> Inl (FnErr err)
                 | Inr v \<Rightarrow>
                     (case runJQOnce keyC (varValues i) of
                        Inl err \<Rightarrow> Inl (FnErr err)
                      | Inr (AStr ks) \<Rightarrow> Inr (ks, v)
                      | Inr k \<Rightarrow> Inl (FnErr ''unexpected key format''))))), r)"

definition map_initOutput :: "nat \<Rightarrow> mapFn \<Rightarrow> mapFn" where
  "map_initOutput numItems r = r\<lparr>map_output := []\<rparr>"

definition map_recordOutput :: "string \<times> any \<Rightarrow> mapFn \<Rightarrow> mapFn" where
  "map_recordOutput out r = r\<lparr>map_output := gput (fst out) (snd out) (map_output r)\<rparr>"

definition map_getFinalResult :: "mapFn \<Rightarrow> out_store option \<times> fnerr option" where
  "map_getFinalResult r = finalEntries (AMap (map_output r)) (output_Get (map_outputs r)) output_New"

definition NewMapFn :: "extlib \<Rightarrow> (mapFn, string \<times> any) fnExecConfig" where
  "NewMapFn L = \<lparr>executeRange = True, executeSingle = False, filterInputFn = Some (\<lambda>r i. i),
     runFn = Some (map_run L), initOutputFn = Some map_initOutput,
     recordOutputFn = Some map_recordOutput, getFinalResultFn = map_getFinalResult\<rparr>"

definition map_Run :: "extlib \<Rightarrow> VertexContext \<Rightarrow> input \<Rightarrow> world \<Rightarrow> fnResult go" where
  "map_Run L vertexContext i w = do {
     fi \<leftarrow> fn_Input (vc_Function vertexContext);
     withWorld w (exec L (NewMapFn L) (vc_Function vertexContext) i
       \<lparr>map_outputs = vc_Outputs vertexContext, map_key = in_Key fi, map_value = in_Value fi,
        map_output = []\<rparr>) }"

section \<open>query (run\_query.go)\<close>

text \<open>The selector is never set, so the list call has no options.\<close>

record queryFn =
  query_outputs :: out_store
  query_resource :: raw
  query_output :: any

definition query_run :: "extlib \<Rightarrow> input \<Rightarrow> queryFn \<Rightarrow> ((fnerr + any) \<times> queryFn) go" where
  "query_run L i r =
     (case GetGVK (k8s L) (query_resource r) of
        (_, Some err) \<Rightarrow> Some (Inl (FnErr err), r)
      | (g, None) \<Rightarrow> do {
          gvk \<leftarrow> g;
          (case clientList L gvk of
             Inl err \<Rightarrow> Some (Inl (FnErr err), r)
           | Inr items \<Rightarrow> Some (Inr (ASlice items), r)) })"

definition query_getFinalResult :: "queryFn \<Rightarrow> out_store option \<times> fnerr option" where
  "query_getFinalResult r = finalEntries (query_output r) (output_Get (query_outputs r)) output_New"

definition NewQueryFn :: "extlib \<Rightarrow> (queryFn, any) fnExecConfig" where
  "NewQueryFn L = \<lparr>executeRange = False, executeSingle = True, filterInputFn = Some (\<lambda>r i. i),
     runFn = Some (query_run L), initOutputFn = Some (\<lambda>numItems r. r),
     recordOutputFn = Some (\<lambda>x r. r\<lparr>query_output := x\<rparr>), getFinalResultFn = query_getFinalResult\<rparr>"

definition query_Run :: "extlib \<Rightarrow> VertexContext \<Rightarrow> input \<Rightarrow> world \<Rightarrow> fnResult go" where
  "query_Run L vertexContext i w = do {
     fi \<leftarrow> fn_Input (vc_Function vertexContext);
     withWorld w (exec L (NewQueryFn L) (vc_Function vertexContext) i
       \<lparr>query_outputs = vc_Outputs vertexContext, query_resource = in_Resource fi, query_output = ANil\<rparr>) }"

section \<open>gotemplate (run\_gotemplate.go)\<close>

record gtFn =
  gt_outputs :: out_store
  gt_template :: string
  gt_output :: "any list"

definition gt_run :: "extlib \<Rightarrow> input \<Rightarrow> gtFn \<Rightarrow> ((fnerr + any) \<times> gtFn) go" where
  "gt_run L i r = Some
     ((if gt_template r = '''' then Inl (FnErr ''missing template'')
       else liftErr (executeTemplate L (gt_template r) (input_Get i))), r)"

definition gt_initOutput :: "nat \<Rightarrow> gtFn \<Rightarrow> gtFn" where
  "gt_initOutput numItems r = r\<lparr>gt_output := []\<rparr>"

definition gt_recordOutput :: "any \<Rightarrow> gtFn \<Rightarrow> gtFn" where
  "gt_recordOutput x r = r\<lparr>gt_output := gt_output r @ [x]\<rparr>"

definition gt_getFinalResult :: "gtFn \<Rightarrow> out_store option \<times> fnerr option" where
  "gt_getFinalResult r = finalEntries (ASlice (gt_output r)) (output_Get (gt_outputs r)) output_New"

definition NewGTFn :: "extlib \<Rightarrow> (gtFn, any) fnExecConfig" where
  "NewGTFn L = \<lparr>executeRange = True, executeSingle = True, filterInputFn = Some (\<lambda>r i. i),
     runFn = Some (gt_run L), initOutputFn = Some gt_initOutput,
     recordOutputFn = Some gt_recordOutput, getFinalResultFn = gt_getFinalResult\<rparr>"

definition gt_Run :: "extlib \<Rightarrow> VertexContext \<Rightarrow> input \<Rightarrow> world \<Rightarrow> fnResult go" where
  "gt_Run L vertexContext i w = do {
     fi \<leftarrow> fn_Input (vc_Function vertexContext);
     withWorld w (exec L (NewGTFn L) (vc_Function vertexContext) i
       \<lparr>gt_outputs = vc_Outputs vertexContext,
        gt_template = (if in_Resource fi \<noteq> '''' then in_Resource fi else in_Template fi),
        gt_output = []\<rparr>) }"

section \<open>image (run\_image.go)\<close>

record imageFn =
  img_rootVertexName :: string
  img_fnconfig :: Function
  img_outputs :: out_store
  img_gvkToVarName :: "(string, string) gmap"
  img_output :: out_store
  img_numItems :: nat
  img_errs :: "string list"

definition image_filterInput :: "imageFn \<Rightarrow> input \<Rightarrow> input" where
  "image_filterInput r i =
     fold (\<lambda>(varName, v) newInput.
             fold (\<lambda>(ivarName, _) newInput.
                     if varName = ivarName then input_AddEntry varName v newInput
                     else if varName = img_rootVertexName r then input_AddEntry varName v newInput
                     else newInput)
               (fn_Vars (img_fnconfig r)) newInput)
       (input_Get i) input_New"

text \<open>The objects of the input, in a map, a slice, or a slice of slices.\<close>

fun efold :: "('a \<Rightarrow> 's \<Rightarrow> 'e + 's) \<Rightarrow> 'a list \<Rightarrow> 's \<Rightarrow> 'e + 's" where
  "efold f [] s = Inr s"
| "efold f (x # xs) s = (case f x s of Inl e \<Rightarrow> Inl e | Inr s \<Rightarrow> efold f xs s)"

fun addInner :: "extlib \<Rightarrow> any \<Rightarrow> rctx \<Rightarrow> string + rctx" where
  "addInner L (AMap m) ctx = addResource L m ctx"
| "addInner L v ctx = Inl ''unexpected object in []any[]any''"

fun addElement :: "extlib \<Rightarrow> any \<Rightarrow> rctx \<Rightarrow> string + rctx" where
  "addElement L (AMap m) ctx = addResource L m ctx"
| "addElement L (ASlice xs) ctx = efold (addInner L) xs ctx"
| "addElement L v ctx = Inl ''unexpected object in []any''"

fun addValue :: "extlib \<Rightarrow> any \<Rightarrow> rctx \<Rightarrow> string + rctx" where
  "addValue L (AMap m) ctx = addResource L m ctx"
| "addValue L (ASlice xs) ctx = efold (addElement L) xs ctx"
| "addValue L v ctx = Inl ''unexpected input object''"

definition buildResourceContextResources :: "extlib \<Rightarrow> input \<Rightarrow> string + rctx" where
  "buildResourceContextResources L i =
     efold (addValue L) (map snd (ranged (inputOrder L i) (input_Get i))) []"

definition buildResourceContext :: "extlib \<Rightarrow> input \<Rightarrow> string + rctx" where
  "buildResourceContext L i = buildResourceContextResources L i"

definition image_run :: "extlib \<Rightarrow> input \<Rightarrow> imageFn \<Rightarrow> ((fnerr + rctx) \<times> imageFn) go" where
  "image_run L i r = Some
     (case newRunner L (img_fnconfig r) of
        Inl err \<Rightarrow> (Inl (FnErr err), r)
      | Inr run \<Rightarrow>
          (case buildResourceContext L i of
             Inl err \<Rightarrow> (Inl (FnErr err), r)
           | Inr ctx \<Rightarrow> (liftErr (run ctx), r)))"

text \<open>The objects of one kind: a conditioned one is resolved by the service of its kind; the first error
  ends the loop, what is decoded so far stays.\<close>

fun krmEntries :: "extlib \<Rightarrow> raw list \<Rightarrow> any list \<Rightarrow> string list \<Rightarrow> any list \<times> string list" where
  "krmEntries L [] krmOutput errs = (krmOutput, errs)"
| "krmEntries L (krm # krms) krmOutput errs =
     (case unmarshalObject L krm of
        Inl err \<Rightarrow> (krmOutput, errs @ [err])
      | Inr (conditioned, gvk) \<Rightarrow>
          (case (if conditioned then
                   (case serviceClient L gvk of
                      None \<Rightarrow> Inl ''cannot get svc client''
                    | Some svcApply \<Rightarrow> svcApply krm)
                 else Inr krm) of
             Inl err \<Rightarrow> (krmOutput, errs @ [err])
           | Inr res \<Rightarrow>
               (case unmarshalMap L res of
                  Inl err \<Rightarrow> (krmOutput, errs @ [err])
                | Inr x \<Rightarrow> krmEntries L krms (krmOutput @ [x]) errs)))"

fun recordEntries :: "extlib \<Rightarrow> rctx \<Rightarrow> imageFn \<Rightarrow> imageFn" where
  "recordEntries L [] r = r"
| "recordEntries L ((gvkString, krmslice) # rest) r =
     (case gget (img_gvkToVarName r) gvkString of
        None \<Rightarrow> recordEntries L rest r
      | Some varName \<Rightarrow>
          (case krmEntries L krmslice [] (img_errs r) of
             (krmOutput, errs) \<Rightarrow>
               (case gget (output_Get (img_outputs r)) varName of
                  None \<Rightarrow> r\<lparr>img_errs := errs @ [''unregistered image varName'']\<rparr>
                | Some v \<Rightarrow>
                    (case infoOf v of
                       None \<Rightarrow> r\<lparr>img_errs := errs @ [''expected type *output.OutputInfo'']\<rparr>
                     | Some oi \<Rightarrow> recordEntries L rest (r\<lparr>img_errs := errs,
                         img_output := output_AddEntry varName
                           (AOutputInfo (OutputInfo (oi_Internal oi) False (oi_GVK oi) (ASlice krmOutput)))
                           (img_output r)\<rparr>)))))"

definition image_initOutput :: "nat \<Rightarrow> imageFn \<Rightarrow> imageFn" where
  "image_initOutput numItems r = r\<lparr>img_output := output_New, img_numItems := numItems\<rparr>"

definition image_getFinalResult :: "imageFn \<Rightarrow> out_store option \<times> fnerr option" where
  "image_getFinalResult r =
     (if img_errs r \<noteq> [] then (None, Some (FnErr ''errors executing image''))
      else (Some (img_output r), None))"

definition NewImageFn :: "extlib \<Rightarrow> (imageFn, rctx) fnExecConfig" where
  "NewImageFn L = \<lparr>executeRange = True, executeSingle = True, filterInputFn = Some image_filterInput,
     runFn = Some (image_run L), initOutputFn = Some image_initOutput,
     recordOutputFn = Some (recordEntries L), getFinalResultFn = image_getFinalResult\<rparr>"

definition image_Run :: "extlib \<Rightarrow> string \<Rightarrow> VertexContext \<Rightarrow> input \<Rightarrow> world \<Rightarrow> fnResult go" where
  "image_Run L rootVertexName vertexContext i w =
     withWorld w (exec L (NewImageFn L) (vc_Function vertexContext) i
       \<lparr>img_rootVertexName = rootVertexName, img_fnconfig = vc_Function vertexContext,
        img_outputs = vc_Outputs vertexContext, img_gvkToVarName = vc_GVKToVarName vertexContext,
        img_output = output_New, img_numItems = 0, img_errs = []\<rparr>)"

section \<open>block (run\_block.go)\<close>

text \<open>A block runs the executor over its graph, on the outputs and results of the run it is part of.
  \<open>inner\<close> is that run of the executor; \<open>blockDAG\<close> follows the graph pointer of the vertex.\<close>

record blockEnv =
  blockDAG :: "string \<Rightarrow> rtdag option"
  inner :: "rtdag \<Rightarrow> world \<Rightarrow> world go"

record blockFn =
  blk_d :: "rtdag option"
  blk_world :: world
  blk_output :: "any list"

definition block_run :: "blockEnv \<Rightarrow> input \<Rightarrow> blockFn \<Rightarrow> ((fnerr + any) \<times> blockFn) go" where
  "block_run B i r =
     (case blk_d r of
        None \<Rightarrow> Some (Inl (FnErr ''expecting an initialized dag''), r)
      | Some d \<Rightarrow> do {
          w \<leftarrow> inner B d (blk_world r);
          Some (Inr ANil, r\<lparr>blk_world := w\<rparr>) })"

definition block_getFinalResult :: "blockFn \<Rightarrow> out_store option \<times> fnerr option" where
  "block_getFinalResult r = (Some output_New, None)"

definition NewBlockFn :: "blockEnv \<Rightarrow> (blockFn, any) fnExecConfig" where
  "NewBlockFn B = \<lparr>executeRange = False, executeSingle = True, filterInputFn = Some (\<lambda>r i. i),
     runFn = Some (block_run B), initOutputFn = Some (\<lambda>numItems r. r\<lparr>blk_output := []\<rparr>),
     recordOutputFn = Some (\<lambda>x r. r\<lparr>blk_output := blk_output r @ [x]\<rparr>),
     getFinalResultFn = block_getFinalResult\<rparr>"

definition block_Run :: "extlib \<Rightarrow> blockEnv \<Rightarrow> VertexContext \<Rightarrow> input \<Rightarrow> world \<Rightarrow> fnResult go" where
  "block_Run L B vertexContext i w = do {
     (oe, i, r) \<leftarrow> exec L (NewBlockFn B) (vc_Function vertexContext) i
       \<lparr>blk_d = Option.bind (vc_BlockDAG vertexContext) (blockDAG B), blk_world = w, blk_output = []\<rparr>;
     Some (oe, i, blk_world r) }"

end
