(* ===== verification/Exec_Handler.thy ===== *)
theory Exec_Handler
  imports Function_Types
begin

text \<open>
  From the executor to a function and back: the function map (pkg/exec/fnmap/fnmap.go and
  functions/init.go), the handler of a vertex (pkg/exec/exechandler/exec\_handler.go) and the set-up of
  a run (pkg/exec/builder/builder.go).  The times of a result are left out.
\<close>

section \<open>The function map\<close>

type_synonym fnRunner = "VertexContext \<Rightarrow> input \<Rightarrow> world \<Rightarrow> fnResult go"

text \<open>An initializer makes the object; only \<open>image\<close> looks at the name of the root vertex it is given.\<close>

type_synonym Initializer = "string \<Rightarrow> fnRunner"

record fnMap =
  fm_RootVertexName :: string
  fm_funcs :: "(FunctionType, Initializer) gmap"

definition fnmap_New :: "string \<Rightarrow> fnMap" where
  "fnmap_New rootVertexName = \<lparr>fm_RootVertexName = rootVertexName, fm_funcs = []\<rparr>"

definition Register :: "FunctionType \<Rightarrow> Initializer \<Rightarrow> fnMap \<Rightarrow> fnMap" where
  "Register fnType initFn r = r\<lparr>fm_funcs := gput fnType initFn (fm_funcs r)\<rparr>"

definition fnmap_Run :: "fnMap \<Rightarrow> fnRunner" where
  "fnmap_Run r vertexContext i w =
     (case gget (fm_funcs r) (fn_Type (vc_Function vertexContext)) of
        None \<Rightarrow> Some ((None, Some (FnErr ''function not registered'')), i, w)
      | Some initializer \<Rightarrow>
          initializer
            (if fn_Type (vc_Function vertexContext) \<in> {ContainerType, WasmType} then fm_RootVertexName r
             else '''')
            vertexContext i w)"

definition functions_Init :: "extlib \<Rightarrow> blockEnv \<Rightarrow> string \<Rightarrow> fnMap" where
  "functions_Init L B rootVertexName =
     Register ContainerType (image_Run L)
     (Register WasmType (image_Run L)
     (Register JQType (\<lambda>_. jq_Run L)
     (Register GoTemplateType (\<lambda>_. gt_Run L)
     (Register QueryType (\<lambda>_. query_Run L)
     (Register MapType (\<lambda>_. map_Run L)
     (Register SliceType (\<lambda>_. slice_Run L)
     (Register BlockType (\<lambda>_. block_Run L B)
     (Register RootType (\<lambda>_. root_Run L)
       (fnmap_New rootVertexName)))))))))"

section \<open>The handler\<close>

record execHandler =
  h_Name :: string
  h_Type :: ExecType
  h_DAG :: rtdag
  h_FnMap :: fnMap

text \<open>The input a vertex gets: the data of its references, for an image that of the root as well.\<close>

definition gatherInput :: "execHandler \<Rightarrow> VertexContext \<Rightarrow> out_store \<Rightarrow> input" where
  "gatherInput h vc out =
     (let rootVertexName = GetRootVertex (h_DAG h);
          addRefs = fold (\<lambda>ref i. input_AddEntry ref (GetData out ref) i) (vc_References vc)
      in case fn_Type (vc_Function vc) of
           RootType \<Rightarrow> input_New
         | ContainerType \<Rightarrow> addRefs (input_AddEntry rootVertexName (GetData out rootVertexName) input_New)
         | WasmType \<Rightarrow> addRefs (input_AddEntry rootVertexName (GetData out rootVertexName) input_New)
         | _ \<Rightarrow> addRefs input_New)"

text \<open>A vertex context of another type is recorded as a failure and then dereferenced as nil.\<close>

definition FunctionRun :: "execHandler \<Rightarrow> string \<Rightarrow> VertexContext option \<Rightarrow> world \<Rightarrow> (bool \<times> world) go" where
  "FunctionRun h vertexName vertexContext w = do {
     vc \<leftarrow> vertexContext;
     ((out, err), i, w) \<leftarrow> fnmap_Run (h_FnMap h) vc (gatherInput h vc (curOutputs w)) w;
     (let success = (err = None \<or> err = Some ErrConditionFalse);
          reason = (case err of None \<Rightarrow> '''' | Some e \<Rightarrow> ErrorString e)
      in Some (success,
           w\<lparr>curOutputs := output_Add out (curOutputs w),
             curResults := slice_Add
               \<lparr>ri_Type = h_Type h, ri_ExecName = h_Name h, ri_VertexName = vertexName, ri_Input = Some i,
                ri_Output = out, ri_Success = success, ri_Reason = reason\<rparr> (curResults w)\<rparr>)) }"

definition RecordFinalResult :: "execHandler \<Rightarrow> bool \<Rightarrow> world \<Rightarrow> world" where
  "RecordFinalResult h success w = w\<lparr>curResults := slice_Add
     \<lparr>ri_Type = ExecRootType, ri_ExecName = GetRootVertex (h_DAG h), ri_VertexName = ''total'',
      ri_Input = None, ri_Output = None, ri_Success = success, ri_Reason = ''''\<rparr> (curResults w)\<rparr>"

section \<open>The set-up of a run\<close>

definition builder_New :: "extlib \<Rightarrow> blockEnv \<Rightarrow> gvk option \<Rightarrow> any \<Rightarrow> rtdag \<Rightarrow> world \<Rightarrow> execHandler \<times> world" where
  "builder_New L B gvk data d w =
     (let rootVertexName = GetRootVertex d
      in (\<lparr>h_Name = rootVertexName, h_Type = ExecRootType, h_DAG = d,
           h_FnMap = functions_Init L B rootVertexName\<rparr>,
          w\<lparr>curOutputs := output_AddEntry rootVertexName
              (AOutputInfo (OutputInfo True False gvk data)) (curOutputs w)\<rparr>))"

end
