(* ===== verification/Meta.thy ===== *)
theory Meta
  imports Stores
begin

text \<open>
  Objects of the cluster and the helpers of pkg/meta (finalizer.go, annotations.go, labels.go,
  unstructured.go, errors.go, meta.go), and the part of the k8s client the runtime calls.

  A \<open>kobj\<close> has the metadata the code reads or writes; the rest is \<open>ko_Content\<close>.  A nil map of
  annotations or labels is \<open>None\<close>.  The client is a parameter: each call takes the state of the
  cluster, of any type, and returns an error and the object it was given, overwritten or not, as
  the Go client does through the pointer.
\<close>

section \<open>Objects\<close>

record OwnerReference =
  or_APIVersion :: string
  or_Kind :: string
  or_Name :: string
  or_UID :: string
  or_BlockOwnerDeletion :: "bool option"
  or_Controller :: "bool option"

record kobj =
  ko_GVK :: gvk
  ko_Name :: string
  ko_GenerateName :: string
  ko_Namespace :: string
  ko_UID :: string
  ko_Finalizers :: "string list"
  ko_Annotations :: "(string, string) gmap option"
  ko_Labels :: "(string, string) gmap option"
  ko_OwnerReferences :: "OwnerReference list"
  ko_DeletionTimestamp :: "int option"
  ko_Content :: any
  ko_Status :: "any option"

text \<open>A deletion timestamp is zero when it is nil or the zero time.\<close>

definition WasDeleted :: "kobj \<Rightarrow> bool" where
  "WasDeleted ob \<longleftrightarrow> (case ko_DeletionTimestamp ob of None \<Rightarrow> False | Some t \<Rightarrow> t \<noteq> 0)"

definition GetUnstructuredFromGVK :: "gvk \<Rightarrow> kobj" where
  "GetUnstructuredFromGVK g =
     \<lparr>ko_GVK = g, ko_Name = '''', ko_GenerateName = '''', ko_Namespace = '''', ko_UID = '''', ko_Finalizers = [],
      ko_Annotations = None, ko_Labels = None, ko_OwnerReferences = [], ko_DeletionTimestamp = None,
      ko_Content = ANil, ko_Status = None\<rparr>"

section \<open>The client\<close>

datatype kerr = KNotFound string | KErr string

fun IsNotFound :: "kerr \<Rightarrow> bool" where
  "IsNotFound (KNotFound m) = True"
| "IsNotFound (KErr m) = False"

text \<open>errors.go, and \<open>errors.Wrap\<close> of pkg/errors: nil stays nil.\<close>

definition Ignore :: "(kerr \<Rightarrow> bool) \<Rightarrow> kerr option \<Rightarrow> kerr option" where
  "Ignore p err = (case err of None \<Rightarrow> None | Some e \<Rightarrow> if p e then None else Some e)"

definition IgnoreNotFound :: "kerr option \<Rightarrow> kerr option" where
  "IgnoreNotFound err = Ignore IsNotFound err"

definition Wrap :: "kerr option \<Rightarrow> string \<Rightarrow> goerr" where
  "Wrap err msg = (case err of None \<Rightarrow> None | Some (KNotFound m) \<Rightarrow> Some (msg @ '': '' @ m)
     | Some (KErr m) \<Rightarrow> Some (msg @ '': '' @ m))"

type_synonym 'c call = "kobj \<Rightarrow> 'c \<Rightarrow> kerr option \<times> kobj \<times> 'c"

text \<open>A merge patch: what changed since a copy of the object, or the whole object.\<close>

datatype patch = MergeFrom kobj | MergeWith kobj

record 'c kclient =
  cl_Get :: "string \<times> string \<Rightarrow> kobj \<Rightarrow> 'c \<Rightarrow> kerr option \<times> kobj"
  cl_Create :: "'c call"
  cl_Update :: "'c call"
  cl_UpdateStatus :: "'c call"
  cl_Patch :: "patch \<Rightarrow> 'c call"
  cl_PatchStatus :: "patch \<Rightarrow> 'c call"

section \<open>Finalizers (finalizer.go)\<close>

fun hasFinalizer :: "string list \<Rightarrow> string \<Rightarrow> bool" where
  "hasFinalizer [] finalizer = False"
| "hasFinalizer (e # f) finalizer = (if e = finalizer then True else hasFinalizer f finalizer)"

definition FinalizerExists :: "kobj \<Rightarrow> string \<Rightarrow> bool" where
  "FinalizerExists ob finalizer = hasFinalizer (ko_Finalizers ob) finalizer"

definition AddFinalizer :: "kobj \<Rightarrow> string \<Rightarrow> kobj" where
  "AddFinalizer ob finalizer =
     (if hasFinalizer (ko_Finalizers ob) finalizer then ob
      else ob\<lparr>ko_Finalizers := ko_Finalizers ob @ [finalizer]\<rparr>)"

text \<open>\<open>for i, e := range f { if e == finalizer { f = append(f[:i], f[i+1:]...) } }\<close>: the loop ranges
  over the slice as it was, whose array the appends overwrite, while \<open>f\<close> gets shorter; a slice
  expression beyond its length panics.  The state is the array and the length of \<open>f\<close>.\<close>

definition removeStep :: "string \<Rightarrow> nat \<Rightarrow> string list \<times> nat \<Rightarrow> (string list \<times> nat) go" where
  "removeStep finalizer i = (\<lambda>(arr, n).
     if arr ! i = finalizer then
       if n < i + 1 then None
       else Some (take i arr @ take (n - (i + 1)) (drop (i + 1) arr) @ drop (n - 1) arr, n - 1)
     else Some (arr, n))"

definition RemoveFinalizer :: "kobj \<Rightarrow> string \<Rightarrow> kobj go" where
  "RemoveFinalizer ob finalizer = do {
     (arr, n) \<leftarrow> ofold (removeStep finalizer) [0..<length (ko_Finalizers ob)]
       (ko_Finalizers ob, length (ko_Finalizers ob));
     Some (ob\<lparr>ko_Finalizers := take n arr\<rparr>) }"

text \<open>The methods of \<open>APIFinalizer\<close>: the object is updated in the cluster when it changed.\<close>

definition APIAddFinalizer :: "'c kclient \<Rightarrow> string \<Rightarrow> kobj \<Rightarrow> 'c \<Rightarrow> goerr \<times> kobj \<times> 'c" where
  "APIAddFinalizer cl finalizer ob c =
     (if FinalizerExists ob finalizer then (None, ob, c)
      else case cl_Update cl (AddFinalizer ob finalizer) c of
        (err, ob, c) \<Rightarrow> (Wrap err ''cannot update k8s resource'', ob, c))"

definition APIRemoveFinalizer :: "'c kclient \<Rightarrow> string \<Rightarrow> kobj \<Rightarrow> 'c \<Rightarrow> (goerr \<times> kobj \<times> 'c) go" where
  "APIRemoveFinalizer cl finalizer ob c =
     (if \<not> FinalizerExists ob finalizer then Some (None, ob, c)
      else do {
        ob \<leftarrow> RemoveFinalizer ob finalizer;
        (case cl_Update cl ob c of
           (err, ob, c) \<Rightarrow> Some (Wrap (IgnoreNotFound err) ''cannot update k8s resource'', ob, c)) })"

section \<open>Annotations and labels\<close>

definition putAll :: "('k \<times> 'v) list \<Rightarrow> ('k, 'v) gmap \<Rightarrow> ('k, 'v) gmap" where
  "putAll entries m = fold (\<lambda>(k, v). gput k v) entries m"

definition delAll :: "'k list \<Rightarrow> ('k, 'v) gmap \<Rightarrow> ('k, 'v) gmap" where
  "delAll ks m = fold (\<lambda>k. filter (\<lambda>e. fst e \<noteq> k)) ks m"

definition AddAnnotations :: "kobj \<Rightarrow> (string, string) gmap \<Rightarrow> kobj" where
  "AddAnnotations ob annotations =
     (case ko_Annotations ob of
        None \<Rightarrow> ob\<lparr>ko_Annotations := Some annotations\<rparr>
      | Some a \<Rightarrow> ob\<lparr>ko_Annotations := Some (putAll annotations a)\<rparr>)"

definition RemoveAnnotations :: "kobj \<Rightarrow> string list \<Rightarrow> kobj" where
  "RemoveAnnotations ob annotations =
     (case ko_Annotations ob of
        None \<Rightarrow> ob
      | Some a \<Rightarrow> ob\<lparr>ko_Annotations := Some (delAll annotations a)\<rparr>)"

definition AddLabels :: "kobj \<Rightarrow> (string, string) gmap \<Rightarrow> kobj" where
  "AddLabels ob labels =
     (case ko_Labels ob of
        None \<Rightarrow> ob\<lparr>ko_Labels := Some labels\<rparr>
      | Some l \<Rightarrow> ob\<lparr>ko_Labels := Some (putAll labels l)\<rparr>)"

definition RemoveLabels :: "kobj \<Rightarrow> string list \<Rightarrow> kobj" where
  "RemoveLabels ob labels =
     (case ko_Labels ob of
        None \<Rightarrow> ob
      | Some l \<Rightarrow> ob\<lparr>ko_Labels := Some (delAll labels l)\<rparr>)"

section \<open>Properties\<close>

lemma hasFinalizer_iff [simp]: "hasFinalizer f finalizer \<longleftrightarrow> finalizer \<in> set f"
  by (induction f) auto

lemma AddFinalizer_exists: "FinalizerExists (AddFinalizer ob finalizer) finalizer"
  by (simp add: FinalizerExists_def AddFinalizer_def)

lemma AddFinalizer_distinct:
  "distinct (ko_Finalizers ob) \<Longrightarrow> distinct (ko_Finalizers (AddFinalizer ob finalizer))"
  by (simp add: AddFinalizer_def)

text \<open>Past an array without the finalizer the loop changes nothing.\<close>

lemma removeStep_none:
  "\<forall>i\<in>set is. arr ! i \<noteq> finalizer \<Longrightarrow> ofold (removeStep finalizer) is (arr, n) = Some (arr, n)"
  by (induction "is") (auto simp: removeStep_def)

lemma removeLoop_split:
  assumes "finalizer \<notin> set xs" and "finalizer \<notin> set ys"
  shows "ofold (removeStep finalizer) [0..<length (xs @ finalizer # ys)] (xs @ finalizer # ys, length (xs @ finalizer # ys))
    = Some (xs @ ys @ [last (finalizer # ys)], length (xs @ ys))"
proof -
  let ?a = "xs @ finalizer # ys" and ?b = "xs @ ys @ [last (finalizer # ys)]"
  have idx: "[0..<length ?a] = [0..<length xs] @ length xs # [Suc (length xs)..<length ?a]"
    using upt_add_eq_append [of 0 "length xs" "Suc (length ys)"] by (simp add: upt_conv_Cons del: upt_Suc)
  have "\<forall>i\<in>set [0..<length xs]. ?a ! i \<noteq> finalizer" using assms(1) by (auto simp: nth_append)
  moreover have "removeStep finalizer (length xs) (?a, length ?a) = Some (?b, length (xs @ ys))"
    by (cases ys rule: rev_cases) (auto simp: removeStep_def)
  moreover have "\<forall>i\<in>set [Suc (length xs)..<length ?a]. ?b ! i \<noteq> finalizer"
    using assms(2) by (cases ys rule: rev_cases) (auto simp: nth_append)
  ultimately show ?thesis unfolding idx
    by (simp add: ofold_append removeStep_none del: set_upt)
qed

text \<open>A finalizer that occurs once is removed and nothing else changes.\<close>

lemma RemoveFinalizer_once:
  assumes "count_list (ko_Finalizers ob) finalizer = 1"
  shows "RemoveFinalizer ob finalizer =
    Some (ob\<lparr>ko_Finalizers := filter (\<lambda>f. f \<noteq> finalizer) (ko_Finalizers ob)\<rparr>)"
proof -
  have "finalizer \<in> set (ko_Finalizers ob)" using assms by (metis count_list_0_iff zero_neq_one)
  then obtain xs ys where f: "ko_Finalizers ob = xs @ finalizer # ys" and xs: "finalizer \<notin> set xs"
    by (meson split_list_first)
  have ys: "finalizer \<notin> set ys" using assms by (auto simp: f count_list_0_iff)
  have "filter (\<lambda>f. f \<noteq> finalizer) zs = zs" if "finalizer \<notin> set zs" for zs
    using that by (auto simp: filter_id_conv)
  then show ?thesis using removeLoop_split [OF xs ys] xs ys by (simp add: RemoveFinalizer_def f del: upt_Suc)
qed

definition sampleObject :: kobj where
  "sampleObject = (GetUnstructuredFromGVK \<lparr>gvk_Group = ''g'', gvk_Version = ''v1'', gvk_Kind = ''K''\<rparr>)
     \<lparr>ko_Name := ''n'', ko_Namespace := ''ns'', ko_Finalizers := [''a'', ''x'', ''b'']\<rparr>"

text \<open>What \<open>AddFinalizer\<close> adds, \<open>RemoveFinalizer\<close> takes away.\<close>

lemma Add_RemoveFinalizer:
  assumes "\<not> FinalizerExists ob finalizer"
  shows "RemoveFinalizer (AddFinalizer ob finalizer) finalizer = Some ob"
proof -
  have f: "finalizer \<notin> set (ko_Finalizers ob)" using assms by (simp add: FinalizerExists_def)
  then show ?thesis
    using removeLoop_split [of finalizer "ko_Finalizers ob" "[]"]
    by (simp add: AddFinalizer_def RemoveFinalizer_def del: upt_Suc)
qed

text \<open>A finalizer that occurs twice is not removed: the loop panics on \<open>[x, x]\<close> and leaves one of
  \<open>[x, x, b]\<close>.\<close>

lemma RemoveFinalizer_twice:
  "RemoveFinalizer (ob\<lparr>ko_Finalizers := [x, x]\<rparr>) x = None"
  "x \<noteq> b \<Longrightarrow> RemoveFinalizer (ob\<lparr>ko_Finalizers := [x, x, b]\<rparr>) x = Some (ob\<lparr>ko_Finalizers := [x, b]\<rparr>)"
  by (simp_all add: RemoveFinalizer_def removeStep_def upt_rec numeral_2_eq_2 numeral_3_eq_3)

text \<open>The maps: additions win over what was there, removals take the keys away, and a nil map stays nil
  on removal.\<close>

lemma gget_putAll: "gwf entries \<Longrightarrow> gget (putAll entries m) = gget m ++ gget entries"
  unfolding putAll_def by (rule gget_fold_gput)

lemma gget_delAll: "gget (delAll ks m) k = (if k \<in> set ks then None else gget m k)"
proof (induction ks arbitrary: m)
  case (Cons x ks)
  have "gget (filter (\<lambda>e. fst e \<noteq> x) m) k = (if k = x then None else gget m k)"
    by (induction m) auto
  then show ?case using Cons [of "filter (\<lambda>e. fst e \<noteq> x) m"] by (auto simp: delAll_def)
qed (simp add: delAll_def)

end
