(* ===== verification/Reconciler.thy ===== *)
theory Reconciler
  imports Exec_Handler Executor Meta
begin

text \<open>
  The reconciler of the main resource (pkg/controllers/reconciler/reconciler.go), the applicator it writes
  with (pkg/applicator/applicator.go) and the handler of watched resources
  (pkg/controllers/eventhandler/eventhandler.go).

  What a run of the executor over a graph leaves behind is the field \<open>rc_run\<close>: the executor is not
  deterministic, so one reconciliation gets one of its runs; \<open>executor.New\<close>, which can panic, is called.
  JSON and YAML conversion and the service clients come from outside and are fields too.
\<close>

section \<open>The applicator\<close>

type_synonym ApplyOption = "kobj \<Rightarrow> kobj \<Rightarrow> goerr \<times> kobj \<times> kobj"

fun applyOptions :: "ApplyOption list \<Rightarrow> kobj \<Rightarrow> kobj \<Rightarrow> goerr \<times> kobj \<times> kobj" where
  "applyOptions [] current desired = (None, current, desired)"
| "applyOptions (fn # ao) current desired =
     (case fn current desired of
        (Some err, current, desired) \<Rightarrow> (Some err, current, desired)
      | (None, current, desired) \<Rightarrow> applyOptions ao current desired)"

definition createObject :: "'c kclient \<Rightarrow> kobj \<Rightarrow> 'c \<Rightarrow> goerr \<times> kobj \<times> 'c" where
  "createObject cl ob c = (case cl_Create cl ob c of (err, ob, c) \<Rightarrow> (Wrap err ''cannot create object'', ob, c))"

definition Apply :: "'c kclient \<Rightarrow> kobj \<Rightarrow> ApplyOption list \<Rightarrow> 'c \<Rightarrow> goerr \<times> kobj \<times> 'c" where
  "Apply cl ob ao c =
     (if ko_Name ob = '''' \<and> ko_GenerateName ob \<noteq> '''' then createObject cl ob c
      else let desired = ob in
        case cl_Get cl (ko_Namespace ob, ko_Name ob) ob c of
          (Some err, ob) \<Rightarrow>
            if IsNotFound err then createObject cl ob c
            else (Wrap (Some err) ''cannot get object'', ob, c)
        | (None, ob) \<Rightarrow>
            (case applyOptions ao ob desired of
               (Some err, ob, desired) \<Rightarrow> (Some err, ob, c)
             | (None, ob, desired) \<Rightarrow>
                 (case cl_Patch cl (MergeWith desired) ob c of
                    (err, ob, c) \<Rightarrow> (Wrap err ''cannot patch object'', ob, c))))"

section \<open>The reconciler\<close>

record ctrlResult =
  Requeue :: bool
  RequeueAfter :: int

definition Result0 :: ctrlResult where
  "Result0 = \<lparr>Requeue = False, RequeueAfter = 0\<rparr>"

definition after5 :: ctrlResult where
  "after5 = \<lparr>Requeue = False, RequeueAfter = 5\<rparr>"

type_synonym svcClient = "raw \<Rightarrow> string + raw"

record 'c reconciler =
  rc_client :: "'c kclient"
  rc_ceCtx :: cfgExecContext
  rc_lib :: extlib
  rc_marshalData :: "kobj \<Rightarrow> string + any"
  rc_marshalJSON :: "any \<Rightarrow> string + raw"
  rc_unmarshalJSON :: "raw \<Rightarrow> string + kobj"
  rc_newSvcClient :: "int \<Rightarrow> string + svcClient"
  rc_run :: "execHandler \<Rightarrow> world \<Rightarrow> world go"
  rc_inner :: "rtdag \<Rightarrow> world \<Rightarrow> world go"

definition defaultFinalizerName :: string where
  "defaultFinalizerName = ''lcnc.yndd.io/finalizer''"

fun svcClients :: "(int \<Rightarrow> string + svcClient) \<Rightarrow> (gvk, ServiceCtx) gmap \<Rightarrow> (gvk, svcClient) gmap \<Rightarrow>
    string + (gvk, svcClient) gmap" where
  "svcClients newClient [] sc = Inr sc"
| "svcClients newClient ((gvk, svcCtx) # rest) sc =
     (case newClient (sc_Port svcCtx) of
        Inl err \<Rightarrow> Inl err
      | Inr svcClient \<Rightarrow> svcClients newClient rest (gput gvk svcClient sc))"

definition getSvcClients :: "'c reconciler \<Rightarrow> string + (gvk, svcClient) gmap" where
  "getSvcClients r = svcClients (rc_newSvcClient r) (service_Get (cecGetServices (rc_ceCtx r))) []"

definition world_New :: world where
  "world_New = \<lparr>curOutputs = output_New, curResults = slice_New\<rparr>"

text \<open>\<open>builder.New(..)\<close>, which makes the executor, and \<open>e.Run(ctx)\<close>.\<close>

definition runDAG :: "extlib \<Rightarrow> (rtdag \<Rightarrow> world \<Rightarrow> world go) \<Rightarrow> (execHandler \<Rightarrow> world \<Rightarrow> world go) \<Rightarrow>
    (gvk, svcClient) gmap \<Rightarrow> RTDAGCtx \<Rightarrow> gvk \<Rightarrow> any \<Rightarrow> world go" where
  "runDAG L innerRun run sc dctx gvk x =
     (case builder_New (L\<lparr>serviceClient := gget sc\<rparr>) \<lparr>blockDAG = gget (BlockDAGs dctx), inner = innerRun\<rparr>
        (Some gvk) x (DAG dctx) world_New of
        (h, w) \<Rightarrow> do {
          _ \<leftarrow> exec_init (h_DAG h);
          run h w })"

text \<open>The status update every return of the reconciler goes through, but for the first and the last of a deletion.\<close>

definition withStatus :: "'c reconciler \<Rightarrow> ctrlResult \<Rightarrow> kobj \<Rightarrow> 'c \<Rightarrow> (ctrlResult \<times> goerr) \<times> 'c" where
  "withStatus r result cr c =
     (case cl_UpdateStatus (rc_client r) cr c of
        (err, _, c) \<Rightarrow> ((result, Wrap err ''cannot update resource status''), c))"

text \<open>The final outputs: one of the kind of the resource replaces it, the others are applied.\<close>

fun applyOutputs :: "'c reconciler \<Rightarrow> any list \<Rightarrow> kobj \<Rightarrow> 'c \<Rightarrow>
    ((ctrlResult \<times> goerr) \<times> 'c) + (kobj \<times> 'c)" where
  "applyOutputs r [] cr c = Inr (cr, c)"
| "applyOutputs r (x # xs) cr c =
     (case rc_marshalJSON r x of
        Inl err \<Rightarrow> Inl (withStatus r after5 cr c)
      | Inr b \<Rightarrow>
          (case rc_unmarshalJSON r b of
             Inl err \<Rightarrow> Inl (withStatus r after5 cr c)
           | Inr u \<Rightarrow>
               if ko_GVK u = ko_GVK cr then applyOutputs r xs u c
               else case Apply (rc_client r) u [] c of
                 (Some err, _, c) \<Rightarrow> Inl (withStatus r after5 cr c)
               | (None, _, c) \<Rightarrow> applyOutputs r xs cr c))"

definition reconcileDelete :: "'c reconciler \<Rightarrow> any \<Rightarrow> (gvk, svcClient) gmap \<Rightarrow> kobj \<Rightarrow> 'c \<Rightarrow>
    ((ctrlResult \<times> goerr) \<times> 'c) go" where
  "reconcileDelete r x sc cr c = do {
     dctx \<leftarrow> GetDAGCtx FOWFor (Some (GetForGVK (rc_ceCtx r))) OperationDelete (rc_ceCtx r);
     deleteDAGCtx \<leftarrow> dctx;
     _ \<leftarrow> runDAG (rc_lib r) (rc_inner r) (rc_run r) sc deleteDAGCtx (GetForGVK (rc_ceCtx r)) x;
     (err, cr, c) \<leftarrow> APIRemoveFinalizer (rc_client r) defaultFinalizerName cr c;
     (case err of
        Some _ \<Rightarrow> Some (withStatus r (Result0\<lparr>Requeue := True\<rparr>) cr c)
      | None \<Rightarrow> Some ((Result0, None), c)) }"

definition reconcileApply :: "'c reconciler \<Rightarrow> any \<Rightarrow> (gvk, svcClient) gmap \<Rightarrow> kobj \<Rightarrow> 'c \<Rightarrow>
    ((ctrlResult \<times> goerr) \<times> 'c) go" where
  "reconcileApply r x sc cr c = do {
     dctx \<leftarrow> GetDAGCtx FOWFor (Some (GetForGVK (rc_ceCtx r))) OperationApply (rc_ceCtx r);
     applyDAGCtx \<leftarrow> dctx;
     w \<leftarrow> runDAG (rc_lib r) (rc_inner r) (rc_run r) sc applyDAGCtx (GetForGVK (rc_ceCtx r)) x;
     Some (case applyOutputs r (GetFinalOutput (curOutputs w)) cr c of
             Inl result \<Rightarrow> result
           | Inr (cr, c) \<Rightarrow> withStatus r Result0 cr c) }"

definition Reconcile :: "'c reconciler \<Rightarrow> string \<times> string \<Rightarrow> 'c \<Rightarrow> ((ctrlResult \<times> goerr) \<times> 'c) go" where
  "Reconcile r key c =
     (case cl_Get (rc_client r) key (GetUnstructuredFromGVK (GetForGVK (rc_ceCtx r))) c of
        (Some err, cr) \<Rightarrow> Some ((Result0, Wrap (IgnoreNotFound (Some err)) ''cannot get resource''), c)
      | (None, cr) \<Rightarrow>
          (case rc_marshalData r cr of
             Inl err \<Rightarrow> Some (withStatus r after5 cr c)
           | Inr x \<Rightarrow>
               (case APIAddFinalizer (rc_client r) defaultFinalizerName cr c of
                  (Some err, cr, c) \<Rightarrow> Some (withStatus r after5 cr c)
                | (None, cr, c) \<Rightarrow>
                    (case getSvcClients r of
                       Inl err \<Rightarrow> Some (withStatus r after5 cr c)
                     | Inr sc \<Rightarrow>
                         if WasDeleted cr then reconcileDelete r x sc cr c
                         else reconcileApply r x sc cr c))))"

section \<open>Watched resources\<close>

record eventhandler =
  eh_gvk :: gvk
  eh_rootVertexName :: string
  eh_dag :: RTDAGCtx

datatype watchEvent = CreateEvent "kobj option" | UpdateEvent "kobj option" "kobj option"
| DeleteEvent "kobj option" | GenericEvent "kobj option"

text \<open>An object that is no \<open>*unstructured.Unstructured\<close> is \<open>None\<close>.  The handler has no service clients; its
  run leaves its outputs nowhere and adds nothing to the queue.\<close>

definition eh_add :: "'c reconciler \<Rightarrow> eventhandler \<Rightarrow> kobj option \<Rightarrow> 'q list \<Rightarrow> 'q list go" where
  "eh_add r eh ob queue =
     (case ob of
        None \<Rightarrow> Some queue
      | Some u \<Rightarrow>
          (case rc_marshalData r u of
             Inl err \<Rightarrow> Some queue
           | Inr x \<Rightarrow> do {
               w \<leftarrow> runDAG (rc_lib r) (rc_inner r) (rc_run r) [] (eh_dag eh) (eh_gvk eh) x;
               Some queue }))"

fun eh_handle :: "'c reconciler \<Rightarrow> eventhandler \<Rightarrow> watchEvent \<Rightarrow> 'q list \<Rightarrow> 'q list go" where
  "eh_handle r eh (CreateEvent ob) q = eh_add r eh ob q"
| "eh_handle r eh (UpdateEvent obOld obNew) q = Option.bind (eh_add r eh obOld q) (eh_add r eh obNew)"
| "eh_handle r eh (DeleteEvent ob) q = eh_add r eh ob q"
| "eh_handle r eh (GenericEvent ob) q = eh_add r eh ob q"

end
