(* ===== verification/Internal_Controller.thy ===== *)
theory Internal_Controller
  imports Reconciler
begin

text \<open>
  The controller that feeds the reconciler (pkg/internal/controller/controller.go), its construction
  (pkg/controller/controller.go) and the wiring of its watches (pkg/builder/controller.go).

  The controller's mutex is part of the state (\<open>ct_mu\<close>), because one path leaves it locked; an
  operation that waits for it for ever is \<open>Blocked\<close>.  A worker handles one item at a time, and what it
  does to the work queue of client-go is the list of calls it makes.  Starting a source, waiting for its cache and
  injecting fields are parameters.
\<close>

section \<open>State\<close>

datatype src = KindSource gvk | ChannelSource

datatype handler = EnqueueRequestForObject | EnqueueRequestForOwner gvk bool | HandleWatch eventhandler

datatype watchDescription = WatchDescription (w_src: src) (w_handler: handler)

record controller =
  ct_Name :: string
  ct_MaxConcurrentReconciles :: int
  ct_CacheSyncTimeout :: int
  ct_RecoverPanic :: bool
  ct_Started :: bool
  ct_startWatches :: "watchDescription list"
  ct_mu :: bool
  ct_sources :: "watchDescription list"
  ct_workers :: nat

datatype 'a outcome = Blocked | Done 'a

text \<open>The sources that are running are \<open>ct_sources\<close>; the two steps of a source may fail.\<close>

record environ =
  SetFields :: "watchDescription \<Rightarrow> goerr"
  startSource :: "watchDescription \<Rightarrow> goerr"
  waitForSync :: "watchDescription \<Rightarrow> goerr"

section \<open>Construction (pkg/controller)\<close>

record ctrlOptions =
  op_MaxConcurrentReconciles :: int
  op_CacheSyncTimeout :: int
  op_RecoverPanic :: bool
  op_hasReconciler :: bool

definition NewUnmanaged :: "(unit \<Rightarrow> goerr) \<Rightarrow> string \<Rightarrow> ctrlOptions \<Rightarrow> controller option \<times> goerr" where
  "NewUnmanaged setReconcilerFields name options =
     (if \<not> op_hasReconciler options then (None, Some ''must specify Reconciler'')
      else if length name = 0 then (None, Some ''must specify Name for Controller'')
      else
        (case setReconcilerFields () of
           Some err \<Rightarrow> (None, Some err)
         | None \<Rightarrow>
             (Some \<lparr>ct_Name = name,
                ct_MaxConcurrentReconciles =
                  (if op_MaxConcurrentReconciles options \<le> 0 then 1 else op_MaxConcurrentReconciles options),
                ct_CacheSyncTimeout =
                  (if op_CacheSyncTimeout options = 0 then 120 else op_CacheSyncTimeout options),
                ct_RecoverPanic = op_RecoverPanic options,
                ct_Started = False, ct_startWatches = [], ct_mu = False, ct_sources = [], ct_workers = 0\<rparr>, None)))"

section \<open>Watch and Start\<close>

definition Watch :: "environ \<Rightarrow> watchDescription \<Rightarrow> controller \<Rightarrow> (goerr \<times> controller) outcome" where
  "Watch E wd c =
     (if ct_mu c then Blocked
      else case SetFields E wd of
        Some err \<Rightarrow> Done (Some err, c)
      | None \<Rightarrow>
          if \<not> ct_Started c then Done (None, c\<lparr>ct_startWatches := ct_startWatches c @ [wd]\<rparr>)
          else (case startSource E wd of
                  Some err \<Rightarrow> Done (Some err, c)
                | None \<Rightarrow> Done (None, c\<lparr>ct_sources := ct_sources c @ [wd]\<rparr>)))"

text \<open>Launch the sources, in order, up to the first that fails; then wait for those with a cache.\<close>

fun launch :: "environ \<Rightarrow> watchDescription list \<Rightarrow> controller \<Rightarrow> goerr \<times> controller" where
  "launch E [] c = (None, c)"
| "launch E (wd # wds) c =
     (case startSource E wd of
        Some err \<Rightarrow> (Some err, c)
      | None \<Rightarrow> launch E wds (c\<lparr>ct_sources := ct_sources c @ [wd]\<rparr>))"

fun syncCaches :: "environ \<Rightarrow> watchDescription list \<Rightarrow> goerr" where
  "syncCaches E [] = None"
| "syncCaches E (wd # wds) =
     (case w_src wd of
        ChannelSource \<Rightarrow> syncCaches E wds
      | KindSource _ \<Rightarrow>
          (case waitForSync E wd of
             Some err \<Rightarrow> Some (''failed to wait for caches to sync: '' @ err)
           | None \<Rightarrow> syncCaches E wds))"

text \<open>\<open>Start\<close> up to the point where it waits for the context to be done.  A second call returns without giving
  the lock back.\<close>

definition Start :: "environ \<Rightarrow> controller \<Rightarrow> (goerr \<times> controller) outcome" where
  "Start E c =
     (if ct_mu c then Blocked
      else if ct_Started c then Done (Some ''controller was started more than once'', c\<lparr>ct_mu := True\<rparr>)
      else
        (case launch E (ct_startWatches c) c of
           (Some err, c) \<Rightarrow> Done (Some err, c)
         | (None, c) \<Rightarrow>
             (case syncCaches E (ct_startWatches c) of
                Some err \<Rightarrow> Done (Some err, c)
              | None \<Rightarrow> Done (None, c\<lparr>ct_startWatches := [], ct_workers := nat (ct_MaxConcurrentReconciles c),
                  ct_Started := True\<rparr>))))"

section \<open>Work items\<close>

datatype item = Request string string | NoRequest string

datatype queueOp = Forget item | AddRateLimited item | AddAfter item int | QDone item

text \<open>How the reconciler answers: a result and an error, or a panic.\<close>

datatype answer = Answer ctrlResult goerr | Panics string

text \<open>The controller's own \<open>Reconcile\<close> turns a panic into an error when it is told to recover.\<close>

definition ctrlReconcile :: "controller \<Rightarrow> answer \<Rightarrow> answer" where
  "ctrlReconcile c a =
     (case a of
        Panics r \<Rightarrow> if ct_RecoverPanic c then Answer Result0 (Some (''panic: '' @ r @ '' [recovered]'')) else Panics r
      | Answer result err \<Rightarrow> Answer result err)"

text \<open>The calls on the queue, and whether the process goes down with a panic.\<close>

definition reconcileHandler :: "controller \<Rightarrow> (string \<Rightarrow> string \<Rightarrow> answer) \<Rightarrow> item \<Rightarrow> queueOp list \<times> bool" where
  "reconcileHandler c Do ob =
     (case ob of
        NoRequest v \<Rightarrow> ([Forget ob], False)
      | Request ns name \<Rightarrow>
          (case ctrlReconcile c (Do ns name) of
             Panics r \<Rightarrow> ([], True)
           | Answer result err \<Rightarrow>
               (if err \<noteq> None then [AddRateLimited ob]
                else if RequeueAfter result > 0 then [Forget ob, AddAfter ob (RequeueAfter result)]
                else if Requeue result then [AddRateLimited ob]
                else [Forget ob], False)))"

text \<open>\<open>Queue.Get\<close> gives an item or says that the queue is shut down; \<open>Done\<close> is deferred.\<close>

definition processNextWorkItem ::
  "controller \<Rightarrow> (string \<Rightarrow> string \<Rightarrow> answer) \<Rightarrow> item option \<Rightarrow> bool \<times> queueOp list \<times> bool" where
  "processNextWorkItem c Do got =
     (case got of
        None \<Rightarrow> (False, [], False)
      | Some ob \<Rightarrow> (case reconcileHandler c Do ob of (ops, crash) \<Rightarrow> (True, ops @ [QDone ob], crash)))"

section \<open>Wiring (pkg/builder)\<close>

text \<open>The watches of a builder: the main resource, the channel of generic events, the owned kinds and the watched
  kinds.  The event handlers get \<open>&gvk\<close>, the address of the one loop variable of Go 1.19 (\<open>loopVar\<close>), which holds
  the last kind of the range when they are called; a loop that ends with an error ends the program.\<close>

fun watchAll :: "environ \<Rightarrow> watchDescription list \<Rightarrow> controller \<Rightarrow> (goerr \<times> controller) outcome" where
  "watchAll E [] c = Done (None, c)"
| "watchAll E (wd # wds) c =
     (case Watch E wd c of
        Blocked \<Rightarrow> Blocked
      | Done (Some err, c) \<Rightarrow> Done (Some err, c)
      | Done (None, c) \<Rightarrow> watchAll E wds c)"

definition ownWatches :: "cfgExecContext \<Rightarrow> watchDescription list" where
  "ownWatches ctx = map (\<lambda>(gvk, _). WatchDescription (KindSource gvk)
     (EnqueueRequestForOwner (GetForGVK ctx) True)) (GetFOW FOWOwn ctx)"

definition watchHandler :: "gvk \<Rightarrow> OperationCtx \<Rightarrow> eventhandler go" where
  "watchHandler loopVar od = do {
     d \<leftarrow> gget od OperationApply;
     Some \<lparr>eh_gvk = loopVar, eh_rootVertexName = RootVertexName d, eh_dag = d\<rparr> }"

fun watchLoop :: "environ \<Rightarrow> gvk \<Rightarrow> (gvk, OperationCtx) gmap \<Rightarrow> controller \<Rightarrow> (goerr \<times> controller) outcome go" where
  "watchLoop E loopVar [] c = Some (Done (None, c))"
| "watchLoop E loopVar ((gvk, od) # rest) c = do {
     eh \<leftarrow> watchHandler loopVar od;
     (case Watch E (WatchDescription (KindSource gvk) (HandleWatch eh)) c of
        Blocked \<Rightarrow> Some Blocked
      | Done (Some err, c) \<Rightarrow> Some (Done (Some err, c))
      | Done (None, c) \<Rightarrow> watchLoop E loopVar rest c) }"

definition doWatch :: "environ \<Rightarrow> cfgExecContext \<Rightarrow> controller \<Rightarrow> (goerr \<times> controller) outcome go" where
  "doWatch E ctx c =
     (let forGvk = GetForGVK ctx; fow = GetFOW FOWWatch ctx in
      case watchAll E ([WatchDescription (KindSource forGvk) EnqueueRequestForObject,
          WatchDescription ChannelSource EnqueueRequestForObject] @ ownWatches ctx) c of
        Blocked \<Rightarrow> Some Blocked
      | Done (Some err, c) \<Rightarrow> Some (Done (Some err, c))
      | Done (None, c) \<Rightarrow>
          (case fow of
             [] \<Rightarrow> Some (Done (None, c))
           | _ \<Rightarrow> watchLoop E (fst (last fow)) fow c))"

definition getControllerName :: "(string \<Rightarrow> string) \<Rightarrow> cfgExecContext \<Rightarrow> gvk \<Rightarrow> string" where
  "getControllerName toLower ctx gvk = (if cec_name ctx \<noteq> '''' then cec_name ctx else toLower (gvk_Kind gvk))"

text \<open>The options of a builder: the reconciler is that of \<open>Build\<close> unless one is set, a missing sync timeout is that of
  the manager.\<close>

text \<open>\<open>controller.New\<close>: the controller is made and added to the manager.\<close>

definition controller_New :: "(unit \<Rightarrow> goerr) \<Rightarrow> (controller \<Rightarrow> goerr) \<Rightarrow> string \<Rightarrow> ctrlOptions \<Rightarrow> controller option \<times> goerr" where
  "controller_New setReconcilerFields mgrAdd name options =
     (case NewUnmanaged setReconcilerFields name options of
        (None, err) \<Rightarrow> (None, err)
      | (Some c, err) \<Rightarrow> (Some c, mgrAdd c))"

definition doController :: "(string \<Rightarrow> string) \<Rightarrow> (unit \<Rightarrow> goerr) \<Rightarrow> (controller \<Rightarrow> goerr) \<Rightarrow> int option \<Rightarrow>
    cfgExecContext \<Rightarrow> ctrlOptions \<Rightarrow> bool \<Rightarrow> controller option \<times> goerr" where
  "doController toLower setReconcilerFields mgrAdd globalTimeout ctx options hasReconciler =
     (let options = options\<lparr>op_hasReconciler := op_hasReconciler options \<or> hasReconciler,
            op_CacheSyncTimeout := (case globalTimeout of
              Some t \<Rightarrow> if op_CacheSyncTimeout options = 0 then t else op_CacheSyncTimeout options
            | None \<Rightarrow> op_CacheSyncTimeout options)\<rparr>
      in controller_New setReconcilerFields mgrAdd (getControllerName toLower ctx (GetForGVK ctx)) options)"

definition Build :: "(string \<Rightarrow> string) \<Rightarrow> (unit \<Rightarrow> goerr) \<Rightarrow> (controller \<Rightarrow> goerr) \<Rightarrow> int option \<Rightarrow> environ \<Rightarrow>
    cfgExecContext \<Rightarrow> ctrlOptions \<Rightarrow> bool \<Rightarrow> (controller option \<times> goerr) outcome go" where
  "Build toLower setReconcilerFields mgrAdd globalTimeout E ctx options hasReconciler =
     (case doController toLower setReconcilerFields mgrAdd globalTimeout ctx options hasReconciler of
        (_, Some err) \<Rightarrow> Some (Done (None, Some err))
      | (c, None) \<Rightarrow> do {
          c \<leftarrow> c;
          watched \<leftarrow> doWatch E ctx c;
          Some (case watched of
                  Blocked \<Rightarrow> Blocked
                | Done (Some err, c) \<Rightarrow> Done (None, Some err)
                | Done (None, c) \<Rightarrow> Done (Some c, None)) }) "

end
