(* ===== verification/Runnable_Group.thy ===== *)
theory Runnable_Group
  imports Go_Prelude
begin

text \<open>
  The groups of runnables of the manager (pkg/manager/runnable_group.go).

  A group is shared by the callers of \<open>Add\<close>, the one caller of \<open>Start\<close> and the one of \<open>StopAndWait\<close> that get
  through their \<open>sync.Once\<close>, the goroutine of \<open>reconcile\<close>, and two goroutines of every started runnable: one runs it, one
  runs its check.  Every goroutine has a program counter; a step is what one of them does between two
  points where it can be stopped, and a send on an unbuffered channel is a step of the sender and the receiver.
  A runnable is known by a number, as the code compares pointers.  The reader of the error channel is the manager:
  what was read is kept.  \<open>check\<close> says what the check of a runnable answers; it may also never answer, as a runnable may
  never return.
\<close>

section \<open>State\<close>

type_synonym rid = nat

datatype gthread = AddThread rid | StartThread | CheckThread rid | RunThread rid

datatype gerror = errRunnableGroupStopped | RunnableFailed rid

datatype addPc = AddLock | AddSend | AddOk | AddRefused

text \<open>\<open>StSend\<close>: the mutex is held, these runnables are still to be sent.\<close>

datatype startPc = StIdle | StLock | StSend "rid list" | StWait | StDone

datatype recPc = RcIdle | RcRecv | RcGot rid | RcSpawn rid | RcRefuse | RcEnd

datatype runPc = RnRunning | RnErr | RnDone

datatype chkPc = CkRunning | CkSend | CkDone

text \<open>The argument tells whether all runnables have ended or the context of the caller has expired.\<close>

datatype stopPc = SpIdle | SpStart | SpCancel | SpWait | SpClose bool | SpDone bool

record runnableGroup =
  g_started :: bool
  g_startQueue :: "rid list"
  g_signalReady :: "rid set"
  g_stopped :: bool
  g_cancelled :: bool
  g_chClosed :: bool
  g_readyClosed :: bool
  g_wg :: int
  g_errs :: "gerror list"
  g_add :: "rid \<rightharpoonup> addPc"
  g_start :: startPc
  g_rec :: recPc
  g_run :: "rid \<rightharpoonup> runPc"
  g_chk :: "rid \<rightharpoonup> chkPc"
  g_stop :: stopPc
  g_retErr :: bool
  g_panic :: "gthread option"

definition newRunnableGroup :: runnableGroup where
  "newRunnableGroup = \<lparr>g_started = False, g_startQueue = [], g_signalReady = {}, g_stopped = False, g_cancelled = False,
     g_chClosed = False, g_readyClosed = False, g_wg = 0, g_errs = [], g_add = Map.empty, g_start = StIdle, g_rec = RcIdle,
     g_run = Map.empty, g_chk = Map.empty, g_stop = SpIdle, g_retErr = False, g_panic = None\<rparr>"

definition startLocked :: "runnableGroup \<Rightarrow> bool" where
  "startLocked s \<longleftrightarrow> (\<exists>rest. g_start s = StSend rest)"

text \<open>\<open>wg.Done\<close>, which panics when the counter becomes negative.\<close>

definition wgDone :: "rid \<Rightarrow> runnableGroup \<Rightarrow> runnableGroup" where
  "wgDone rid s = (if g_wg s \<le> 0 then s\<lparr>g_panic := Some (RunThread rid)\<rparr> else s\<lparr>g_wg := g_wg s - 1\<rparr>)"

section \<open>Steps\<close>

inductive gmove :: "(rid \<Rightarrow> bool) \<Rightarrow> runnableGroup \<Rightarrow> runnableGroup \<Rightarrow> bool" for check where
  add_refused: "g_add s rid = None \<Longrightarrow> g_stopped s \<Longrightarrow>
    gmove check s (s\<lparr>g_add := (g_add s)(rid \<mapsto> AddRefused)\<rparr>)"
| add_call: "g_add s rid = None \<Longrightarrow> \<not> g_stopped s \<Longrightarrow>
    gmove check s (s\<lparr>g_add := (g_add s)(rid \<mapsto> AddLock)\<rparr>)"
| add_queue: "g_add s rid = Some AddLock \<Longrightarrow> \<not> startLocked s \<Longrightarrow> \<not> g_started s \<Longrightarrow>
    gmove check s (s\<lparr>g_startQueue := g_startQueue s @ [rid], g_add := (g_add s)(rid \<mapsto> AddOk)\<rparr>)"
| add_started: "g_add s rid = Some AddLock \<Longrightarrow> \<not> startLocked s \<Longrightarrow> g_started s \<Longrightarrow>
    gmove check s (s\<lparr>g_add := (g_add s)(rid \<mapsto> AddSend)\<rparr>)"
| add_send: "g_add s rid = Some AddSend \<Longrightarrow> \<not> g_chClosed s \<Longrightarrow> g_rec s = RcRecv \<Longrightarrow>
    gmove check s (s\<lparr>g_add := (g_add s)(rid \<mapsto> AddOk), g_rec := RcGot rid\<rparr>)"
| add_send_closed: "g_add s rid = Some AddSend \<Longrightarrow> g_chClosed s \<Longrightarrow>
    gmove check s (s\<lparr>g_panic := Some (AddThread rid)\<rparr>)"
| start_call: "g_start s = StIdle \<Longrightarrow>
    gmove check s (s\<lparr>g_start := StLock, g_rec := RcRecv\<rparr>)"
| start_lock: "g_start s = StLock \<Longrightarrow>
    gmove check s (s\<lparr>g_started := True, g_start := StSend (g_startQueue s)\<rparr>)"
| start_send: "g_start s = StSend (rid # rest) \<Longrightarrow> \<not> g_chClosed s \<Longrightarrow> g_rec s = RcRecv \<Longrightarrow>
    gmove check s (s\<lparr>g_signalReady := insert rid (g_signalReady s), g_start := StSend rest, g_rec := RcGot rid\<rparr>)"
| start_send_closed: "g_start s = StSend (rid # rest) \<Longrightarrow> g_chClosed s \<Longrightarrow>
    gmove check s (s\<lparr>g_panic := Some StartThread\<rparr>)"
| start_empty: "g_start s = StSend [] \<Longrightarrow> g_startQueue s = [] \<Longrightarrow>
    gmove check s (s\<lparr>g_start := StDone, g_readyClosed := True\<rparr>)"
| start_wait: "g_start s = StSend [] \<Longrightarrow> g_startQueue s \<noteq> [] \<Longrightarrow>
    gmove check s (s\<lparr>g_start := StWait\<rparr>)"
| start_expired: "g_start s = StWait \<Longrightarrow>
    gmove check s (s\<lparr>g_retErr := True\<rparr>)"
| start_ready: "g_start s = StWait \<Longrightarrow> g_chk s rid = Some CkSend \<Longrightarrow> remove1 rid (g_startQueue s) \<noteq> [] \<Longrightarrow>
    gmove check s (s\<lparr>g_chk := (g_chk s)(rid \<mapsto> CkDone), g_startQueue := remove1 rid (g_startQueue s)\<rparr>)"
| start_last: "g_start s = StWait \<Longrightarrow> g_chk s rid = Some CkSend \<Longrightarrow> remove1 rid (g_startQueue s) = [] \<Longrightarrow>
    gmove check s (s\<lparr>g_chk := (g_chk s)(rid \<mapsto> CkDone), g_startQueue := [], g_start := StDone, g_readyClosed := True\<rparr>)"
| rec_refuse: "g_rec s = RcGot rid \<Longrightarrow> g_stopped s \<Longrightarrow>
    gmove check s (s\<lparr>g_rec := RcRefuse\<rparr>)"
| rec_refused: "g_rec s = RcRefuse \<Longrightarrow>
    gmove check s (s\<lparr>g_errs := g_errs s @ [errRunnableGroupStopped], g_rec := RcRecv\<rparr>)"
| rec_admit: "g_rec s = RcGot rid \<Longrightarrow> \<not> g_stopped s \<Longrightarrow>
    gmove check s (s\<lparr>g_wg := g_wg s + 1, g_rec := RcSpawn rid\<rparr>)"
| rec_spawn: "g_rec s = RcSpawn rid \<Longrightarrow>
    gmove check s (s\<lparr>g_run := (g_run s)(rid \<mapsto> RnRunning), g_chk := (g_chk s)(rid \<mapsto> CkRunning), g_rec := RcRecv\<rparr>)"
| rec_end: "g_rec s = RcRecv \<Longrightarrow> g_chClosed s \<Longrightarrow>
    gmove check s (s\<lparr>g_rec := RcEnd\<rparr>)"
| chk_signal: "g_chk s rid = Some CkRunning \<Longrightarrow> check rid \<Longrightarrow> rid \<in> g_signalReady s \<Longrightarrow>
    gmove check s (s\<lparr>g_chk := (g_chk s)(rid \<mapsto> CkSend)\<rparr>)"
| chk_end: "g_chk s rid = Some CkRunning \<Longrightarrow> \<not> check rid \<or> rid \<notin> g_signalReady s \<Longrightarrow>
    gmove check s (s\<lparr>g_chk := (g_chk s)(rid \<mapsto> CkDone)\<rparr>)"
| chk_closed: "g_chk s rid = Some CkSend \<Longrightarrow> g_readyClosed s \<Longrightarrow>
    gmove check s (s\<lparr>g_panic := Some (CheckThread rid)\<rparr>)"
| run_ok: "g_run s rid = Some RnRunning \<Longrightarrow>
    gmove check s (wgDone rid (s\<lparr>g_run := (g_run s)(rid \<mapsto> RnDone)\<rparr>))"
| run_fail: "g_run s rid = Some RnRunning \<Longrightarrow>
    gmove check s (s\<lparr>g_run := (g_run s)(rid \<mapsto> RnErr)\<rparr>)"
| run_err: "g_run s rid = Some RnErr \<Longrightarrow>
    gmove check s (wgDone rid (s\<lparr>g_errs := g_errs s @ [RunnableFailed rid], g_run := (g_run s)(rid \<mapsto> RnDone)\<rparr>))"
| stop_call: "g_stop s = SpIdle \<Longrightarrow>
    gmove check s (s\<lparr>g_stop := SpStart\<rparr>)"
| stop_started: "g_stop s = SpStart \<Longrightarrow> g_start s = StDone \<Longrightarrow> g_rec s \<noteq> RcRefuse \<Longrightarrow>
    gmove check s (s\<lparr>g_stopped := True, g_stop := SpCancel\<rparr>)"
| stop_cancel: "g_stop s = SpCancel \<Longrightarrow>
    gmove check s (s\<lparr>g_cancelled := True, g_stop := SpWait\<rparr>)"
| stop_waited: "g_stop s = SpWait \<Longrightarrow> g_wg s = 0 \<Longrightarrow>
    gmove check s (s\<lparr>g_stop := SpClose True\<rparr>)"
| stop_expired: "g_stop s = SpWait \<Longrightarrow>
    gmove check s (s\<lparr>g_stop := SpClose False\<rparr>)"
| stop_close: "g_stop s = SpClose b \<Longrightarrow>
    gmove check s (s\<lparr>g_chClosed := True, g_stop := SpDone b\<rparr>)"

text \<open>A panic ends the process.\<close>

inductive gstep :: "(rid \<Rightarrow> bool) \<Rightarrow> runnableGroup \<Rightarrow> runnableGroup \<Rightarrow> bool" for check where
  "g_panic s = None \<Longrightarrow> gmove check s s' \<Longrightarrow> gstep check s s'"

definition greach :: "(rid \<Rightarrow> bool) \<Rightarrow> runnableGroup \<Rightarrow> bool" where
  "greach check s = (gstep check)\<^sup>*\<^sup>* newRunnableGroup s"

section \<open>The groups of a manager\<close>

text \<open>What \<open>Add\<close> asks of a runnable: its cache, and whether it wants the leader election if it says so.\<close>

record Runnable =
  rn_hasCache :: bool
  rn_NeedLeaderElection :: "bool option"

datatype groupName = Caches | LeaderElection | Others

definition runnables_Add :: "Runnable \<Rightarrow> groupName" where
  "runnables_Add fn =
     (if rn_hasCache fn then Caches
      else case rn_NeedLeaderElection fn of
        Some need \<Rightarrow> (if \<not> need then Others else LeaderElection)
      | None \<Rightarrow> LeaderElection)"

end
