(* ===== verification/Manager.thy ===== *)
theory Manager
  imports Runnable_Group
begin

text \<open>
  The manager (pkg/manager: internal.go, and the options of manager.go): adding runnables and checks, \<open>Start\<close>
  and the stop procedure.

  The mutex is held for the whole of every operation but the wait of \<open>Start\<close> and the goroutine that starts the leader
  election group, so the calls, with \<open>Start\<close> in two parts and the end of that goroutine as an operation of its own, are
  a sequence; a goroutine that never ends has no such operation.  How the groups start and end, what the error channel brings and how the shutdown context ends comes from the runs of
  \<open>Runnable_Group\<close> and from outside; \<open>Start\<close> gets it as \<open>startEnv\<close>.
\<close>

datatype mErr =
  MErr string
| ErrWaitTimeout
| AlreadyStarted
| CheckerRefused
| GroupStopped
| StopEngaged
| AddClusterFailed mErr
| ShutdownTimeout
| NewAggregate "mErr list"

datatype shutdownEnd = Canceled | DeadlineExceeded

record startEnv =
  se_SetFields :: "mErr option"
  se_Caches :: "mErr option"
  se_Others :: "mErr option"
  se_Wait :: "mErr option"
  se_Shutdown :: shutdownEnd
  se_StoppedGroups :: "groupName \<Rightarrow> bool"

text \<open>\<open>'c\<close> is a health checker.\<close>

record 'c controllerManager =
  cm_started :: bool
  cm_stopProcedureEngaged :: bool
  cm_healthzHandler :: "(string, 'c) gmap option"
  cm_readyzHandler :: "(string, 'c) gmap option"
  cm_runnables :: "groupName \<Rightarrow> Runnable list"
  cm_stopped :: "groupName \<Rightarrow> bool"
  cm_gracefulShutdownTimeout :: int
  cm_probes :: bool
  cm_readinessEndpointName :: string
  cm_livenessEndpointName :: string
  cm_electing :: nat
  cm_elected :: bool
  cm_crashed :: bool
  cm_served :: "(string \<times> (string, 'c) gmap) list"
  cm_waiting :: nat

section \<open>Options\<close>

text \<open>The options that decide something here; zero values stand for what is not set.\<close>

record mgrOptions =
  mo_SyncPeriod :: "int option"
  mo_Namespace :: string
  mo_MetricsBindAddress :: string
  mo_HealthProbeBindAddress :: string
  mo_ReadinessEndpointName :: string
  mo_LivenessEndpointName :: string
  mo_GracefulShutdownTimeout :: "int option"
  mo_CacheSyncTimeout :: "int option"
  mo_GroupKindConcurrency :: "(string, int) gmap"

definition Options0 :: mgrOptions where
  "Options0 = \<lparr>mo_SyncPeriod = None, mo_Namespace = '''', mo_MetricsBindAddress = '''', mo_HealthProbeBindAddress = '''',
     mo_ReadinessEndpointName = '''', mo_LivenessEndpointName = '''', mo_GracefulShutdownTimeout = None,
     mo_CacheSyncTimeout = None, mo_GroupKindConcurrency = []\<rparr>"

text \<open>A configuration file, as its loader completes it, fills in what the options leave open.\<close>

record fileConfig =
  fc_SyncPeriod :: "int option"
  fc_CacheNamespace :: string
  fc_MetricsBindAddress :: string
  fc_Controller :: "(int option \<times> (string, int) gmap) option"

definition AndFrom :: "mErr + fileConfig \<Rightarrow> mgrOptions \<Rightarrow> mgrOptions \<times> mErr option" where
  "AndFrom loader r =
     (case loader of
        Inl err \<Rightarrow> (r, Some err)
      | Inr newObj \<Rightarrow>
          (let r = (if mo_SyncPeriod r = None \<and> fc_SyncPeriod newObj \<noteq> None then r\<lparr>mo_SyncPeriod := fc_SyncPeriod newObj\<rparr> else r);
               r = (if mo_Namespace r = '''' \<and> fc_CacheNamespace newObj \<noteq> ''''
                    then r\<lparr>mo_Namespace := fc_CacheNamespace newObj\<rparr> else r);
               r = (if mo_MetricsBindAddress r = '''' \<and> fc_MetricsBindAddress newObj \<noteq> ''''
                    then r\<lparr>mo_MetricsBindAddress := fc_MetricsBindAddress newObj\<rparr> else r)
           in case fc_Controller newObj of
                None \<Rightarrow> (r, None)
              | Some (CacheSyncTimeout, GroupKindConcurrency) \<Rightarrow>
                  (let r = (if mo_CacheSyncTimeout r = None \<and> CacheSyncTimeout \<noteq> None
                            then r\<lparr>mo_CacheSyncTimeout := CacheSyncTimeout\<rparr> else r);
                       r = (if length (mo_GroupKindConcurrency r) = 0 \<and> length GroupKindConcurrency > 0
                            then r\<lparr>mo_GroupKindConcurrency := GroupKindConcurrency\<rparr> else r)
                   in (r, None))))"

text \<open>\<open>AndFromOrDie\<close> panics on an error.\<close>

definition AndFromOrDie :: "mErr + fileConfig \<Rightarrow> mgrOptions \<Rightarrow> mgrOptions go" where
  "AndFromOrDie loader r = (case AndFrom loader r of (r, None) \<Rightarrow> Some r | (r, Some err) \<Rightarrow> None)"

definition defaultGracefulShutdownPeriod :: int where
  "defaultGracefulShutdownPeriod = 30"

definition setOptionsDefaults :: "mgrOptions \<Rightarrow> mgrOptions" where
  "setOptionsDefaults options = options\<lparr>
     mo_ReadinessEndpointName := (if mo_ReadinessEndpointName options = '''' then ''/readyz'' else mo_ReadinessEndpointName options),
     mo_LivenessEndpointName := (if mo_LivenessEndpointName options = '''' then ''/healthz'' else mo_LivenessEndpointName options),
     mo_GracefulShutdownTimeout := (case mo_GracefulShutdownTimeout options of
       None \<Rightarrow> Some defaultGracefulShutdownPeriod | Some t \<Rightarrow> Some t)\<rparr>"

text \<open>The address of the probes: nothing is listened to for an empty one and for 0; \<open>listen\<close> is the network.\<close>

definition defaultHealthProbeListener :: "(string \<Rightarrow> mErr option) \<Rightarrow> string \<Rightarrow> mErr + bool" where
  "defaultHealthProbeListener listen addr =
     (if addr = '''' \<or> addr = ''0'' then Inr False
      else case listen addr of Some err \<Rightarrow> Inl err | None \<Rightarrow> Inr True)"

text \<open>What \<open>New\<close> calls outside: the construction of the cluster, that of the recorder provider, and the network.\<close>

record newEnv =
  ne_cluster :: "mErr option"
  ne_recorder :: "mErr option"
  ne_listen :: "string \<Rightarrow> mErr option"

definition manager_New :: "newEnv \<Rightarrow> mgrOptions \<Rightarrow> mErr + 'c controllerManager" where
  "manager_New N options =
     (let options = setOptionsDefaults options in
      case ne_cluster N of
        Some err \<Rightarrow> Inl err
      | None \<Rightarrow>
          (case ne_recorder N of
             Some err \<Rightarrow> Inl err
           | None \<Rightarrow>
               (case defaultHealthProbeListener (ne_listen N) (mo_HealthProbeBindAddress options) of
                  Inl err \<Rightarrow> Inl err
                | Inr probes \<Rightarrow> Inr \<lparr>cm_started = False, cm_stopProcedureEngaged = False, cm_healthzHandler = None,
                    cm_readyzHandler = None, cm_runnables = (\<lambda>_. []), cm_stopped = (\<lambda>_. False),
                    cm_gracefulShutdownTimeout = the (mo_GracefulShutdownTimeout options), cm_probes = probes,
                    cm_readinessEndpointName = mo_ReadinessEndpointName options,
                    cm_livenessEndpointName = mo_LivenessEndpointName options, cm_electing = 0, cm_elected = False,
                    cm_crashed = False, cm_served = [], cm_waiting = 0\<rparr>)))"

section \<open>Adding\<close>

text \<open>\<open>SetFields\<close>: four injections, by the cluster and into the injectors of functions, of the stop channel and of the
  logger; the first error ends it.\<close>

definition mgr_SetFields :: "mErr option \<Rightarrow> mErr option \<Rightarrow> mErr option \<Rightarrow> mErr option \<Rightarrow> mErr option" where
  "mgr_SetFields clusterSetFields InjectorInto StopChannelInto LoggerInto =
     (case clusterSetFields of
        Some err \<Rightarrow> Some err
      | None \<Rightarrow> (case InjectorInto of
          Some err \<Rightarrow> Some err
        | None \<Rightarrow> (case StopChannelInto of
            Some err \<Rightarrow> Some err
          | None \<Rightarrow> LoggerInto)))"

text \<open>\<open>add\<close>: the dependencies are injected first; \<open>setErr\<close> is what that says.\<close>

definition cm_add :: "mErr option \<Rightarrow> Runnable \<Rightarrow> 'c controllerManager \<Rightarrow> mErr option \<times> 'c controllerManager" where
  "cm_add setErr r cm =
     (case setErr of
        Some err \<Rightarrow> (Some err, cm)
      | None \<Rightarrow>
          (let g = runnables_Add r in
           if cm_stopped cm g then (Some GroupStopped, cm)
           else (None, cm\<lparr>cm_runnables := (cm_runnables cm)(g := cm_runnables cm g @ [r])\<rparr>)))"

definition AddHealthzCheck :: "string \<Rightarrow> 'c \<Rightarrow> 'c controllerManager \<Rightarrow> mErr option \<times> 'c controllerManager" where
  "AddHealthzCheck name check cm =
     (if cm_started cm then (Some CheckerRefused, cm)
      else (let checks = (case cm_healthzHandler cm of None \<Rightarrow> [] | Some checks \<Rightarrow> checks)
            in (None, cm\<lparr>cm_healthzHandler := Some (gput name check checks)\<rparr>)))"

definition AddReadyzCheck :: "string \<Rightarrow> 'c \<Rightarrow> 'c controllerManager \<Rightarrow> mErr option \<times> 'c controllerManager" where
  "AddReadyzCheck name check cm =
     (if cm_started cm then (Some CheckerRefused, cm)
      else (let checks = (case cm_readyzHandler cm of None \<Rightarrow> [] | Some checks \<Rightarrow> checks)
            in (None, cm\<lparr>cm_readyzHandler := Some (gput name check checks)\<rparr>)))"

text \<open>The paths of the probe server, with the checks behind them.\<close>

definition serveHealthProbes :: "'c controllerManager \<Rightarrow> (string \<times> (string, 'c) gmap) list" where
  "serveHealthProbes cm =
     (case cm_readyzHandler cm of None \<Rightarrow> []
      | Some h \<Rightarrow> [(cm_readinessEndpointName cm, h), (cm_readinessEndpointName cm @ ''/'', h)]) @
     (case cm_healthzHandler cm of None \<Rightarrow> []
      | Some h \<Rightarrow> [(cm_livenessEndpointName cm, h), (cm_livenessEndpointName cm @ ''/'', h)])"

text \<open>\<open>httpServe\<close>: what the server and its shutdown send to the error channel.  A server that was closed, a shutdown whose
  context ended and every error after the stop procedure was engaged are kept to the log.\<close>

datatype httpErr = ErrServerClosed | ContextEnded | HttpErr mErr

definition serveReport :: "bool \<Rightarrow> httpErr option \<Rightarrow> httpErr option" where
  "serveReport engaged res =
     (case res of
        None \<Rightarrow> None
      | Some err \<Rightarrow> if err = ErrServerClosed then None else if engaged then None else Some err)"

definition shutdownReport :: "bool \<Rightarrow> httpErr option \<Rightarrow> httpErr option" where
  "shutdownReport engaged res =
     (case res of
        None \<Rightarrow> None
      | Some err \<Rightarrow> if err = ContextEnded then None else if engaged then None else Some err)"

section \<open>Start and stop\<close>

definition clusterRunnable :: Runnable where
  "clusterRunnable = \<lparr>rn_hasCache = True, rn_NeedLeaderElection = None\<rparr>"

definition engageStopProcedure :: "startEnv \<Rightarrow> 'c controllerManager \<Rightarrow> mErr option \<times> 'c controllerManager" where
  "engageStopProcedure E cm =
     (if cm_stopProcedureEngaged cm then (Some StopEngaged, cm)
      else (let cm = cm\<lparr>cm_stopProcedureEngaged := True, cm_stopped := (\<lambda>g. cm_stopped cm g \<or> se_StoppedGroups E g)\<rparr>
            in case se_Shutdown E of
                 Canceled \<Rightarrow> (None, cm)
               | DeadlineExceeded \<Rightarrow>
                   if cm_gracefulShutdownTimeout cm > 0 then (Some ShutdownTimeout, cm) else (None, cm)))"

text \<open>\<open>Start\<close> up to the point where it is ready; the error of a group is ignored when it is that of a timeout.\<close>

definition groupErr :: "mErr option \<Rightarrow> mErr option" where
  "groupErr err = (case err of None \<Rightarrow> None | Some e \<Rightarrow> (if e \<noteq> ErrWaitTimeout then Some e else None))"

definition startBody :: "startEnv \<Rightarrow> 'c controllerManager \<Rightarrow> mErr option \<times> 'c controllerManager" where
  "startBody E cm =
     (case cm_add (se_SetFields E) clusterRunnable cm of
        (Some err, cm) \<Rightarrow> (Some (AddClusterFailed err), cm)
      | (None, cm) \<Rightarrow>
          (let cm = (if cm_probes cm then cm\<lparr>cm_served := cm_served cm @ serveHealthProbes cm\<rparr> else cm) in
           case groupErr (se_Caches E) of
             Some err \<Rightarrow> (Some err, cm)
           | None \<Rightarrow>
               (case groupErr (se_Others E) of
                  Some err \<Rightarrow> (Some err, cm)
                | None \<Rightarrow> (None, cm\<lparr>cm_electing := Suc (cm_electing cm)\<rparr>))))"

text \<open>The goroutine a ready \<open>Start\<close> leaves behind has started the leader election group: it closes \<open>elected\<close>, a channel
  the manager has only one of.  Closing it a second time panics, and the process is gone.\<close>

definition closeElected :: "'c controllerManager \<Rightarrow> 'c controllerManager" where
  "closeElected cm =
     (if cm_electing cm = 0 then cm
      else if cm_elected cm then cm\<lparr>cm_crashed := True\<rparr>
      else cm\<lparr>cm_electing := cm_electing cm - 1, cm_elected := True\<rparr>)"

text \<open>The deferred stop procedure, when \<open>Start\<close> returns \<open>err\<close>.\<close>

definition startReturn :: "startEnv \<Rightarrow> mErr option \<Rightarrow> 'c controllerManager \<Rightarrow> mErr option \<times> 'c controllerManager" where
  "startReturn E err cm =
     (case engageStopProcedure E cm of (stopErr, cm) \<Rightarrow>
        (case stopErr of
           None \<Rightarrow> (err, cm)
         | Some se \<Rightarrow> (case err of Some e \<Rightarrow> (Some (NewAggregate [e, se]), cm) | None \<Rightarrow> (Some se, cm))))"

text \<open>What a call did: it returned, or it is a \<open>Start\<close> that is ready and waits without the mutex, or the process has
  crashed.\<close>

datatype opResult = Waits | Returned "mErr option" | Crashed

definition cm_Start :: "startEnv \<Rightarrow> 'c controllerManager \<Rightarrow> opResult \<times> 'c controllerManager" where
  "cm_Start E cm =
     (if cm_started cm then (Returned (Some AlreadyStarted), cm)
      else (case startBody E cm of
              (Some err, cm) \<Rightarrow> apfst Returned (startReturn E (Some err) cm)
            | (None, cm) \<Rightarrow> (Waits, cm\<lparr>cm_waiting := Suc (cm_waiting cm)\<rparr>)))"

text \<open>A waiting \<open>Start\<close> goes on: its context is done, or an error comes from the channel.\<close>

definition startResume :: "startEnv \<Rightarrow> 'c controllerManager \<Rightarrow> opResult \<times> 'c controllerManager" where
  "startResume E cm =
     (if cm_waiting cm = 0 then (Waits, cm)
      else apfst Returned (startReturn E (se_Wait E) (cm\<lparr>cm_waiting := cm_waiting cm - 1\<rparr>)))"

section \<open>Sequences of operations\<close>

datatype 'c mgrOp =
  OpAdd "mErr option" Runnable
| OpHealthz string 'c
| OpReadyz string 'c
| OpStart startEnv
| OpResume startEnv
| OpElected

text \<open>Nothing runs, and no call returns, once the process has crashed.\<close>

fun liveOp :: "'c mgrOp \<Rightarrow> 'c controllerManager \<Rightarrow> opResult \<times> 'c controllerManager" where
  "liveOp (OpAdd setErr r) cm = apfst Returned (cm_add setErr r cm)"
| "liveOp (OpHealthz name c) cm = apfst Returned (AddHealthzCheck name c cm)"
| "liveOp (OpReadyz name c) cm = apfst Returned (AddReadyzCheck name c cm)"
| "liveOp (OpStart E) cm = cm_Start E cm"
| "liveOp (OpResume E) cm = startResume E cm"
| "liveOp OpElected cm = (Waits, closeElected cm)"

definition runOp :: "'c mgrOp \<Rightarrow> 'c controllerManager \<Rightarrow> opResult \<times> 'c controllerManager" where
  "runOp oper cm = (if cm_crashed cm then (Crashed, cm) else liveOp oper cm)"

definition runOps :: "'c mgrOp list \<Rightarrow> 'c controllerManager \<Rightarrow> 'c controllerManager" where
  "runOps ops cm = fold (\<lambda>oper cm. snd (runOp oper cm)) ops cm"

end
