(* ===== verification/Startup.thy ===== *)
theory Startup
  imports Parser_Properties Internal_Controller Manager
begin

text \<open>
  The program (main.go): the manager is made, the configuration read, validated and parsed, its external
  resources looked up in the API server, the controller built and added, the checks added, the manager started.

  What it calls outside the repository is the record \<open>mainEnv\<close>: the configuration of the cluster, reading and decoding the
  file, the REST mapper, the order of ranges over maps, the injections, and the environment of
  the controller and of the manager.  A step that fails ends the process with status 1 (\<open>ExitAt\<close>); a panic, and a parser
  that does not return within the fuel, is \<open>None\<close>.
\<close>

record 'c mainEnv =
  mn_getConfig :: goerr
  mn_new :: newEnv
  mn_probeAddr :: string
  mn_namespace :: string
  mn_ReadFile :: "string + string"
  mn_Unmarshal :: "string \<Rightarrow> string + ControllerConfig"
  mn_k8s :: k8slib
  mn_orders :: "dagptr \<Rightarrow> orders"
  mn_fuel :: nat
  mn_RESTMapping :: "gvk \<Rightarrow> goerr"
  mn_toLower :: "string \<Rightarrow> string"
  mn_injectReconciler :: goerr
  mn_injectController :: "mErr option"
  mn_globalTimeout :: "int option"
  mn_environ :: environ
  mn_Ping :: 'c
  mn_start :: startEnv

datatype exitPoint =
  NoConfig
| NoManager
| NoFile
| NotYaml
| Invalid "Result list"
| NotParsed "Result list"
| NoResources "Result list"
| NoMapping gvk
| NotBuilt
| NoHealthCheck
| NoReadyCheck

text \<open>The process ends early, waits for ever for the lock of the controller, or has called \<open>Start\<close> of the manager.\<close>

datatype 'c mainResult =
  ExitAt exitPoint
| Hangs
| ManagerStart ControllerConfig cfgExecContext controller opResult "'c controllerManager"

text \<open>The first kind that the API server does not know; the range dereferences each pointer.\<close>

fun checkMappings :: "(gvk \<Rightarrow> goerr) \<Rightarrow> gvk option list \<Rightarrow> gvk option go" where
  "checkMappings RESTMapping [] = Some None"
| "checkMappings RESTMapping (g # gvks) = do {
     gvk \<leftarrow> g;
     (if RESTMapping gvk \<noteq> None then Some (Some gvk) else checkMappings RESTMapping gvks) }"

definition managerOptions :: "'c mainEnv \<Rightarrow> mgrOptions" where
  "managerOptions E = Options0\<lparr>mo_Namespace := mn_namespace E, mo_HealthProbeBindAddress := mn_probeAddr E\<rparr>"

definition controllerOptions :: ctrlOptions where
  "controllerOptions = \<lparr>op_MaxConcurrentReconciles = 8, op_CacheSyncTimeout = 0, op_RecoverPanic = False,
     op_hasReconciler = False\<rparr>"

text \<open>The controller has neither a cache nor an opinion on leader election.\<close>

definition controllerRunnable :: Runnable where
  "controllerRunnable = \<lparr>rn_hasCache = False, rn_NeedLeaderElection = None\<rparr>"

definition mainBuild :: "'c mainEnv \<Rightarrow> cfgExecContext \<Rightarrow> 'c controllerManager \<Rightarrow> (controller option \<times> goerr) outcome go" where
  "mainBuild E ceCtx cm =
     Build (mn_toLower E) (\<lambda>_. mn_injectReconciler E)
       (\<lambda>_. case fst (cm_add (mn_injectController E) controllerRunnable cm) of
              None \<Rightarrow> None | Some _ \<Rightarrow> Some ''cannot add the controller'')
       (mn_globalTimeout E) (mn_environ E) ceCtx controllerOptions True"

text \<open>The end of \<open>main\<close>: the controller has been added, the checks follow.\<close>

definition mainStart ::
  "'c mainEnv \<Rightarrow> ControllerConfig \<Rightarrow> cfgExecContext \<Rightarrow> controller \<Rightarrow> 'c controllerManager \<Rightarrow> 'c mainResult" where
  "mainStart E cfg ceCtx c cm =
     (case AddHealthzCheck ''healthz'' (mn_Ping E) cm of
        (Some err, cm) \<Rightarrow> ExitAt NoHealthCheck
      | (None, cm) \<Rightarrow>
          (case AddReadyzCheck ''readyz'' (mn_Ping E) cm of
             (Some err, cm) \<Rightarrow> ExitAt NoReadyCheck
           | (None, cm) \<Rightarrow> (case cm_Start (mn_start E) cm of (res, cm) \<Rightarrow> ManagerStart cfg ceCtx c res cm)))"

definition mainConfigured :: "'c mainEnv \<Rightarrow> ControllerConfig \<Rightarrow> 'c controllerManager \<Rightarrow> 'c mainResult go" where
  "mainConfigured E cfg cm = do {
     (_, result) \<leftarrow> NewParser (mn_k8s E) cfg;
     (if result \<noteq> [] then Some (ExitAt (Invalid result))
      else do {
        (ceCtx, result) \<leftarrow> Parse (mn_k8s E) (mn_orders E) (mn_fuel E) cfg;
        (if result \<noteq> [] then Some (ExitAt (NotParsed result))
         else do {
           ceCtx \<leftarrow> ceCtx;
           (gvks, result) \<leftarrow> GetExternalResources (mn_k8s E) cfg;
           (if result \<noteq> [] then Some (ExitAt (NoResources result))
            else do {
              unknown \<leftarrow> checkMappings (mn_RESTMapping E) gvks;
              (case unknown of
                 Some gvk \<Rightarrow> Some (ExitAt (NoMapping gvk))
               | None \<Rightarrow> do {
                   built \<leftarrow> mainBuild E ceCtx cm;
                   (case built of
                      Blocked \<Rightarrow> Some Hangs
                    | Done (_, Some err) \<Rightarrow> Some (ExitAt NotBuilt)
                    | Done (c, None) \<Rightarrow> do {
                        c \<leftarrow> c;
                        Some (mainStart E cfg ceCtx c
                          (snd (cm_add (mn_injectController E) controllerRunnable cm))) }) }) }) }) }) }"

definition main :: "'c mainEnv \<Rightarrow> 'c mainResult go" where
  "main E =
     (if mn_getConfig E \<noteq> None then Some (ExitAt NoConfig)
      else case manager_New (mn_new E) (managerOptions E) of
        Inl err \<Rightarrow> Some (ExitAt NoManager)
      | Inr cm \<Rightarrow>
          (case mn_ReadFile E of
             Inl err \<Rightarrow> Some (ExitAt NoFile)
           | Inr fb \<Rightarrow>
               (case mn_Unmarshal E fb of
                  Inl err \<Rightarrow> Some (ExitAt NotYaml)
                | Inr cfg \<Rightarrow> mainConfigured E cfg cm)))"

text \<open>The status of the process: an error of the started manager is only logged, the exit after it is a comment.\<close>

fun exitStatus :: "'c mainResult \<Rightarrow> int option" where
  "exitStatus (ExitAt p) = Some 1"
| "exitStatus Hangs = None"
| "exitStatus (ManagerStart cfg ceCtx c Waits cm) = None"
| "exitStatus (ManagerStart cfg ceCtx c (Returned err) cm) = Some 0"

end
