(* ===== verification/Function_Properties.thy ===== *)
theory Function_Properties
  imports Exec_Handler
begin

text \<open>
  What a function computes.  The locale \<open>fn_object\<close> is the contract between \<open>exec\<close> and a function
  object: run, record and initialise act on the object through the data they collect.  Inside it
  the loop over a range is the pure function \<open>rangeResults\<close>; jq, slice, map, query and gotemplate
  interpret it.
\<close>

section \<open>The contract of a function object\<close>

text \<open>The input of one item, and the results of the items one after the other.\<close>

definition itemInput :: "nat \<Rightarrow> any \<Rightarrow> input \<Rightarrow> input" where
  "itemInput n val i =
     input_AddEntry ''INDEX'' (ANum (int n)) (input_AddEntry ''KEY'' (AStr (Sprint n)) (input_AddEntry ''VALUE'' val i))"

fun rangeResults :: "extlib \<Rightarrow> Function \<Rightarrow> (input \<Rightarrow> fnerr + 'r) \<Rightarrow> nat \<Rightarrow> any list \<Rightarrow> input \<Rightarrow>
    fnerr option \<times> 'r list \<times> input" where
  "rangeResults L f run n [] i = (None, [], i)"
| "rangeResults L f run n (val # items) i =
     (if val = ANil then rangeResults L f run (n + 1) items i
      else case resolveLocalVars L f (itemInput n val i) of
        (Some err, i) \<Rightarrow> (Some err, [], i)
      | (None, i) \<Rightarrow>
          (case run i of
             Inl err \<Rightarrow> (Some err, [], i)
           | Inr x \<Rightarrow> (case rangeResults L f run (n + 1) items i of (err, xs, i) \<Rightarrow> (err, x # xs, i))))"

locale fn_object =
  fixes cfg :: "('s, 'r) fnExecConfig"
    and run :: "'s \<Rightarrow> input \<Rightarrow> fnerr + 'r"
    and init :: "nat \<Rightarrow> 's \<Rightarrow> 's"
    and rcd :: "'r \<Rightarrow> 's \<Rightarrow> 's"
    and data :: "'s \<Rightarrow> 'd"
    and start :: "'d \<Rightarrow> 'd"
    and put :: "'r \<Rightarrow> 'd \<Rightarrow> 'd"
    and outs :: "'s \<Rightarrow> out_store"
    and wrap :: "'d \<Rightarrow> any"
  assumes filter_cfg: "filterInputFn cfg = Some (\<lambda>s i. i)"
    and run_cfg: "runFn cfg = Some (\<lambda>i s. Some (run s i, s))"
    and init_cfg: "initOutputFn cfg = Some init"
    and rcd_cfg: "recordOutputFn cfg = Some rcd"
    and final_cfg: "getFinalResultFn cfg s = finalEntries (wrap (data s)) (output_Get (outs s)) output_New"
    and data_init: "data (init n s) = start (data s)"
    and data_rcd: "data (rcd x s) = put x (data s)"
    and run_init: "run (init n s) = run s" and run_rcd: "run (rcd x s) = run s"
    and outs_init: "outs (init n s) = outs s" and outs_rcd: "outs (rcd x s) = outs s"
begin

lemma runOnce_eq:
  "runOnce cfg i s = Some (case run s i of Inl err \<Rightarrow> (Some err, s) | Inr x \<Rightarrow> (None, rcd x s))"
  by (simp add: runOnce_def filter_cfg run_cfg rcd_cfg split: sum.splits)

lemma rcd_all: "run (fold rcd xs s) = run s" "outs (fold rcd xs s) = outs s"
  "data (fold rcd xs s) = fold put xs (data s)"
  by (induction xs arbitrary: s) (simp_all add: run_rcd outs_rcd data_rcd)

lemma execItems_eq:
  "executeRange cfg \<Longrightarrow> execItems L cfg f n items i s =
     (case rangeResults L f (run s) n items i of (err, xs, i') \<Rightarrow> Some (err, i', fold rcd xs s))"
proof (induction items arbitrary: n i s)
  case (Cons val items)
  show ?case
    using Cons.prems
    by (auto simp: Let_def runOnce_eq Cons.IH run_rcd itemInput_def [symmetric] split: option.splits sum.splits prod.splits)
qed simp

text \<open>Without a single execution, the result of a range is what its items gave.\<close>

lemma exec_range:
  assumes "executeRange cfg" and "\<not> executeSingle cfg" and "blockItems L f i = Inr (Some (v # vs))"
    and "rangeResults L f (run s) 0 (v # vs) i = (None, xs, i')"
  shows "\<exists>s'. exec L cfg f i s =
    Some (finalEntries (wrap (fold put xs (start (data s)))) (output_Get (outs s)) output_New, i', s')"
  using assms
  by (auto simp: exec_def init_cfg execItems_eq run_init execSingle_def final_cfg rcd_all data_init outs_init
      simp del: rangeResults.simps execItems.simps)

text \<open>With a single execution after the range, only that one counts when the data start anew.\<close>

lemma exec_range_single:
  assumes "executeRange cfg" and "executeSingle cfg" and "blockItems L f i = Inr (Some (v # vs))"
    and "rangeResults L f (run s) 0 (v # vs) i = (None, xs, i')"
    and "resolveLocalVars L f i' = (None, i'')" and "run s i'' = Inr x"
    and "\<And>d d'. start d = start d'"
  shows "\<exists>s'. exec L cfg f i s =
    Some (finalEntries (wrap (put x (start (data s)))) (output_Get (outs s)) output_New, i'', s')"
  using assms(1-6) assms(7) [of "fold put xs (start (data s))" "data s"]
  by (auto simp: exec_def init_cfg execItems_eq run_init run_rcd rcd_all execSingle_def runOnce_eq final_cfg
      data_rcd data_init outs_rcd outs_init simp del: rangeResults.simps execItems.simps)

lemma exec_single:
  assumes "executeSingle cfg" and "blockItems L f i = Inr None" and "resolveLocalVars L f i = (None, i')"
  shows "exec L cfg f i s = Some (case run s i' of
      Inl err \<Rightarrow> ((None, Some err), i', init 1 s)
    | Inr x \<Rightarrow> (finalEntries (wrap (put x (start (data s)))) (output_Get (outs s)) output_New, i',
        rcd x (init 1 s)))"
  using assms
  by (simp add: exec_def init_cfg run_init execSingle_def runOnce_eq final_cfg data_rcd data_init outs_rcd
      outs_init split: sum.splits)

lemma exec_no_range:
  assumes "\<not> executeSingle cfg" and "blockItems L f i = Inr None"
  shows "exec L cfg f i s = Some (finalEntries (wrap (data s)) (output_Get (outs s)) output_New, i, s)"
  using assms by (simp add: exec_def execSingle_def final_cfg)

end

text \<open>The function objects of the code.\<close>

definition jq_value :: "extlib \<Rightarrow> jqFn \<Rightarrow> input \<Rightarrow> fnerr + any" where
  "jq_value L r i = liftErr (runJQ L (jq_expression r) i)"

definition slice_value_of :: "extlib \<Rightarrow> sliceFn \<Rightarrow> input \<Rightarrow> fnerr + any" where
  "slice_value_of L r i = fst (the (slice_run L i r))"

definition map_value_of :: "extlib \<Rightarrow> mapFn \<Rightarrow> input \<Rightarrow> fnerr + string \<times> any" where
  "map_value_of L r i = fst (the (map_run L i r))"

definition gt_value_of :: "extlib \<Rightarrow> gtFn \<Rightarrow> input \<Rightarrow> fnerr + any" where
  "gt_value_of L r i = fst (the (gt_run L i r))"

interpretation jqs: fn_object "NewJQFn L" "jq_value L" "\<lambda>_ r. r" "\<lambda>x r. r\<lparr>jq_output := x\<rparr>" jq_output
    "\<lambda>d. d" "\<lambda>x _. x" jq_outputs "\<lambda>d. d"
  for L
  by unfold_locales
    (simp_all add: NewJQFn_def jq_run_def jq_value_def jq_getFinalResult_def fun_eq_iff)

interpretation slices: fn_object "NewSliceFn L" "slice_value_of L" slice_initOutput slice_recordOutput
    slice_output "\<lambda>_. []" "\<lambda>x d. d @ [x]" slice_outputs ASlice
  for L
  by unfold_locales
    (simp_all add: NewSliceFn_def slice_run_def slice_value_of_def slice_getFinalResult_def
      slice_initOutput_def slice_recordOutput_def fun_eq_iff)

interpretation maps: fn_object "NewMapFn L" "map_value_of L" map_initOutput map_recordOutput
    map_output "\<lambda>_. []" "\<lambda>out. gput (fst out) (snd out)" map_outputs AMap
  for L
  by unfold_locales
    (simp_all add: NewMapFn_def map_run_def map_value_of_def map_getFinalResult_def
      map_initOutput_def map_recordOutput_def fun_eq_iff cong: sum.case_cong)

interpretation gts: fn_object "NewGTFn L" "gt_value_of L" gt_initOutput gt_recordOutput
    gt_output "\<lambda>_. []" "\<lambda>x d. d @ [x]" gt_outputs ASlice
  for L
  by unfold_locales
    (simp_all add: NewGTFn_def gt_run_def gt_value_of_def gt_getFinalResult_def
      gt_initOutput_def gt_recordOutput_def fun_eq_iff)

definition query_value :: "extlib \<Rightarrow> queryFn \<Rightarrow> input \<Rightarrow> fnerr + any" where
  "query_value L r i = fst (the (query_run L i r))"

lemma query_run_total: "query_run L i r = Some (query_value L r i, r)"
  using GetGVK_result [of "k8s L" "query_resource r"]
  by (auto simp: query_value_def query_run_def split: sum.splits)

lemma query_value_cong: "query_resource r = query_resource s \<Longrightarrow> query_value L r = query_value L s"
  using GetGVK_result [of "k8s L" "query_resource s"]
  by (auto simp: query_value_def query_run_def fun_eq_iff split: sum.splits)

interpretation queries: fn_object "NewQueryFn L" "query_value L" "\<lambda>_ r. r" "\<lambda>x r. r\<lparr>query_output := x\<rparr>"
    query_output "\<lambda>d. d" "\<lambda>x _. x" query_outputs "\<lambda>d. d"
  for L
  by unfold_locales
    (auto simp: NewQueryFn_def query_run_total query_getFinalResult_def
      intro!: ext query_value_cong [THEN fun_cong])

section \<open>What a run leaves\<close>

text \<open>An invariant of a function object that every callback keeps holds where the result is made.\<close>

definition keeps :: "('s \<Rightarrow> bool) \<Rightarrow> ('s, 'r) fnExecConfig \<Rightarrow> bool" where
  "keeps I r \<longleftrightarrow>
     (\<forall>f n s. initOutputFn r = Some f \<longrightarrow> I s \<longrightarrow> I (f n s)) \<and>
     (\<forall>f i s x t. runFn r = Some f \<longrightarrow> I s \<longrightarrow> f i s = Some (x, t) \<longrightarrow> I t) \<and>
     (\<forall>f x s. recordOutputFn r = Some f \<longrightarrow> I s \<longrightarrow> I (f x s))"

lemma runOnce_keeps: "keeps I r \<Longrightarrow> I s \<Longrightarrow> runOnce r i s = Some (err, t) \<Longrightarrow> I t"
  unfolding keeps_def
  by (auto simp: runOnce_def split: Option.bind_splits sum.splits prod.splits)

lemma execItems_keeps:
  "keeps I r \<Longrightarrow> I s \<Longrightarrow> execItems L r f n items i s = Some (err, i', t) \<Longrightarrow> I t"
  by (induction L r f n items i s rule: execItems.induct)
    (auto simp: Let_def split: if_splits prod.splits option.splits dest: runOnce_keeps)

lemma execSingle_keeps:
  assumes "keeps I r" and "I s" and "execSingle L r f i s = Some ((out, err), i', t)"
  shows "out = None \<or> (\<exists>u. I u \<and> getFinalResultFn r u = (out, err))"
proof -
  have init: "I (g n s)" if "initOutputFn r = Some g" for g n
    using assms(1,2) that by (simp add: keeps_def)
  show ?thesis
    using assms(2,3) init runOnce_keeps [OF assms(1)]
    by (auto simp: execSingle_def Let_def split: if_splits Option.bind_splits prod.splits option.splits) fastforce+
qed

lemma exec_keeps:
  assumes "keeps I r" and "I s" and "exec L r f i s = Some ((out, err), i', t)"
  shows "out = None \<or> out = Some output_New \<or> (\<exists>u. I u \<and> getFinalResultFn r u = (out, err))"
proof (cases "blockItems L f i")
  case (Inl e)
  then show ?thesis using assms(3)
    by (auto simp: exec_def blockItems_def split: if_splits option.splits sum.splits bool.splits)
next
  case (Inr items)
  show ?thesis
  proof (cases items)
    case None
    have "execSingle L r f i s = Some ((out, err), i', t)" using Inr None assms(3) by (simp add: exec_def)
    then show ?thesis using execSingle_keeps [OF assms(1,2)] by blast
  next
    case (Some vs)
    then obtain g where g: "initOutputFn r = Some g"
      using Inr assms(3) by (cases vs) (auto simp: exec_def split: Option.bind_splits)
    have I: "I (g n s)" for n using assms(1,2) g by (simp add: keeps_def)
    show ?thesis
    proof (cases vs)
      case Nil
      then show ?thesis using Inr Some assms(3) g by (auto simp: exec_def)
    next
      case (Cons v rest)
      have ex: "(case execItems L r f 0 vs i (g (length vs) s) of None \<Rightarrow> None
          | Some (Some err, i, s) \<Rightarrow> Some ((None, Some err), i, s)
          | Some (None, i, s) \<Rightarrow> execSingle L r f i s) = Some ((out, err), i', t)"
        using Inr Some Cons assms(3) g by (simp add: exec_def del: execItems.simps)
      then obtain e j u where items: "execItems L r f 0 vs i (g (length vs) s) = Some (e, j, u)"
        by (auto split: option.splits)
      have "I u" by (rule execItems_keeps [OF assms(1) I items])
      show ?thesis
      proof (cases e)
        case None
        then have "execSingle L r f j u = Some ((out, err), i', t)" using ex items by simp
        then show ?thesis using execSingle_keeps [OF assms(1) \<open>I u\<close>] by blast
      qed (use ex items in auto)
    qed
  qed
qed

text \<open>No entry of a store is marked as conditioned.\<close>

definition unconditioned :: "out_store \<Rightarrow> bool" where
  "unconditioned out \<longleftrightarrow> (\<forall>(k, v)\<in>set (output_Get out). \<exists>b g x. v = AOutputInfo (OutputInfo b False g x))"

lemma unconditioned_New [simp]: "unconditioned output_New"
  by (simp add: unconditioned_def outs.get_new)

lemma set_gput: "set (gput k v m) \<subseteq> insert (k, v) (set m)"
  by (induction m) auto

lemma unconditioned_AddEntry:
  assumes "unconditioned out"
  shows "unconditioned (output_AddEntry k (AOutputInfo (OutputInfo b False g x)) out)"
  unfolding unconditioned_def outs.get_addEntry
proof
  fix e
  assume "e \<in> set (gput k (AOutputInfo (OutputInfo b False g x)) (output_Get out))"
  then have "e = (k, AOutputInfo (OutputInfo b False g x)) \<or> e \<in> set (output_Get out)"
    using set_gput by fast
  then show "case e of (k, v) \<Rightarrow> \<exists>b g x. v = AOutputInfo (OutputInfo b False g x)"
    using assms by (auto simp: unconditioned_def)
qed

lemma finalEntries_unconditioned:
  "finalEntries data vs out = (Some out', err) \<Longrightarrow> unconditioned out \<Longrightarrow> unconditioned out'"
  by (induction vs arbitrary: out) (auto simp: unconditioned_AddEntry split: option.splits)

lemma recordEntries_unconditioned: "unconditioned (img_output r) \<Longrightarrow> unconditioned (img_output (recordEntries L rc r))"
proof (induction L rc r rule: recordEntries.induct)
  case (2 L gvkString krmslice rest r)
  then show ?case
    by (auto simp: unconditioned_AddEntry split: option.splits prod.splits)
qed simp

lemma image_keeps: "keeps (\<lambda>r. unconditioned (img_output r)) (NewImageFn L)"
  by (auto simp: keeps_def NewImageFn_def image_initOutput_def image_run_def recordEntries_unconditioned
      split: sum.splits)

lemma keeps_True: "keeps (\<lambda>_. True) r"
  by (simp add: keeps_def)

lemma withWorld_Some: "withWorld w x = Some (oe, i, w') \<longleftrightarrow> w' = w \<and> (\<exists>s. x = Some (oe, i, s))"
  by (auto simp: withWorld_def split: option.splits)

lemma exec_unconditioned:
  assumes "exec L cfg f i s = Some ((Some out, err), i', t)" and "keeps I cfg" and "I s"
    and "\<And>u err. I u \<Longrightarrow> getFinalResultFn cfg u = (Some out, err) \<Longrightarrow> unconditioned out"
  shows "unconditioned out"
  using exec_keeps [OF assms(2,3,1)] assms(4) by auto

context fn_object
begin

lemma exec_out: "exec L cfg f i s = Some ((Some out, err), i', t) \<Longrightarrow> unconditioned out"
  by (erule exec_unconditioned [OF _ keeps_True TrueI])
    (auto simp: final_cfg intro: finalEntries_unconditioned)

end

lemma image_out: "image_Run L rn vc i w = Some ((Some out, err), i', w') \<Longrightarrow> unconditioned out"
  by (auto simp: image_Run_def withWorld_Some elim!: exec_unconditioned [OF _ image_keeps])
    (auto simp: NewImageFn_def image_getFinalResult_def split: if_splits)

lemma root_out: "exec L NewRootFn f i s = Some ((Some out, err), i', t) \<Longrightarrow> unconditioned out"
  by (erule exec_unconditioned [OF _ keeps_True TrueI]) (simp_all add: NewRootFn_def root_getFinalResult_def)

lemma block_out: "exec L (NewBlockFn B) f i s = Some ((Some out, err), i', t) \<Longrightarrow> unconditioned out"
  by (erule exec_unconditioned [OF _ keeps_True TrueI]) (simp_all add: NewBlockFn_def block_getFinalResult_def)

lemmas function_out = image_out root_out block_out jqs.exec_out slices.exec_out maps.exec_out
  queries.exec_out gts.exec_out

lemmas function_Run_defs = jq_Run_def slice_Run_def map_Run_def query_Run_def gt_Run_def root_Run_def
  block_Run_def

lemmas fnmap_defs = fnmap_Run_def functions_Init_def Register_def fnmap_New_def

lemma fnmap_Run_unconditioned:
  assumes "fnmap_Run (functions_Init L B root) vc i w = Some ((Some out, err), i', w')"
  shows "unconditioned out"
  using assms
  by (auto simp: fnmap_defs function_Run_defs withWorld_Some split: if_splits Option.bind_splits
      dest: function_out)

end
