(* ===== verification/Function_Theorems.thy ===== *)
theory Function_Theorems
  imports Function_Properties
begin

text \<open>
  The properties of the functions and of the handler: what a range computes, what is lost on the
  way, and what the handler reports to the executor.
\<close>

section \<open>Inputs of a range\<close>

lemma gput_twice: "gput k v (gput k u m) = gput k v m"
  by (induction m) auto

lemma gput_swap: "k \<in> set (gkeys m) \<Longrightarrow> k \<noteq> k' \<Longrightarrow> gput k v (gput k' u m) = gput k' u (gput k v m)"
  by (induction m) auto

lemma gput_three:
  assumes "a \<noteq> b" "a \<noteq> c" "b \<noteq> c"
  shows "gput c z' (gput b y' (gput a x' (gput c z (gput b y (gput a x m))))) =
    gput c z' (gput b y' (gput a x' m))"
proof -
  have key: "k \<in> set (gkeys (gput k v n))" for k v n using set_gkeys_gput [of k v n] by blast
  have key': "k \<in> set (gkeys n) \<Longrightarrow> k \<in> set (gkeys (gput k' v n))" for k k' v n
    using set_gkeys_gput [of k' v n] by blast
  have "gput a x' (gput c z (gput b y (gput a x m))) = gput c z (gput b y (gput a x' m))"
    using gput_swap [OF key' [OF key], of a c x' z b y x m] gput_swap [OF key, of a b x' y x m] assms
    by (simp only: gput_twice not_False_eq_True simp_thms)
  moreover have "gput b y' (gput c z (gput b y n)) = gput c z (gput b y' n)" for n
    using gput_swap [OF key, of b c y' z y n] assms by (simp only: gput_twice not_False_eq_True simp_thms)
  ultimately show ?thesis by (simp only: gput_twice not_False_eq_True simp_thms)
qed

lemma input_eqI: "input_Get i = input_Get j \<Longrightarrow> i = (j :: input)"
  by (cases i; cases j) (auto simp: input_Get_def kv_Get_d intro: kv.equality)

lemma itemInput_twice: "itemInput n v (itemInput m u i) = itemInput n v i"
  by (rule input_eqI) (simp add: itemInput_def ins.get_addEntry gput_three)

lemma rangeResults_map:
  assumes "fn_Vars f = []" and "ANil \<notin> set items"
    and "\<And>k. k < length items \<Longrightarrow> run (itemInput (n + k) (items ! k) i) = Inr (r (n + k))"
    and "\<And>m v. itemInput m v j = itemInput m v i"
  shows "rangeResults L f run n items j =
    (None, map r [n..<n + length items],
     if items = [] then j else itemInput (n + length items - 1) (last items) i)"
  using assms
proof (induction items arbitrary: n j)
  case (Cons val items)
  have one: "run (itemInput n val i) = Inr (r n)" using Cons.prems(3) [of 0] by simp
  have rest: "run (itemInput (Suc n + k) (items ! k) i) = Inr (r (Suc n + k))" if "k < length items" for k
    using Cons.prems(3) [of "Suc k"] that by simp
  have IH: "rangeResults L f run (Suc n) items (itemInput n val i) =
      (None, map r [Suc n..<Suc n + length items],
       if items = [] then itemInput n val i else itemInput (Suc n + length items - 1) (last items) i)"
    by (rule Cons.IH) (use Cons.prems(1,2) rest itemInput_twice in auto)
  have "[n..<n + length (val # items)] = n # [Suc n..<Suc n + length items]"
    by (simp add: upt_rec)
  then show ?case using Cons.prems(1,2,4) one IH
    by (auto simp: resolveLocalVars_def)
qed simp

lemma rangeResults_map0:
  assumes "fn_Vars f = []" and "items \<noteq> []" and "ANil \<notin> set items"
    and "\<And>k. k < length items \<Longrightarrow> run (itemInput k (items ! k) i) = Inr (r k)"
  shows "rangeResults L f run 0 items i =
    (None, map r [0..<length items], itemInput (length items - 1) (last items) i)"
  using rangeResults_map [of f items run 0 i r i L] assms by simp

section \<open>A library to compute with\<close>

text \<open>A query is the name of a variable, the elements of \<open>$xs\<close>, or false.\<close>

definition sampleGojq :: "string \<Rightarrow> string list \<Rightarrow> string + (any list \<Rightarrow> (string + any) list)" where
  "sampleGojq exp names =
     (if exp = ''$xs[]'' then Inr (\<lambda>vs. case map_of (zip names vs) ''$xs'' of
        Some (ASlice l) \<Rightarrow> map Inr l | _ \<Rightarrow> [Inl ''cannot iterate over: null''])
      else if exp = ''false'' then Inr (\<lambda>vs. [Inr (ABool False)])
      else if exp \<in> set names then Inr (\<lambda>vs. [Inr (the (map_of (zip names vs) exp))])
      else Inl ''variable not defined'')"

definition sampleLib :: extlib where
  "sampleLib = \<lparr>k8s = \<lparr>unmarshalTypeMeta = (\<lambda>_. Inr (''v1'', ''Pod'')), ParseGroupVersion = (\<lambda>s. Inr ('''', s))\<rparr>,
     gojq = sampleGojq,
     executeTemplate = (\<lambda>t i. case gget i t of None \<Rightarrow> Inl ''no value'' | Some v \<Rightarrow> Inr v),
     clientList = (\<lambda>_. Inr []), addResource = (\<lambda>_ ctx. Inr ctx),
     newRunner = (\<lambda>_. Inr Inr), unmarshalObject = (\<lambda>_. Inr (False, \<lparr>gvk_Group = '''', gvk_Version = '''', gvk_Kind = ''''\<rparr>)),
     unmarshalMap = (\<lambda>r. Inr (AStr r)), serviceClient = (\<lambda>_. None),
     varOrder = (\<lambda>_ _. []), inputOrder = (\<lambda>_. [])\<rparr>"

definition overXs :: Block where
  "overXs = Block (Some (RangeValue ''$xs[]'' Block0)) None"

definition fnOf :: "FunctionType \<Rightarrow> Block \<Rightarrow> Input \<Rightarrow> Function" where
  "fnOf t b fi = Function0\<lparr>fn_Type := t, fn_Block := b, fn_Input := Some fi\<rparr>"

definition outputOf :: "string \<Rightarrow> out_store" where
  "outputOf k = output_AddEntry k (AOutputInfo (OutputInfo False True None ANil)) output_New"

definition vertexOf :: "Function \<Rightarrow> VertexContext" where
  "vertexOf f = \<lparr>vc_VertexName = ''v'', vc_Kind = FunctionVertexKind, vc_BlockDAG = None, vc_Function = f,
     vc_References = [''xs''], vc_Outputs = outputOf ''out'', vc_GVKToVarName = []\<rparr>"

definition xsInput :: input where
  "xsInput = input_AddEntry ''xs'' (ASlice [ANum 5, ANum 7]) input_New"

definition world0 :: world where
  "world0 = \<lparr>curOutputs = output_New, curResults = slice_New\<rparr>"

lemma items_xs: "blockItems sampleLib (fnOf t overXs fi) xsInput = Inr (Some [ANum 5, ANum 7])"
  by (simp add: blockItems_def HasBlock_def fnOf_def overXs_def runRange_def sampleLib_def sampleGojq_def
      varNames_def varValues_def xsInput_def ins.get_addEntry ins.get_new)

section \<open>Ranges\<close>

text \<open>C31: a slice over a range with at least one item, none of them nil, without local variables, whose expression has
  a value for every item: its output holds, for each variable of the vertex, the list of these values in order, each
  computed with VALUE, KEY and INDEX set to the item and its position.\<close>

theorem slice_maps_range:
  assumes "fn_Input (vc_Function vc) = Some fi" and "fn_Vars (vc_Function vc) = []"
    and "blockItems L (vc_Function vc) i = Inr (Some items)" and "items \<noteq> []" and "ANil \<notin> set items"
    and "obj = \<lparr>slice_outputs = vc_Outputs vc, slice_value = in_Value fi, slice_output = []\<rparr>"
    and "\<And>k. k < length items \<Longrightarrow> slice_run L (itemInput k (items ! k) i) obj = Some (Inr (r k), obj)"
  shows "slice_Run L vc i w = Some (finalEntries (ASlice (map r [0..<length items]))
      (output_Get (vc_Outputs vc)) output_New, itemInput (length items - 1) (last items) i, w)"
proof -
  have res: "rangeResults L (vc_Function vc) (slice_value_of L obj) 0 items i =
      (None, map r [0..<length items], itemInput (length items - 1) (last items) i)"
    by (rule rangeResults_map0 [OF assms(2,4,5)]) (simp add: slice_value_of_def assms(7))
  obtain v vs where items: "items = v # vs" using assms(4) by (cases items) auto
  have put: "fold (\<lambda>x d. d @ [x]) xs d = d @ xs" for xs d :: "any list"
    by (induction xs arbitrary: d) auto
  have "\<exists>s'. exec L (NewSliceFn L) (vc_Function vc) i obj = Some (finalEntries
      (ASlice (map r [0..<length items])) (output_Get (slice_outputs obj)) output_New,
      itemInput (length items - 1) (last items) i, s')"
    using slices.exec_range [OF _ _ assms(3) [unfolded items] res [unfolded items]]
    by (simp add: NewSliceFn_def put items)
  then show ?thesis using assms(1,6) by (auto simp: slice_Run_def withWorld_Some)
qed

lemma numerals_below: "k < 2 \<Longrightarrow> k = 0 \<or> k = (1 :: nat)"
  by arith

theorem slice_maps_range_witness:
  "slice_Run sampleLib (vertexOf (fnOf SliceType overXs (Input0\<lparr>in_Value := ''$VALUE''\<rparr>))) xsInput world0 =
    Some (finalEntries (ASlice (map (\<lambda>k. [ANum 5, ANum 7] ! k) [0..<length [ANum 5, ANum 7]]))
      (output_Get (outputOf ''out'')) output_New,
      itemInput (length [ANum 5, ANum 7] - 1) (last [ANum 5, ANum 7]) xsInput, world0)"
proof -
  let ?vc = "vertexOf (fnOf SliceType overXs (Input0\<lparr>in_Value := ''$VALUE''\<rparr>))"
  let ?obj = "\<lparr>slice_outputs = vc_Outputs ?vc, slice_value = ''$VALUE'', slice_output = []\<rparr>"
  have "slice_run sampleLib (itemInput k ([ANum 5, ANum 7] ! k) xsInput) ?obj = Some (Inr ([ANum 5, ANum 7] ! k), ?obj)"
    if "k < length [ANum 5, ANum 7]" for k
    using that by (auto simp: slice_run_def sampleLib_def sampleGojq_def varNames_def varValues_def itemInput_def
      xsInput_def ins.get_addEntry ins.get_new liftErr_def dest!: numerals_below)
  from slice_maps_range [where obj = ?obj and vc = ?vc and items = "[ANum 5, ANum 7]", OF _ _ _ _ _ _ this]
  show ?thesis by (simp add: items_xs vertexOf_def Input0_def) (simp add: fnOf_def Function0_def)
qed

text \<open>A gotemplate over a range runs the template once for every item and once more, and keeps only
  the last result: the single execution that follows the range starts the output anew, with VALUE,
  KEY and INDEX still set to the last item.\<close>

lemma gotemplate_range_keeps_last:
  assumes "fn_Input (vc_Function vc) = Some fi" and "fn_Vars (vc_Function vc) = []"
    and "blockItems L (vc_Function vc) i = Inr (Some items)" and "items \<noteq> []" and "ANil \<notin> set items"
    and "obj = \<lparr>gt_outputs = vc_Outputs vc, gt_template =
      (if in_Resource fi \<noteq> '''' then in_Resource fi else in_Template fi), gt_output = []\<rparr>"
    and "\<And>k. k < length items \<Longrightarrow> gt_run L (itemInput k (items ! k) i) obj = Some (Inr (r k), obj)"
  shows "gt_Run L vc i w = Some (finalEntries (ASlice [r (length items - 1)])
      (output_Get (vc_Outputs vc)) output_New, itemInput (length items - 1) (last items) i, w)"
proof -
  let ?last = "itemInput (length items - 1) (last items) i"
  have res: "rangeResults L (vc_Function vc) (gt_value_of L obj) 0 items i =
      (None, map r [0..<length items], ?last)"
    by (rule rangeResults_map0 [OF assms(2,4,5)]) (simp add: gt_value_of_def assms(7))
  have last: "gt_value_of L obj ?last = Inr (r (length items - 1))"
    using assms(7) [of "length items - 1"] assms(4) by (simp add: gt_value_of_def last_conv_nth)
  have vars: "resolveLocalVars L (vc_Function vc) ?last = (None, ?last)"
    using assms(2) by (simp add: resolveLocalVars_def)
  obtain v vs where items: "items = v # vs" using assms(4) by (cases items) auto
  have res': "rangeResults L (vc_Function vc) (gt_value_of L obj) 0 (v # vs) i =
      (None, map r [0..<length items], ?last)"
    using res by (simp add: items del: rangeResults.simps)
  have "\<exists>s'. exec L (NewGTFn L) (vc_Function vc) i obj = Some (finalEntries
      (ASlice ([] @ [r (length items - 1)])) (output_Get (gt_outputs obj)) output_New, ?last, s')"
    by (rule gts.exec_range_single [OF _ _ _ res' vars last]) (simp_all add: NewGTFn_def assms(3) items)
  then show ?thesis using assms(1,6) by (auto simp: gt_Run_def withWorld_Some)
qed

theorem gotemplate_range_keeps_last_witness:
  "gt_Run sampleLib (vertexOf (fnOf GoTemplateType overXs (Input0\<lparr>in_Template := ''VALUE''\<rparr>))) xsInput world0 =
    Some (finalEntries (ASlice [[ANum 5, ANum 7] ! (length [ANum 5, ANum 7] - 1)])
      (output_Get (outputOf ''out'')) output_New,
      itemInput (length [ANum 5, ANum 7] - 1) (last [ANum 5, ANum 7]) xsInput, world0)"
proof -
  let ?vc = "vertexOf (fnOf GoTemplateType overXs (Input0\<lparr>in_Template := ''VALUE''\<rparr>))"
  let ?obj = "\<lparr>gt_outputs = vc_Outputs ?vc, gt_template = ''VALUE'', gt_output = []\<rparr>"
  have "gt_run sampleLib (itemInput k ([ANum 5, ANum 7] ! k) xsInput) ?obj = Some (Inr ([ANum 5, ANum 7] ! k), ?obj)"
    if "k < length [ANum 5, ANum 7]" for k
    using that by (auto simp: gt_run_def sampleLib_def itemInput_def
      xsInput_def ins.get_addEntry ins.get_new liftErr_def dest!: numerals_below)
  from gotemplate_range_keeps_last [where obj = ?obj and vc = ?vc and items = "[ANum 5, ANum 7]", OF _ _ _ _ _ _ this]
  show ?thesis by (simp add: items_xs vertexOf_def Input0_def) (simp add: fnOf_def Function0_def)
qed

text \<open>A slice without a block never evaluates its expression: whatever the expression is, even an
  invalid one, it succeeds with the empty slice for every variable.\<close>

lemma slice_without_range_is_empty:
  assumes "fn_Input (vc_Function vc) = Some fi" and "\<not> HasBlock (vc_Function vc)"
  shows "slice_Run L vc i w =
    Some (finalEntries (ASlice []) (output_Get (vc_Outputs vc)) output_New, i, w)"
proof -
  have "blockItems L (vc_Function vc) i = Inr None" using assms(2) by (simp add: blockItems_def)
  then show ?thesis using assms(1) slices.exec_no_range [of L L "vc_Function vc" i]
    by (simp add: slice_Run_def NewSliceFn_def withWorld_def)
qed

theorem slice_without_range_is_empty_witness:
  "slice_Run sampleLib (vertexOf (fnOf SliceType Block0 (Input0\<lparr>in_Value := ''$unknown''\<rparr>))) xsInput world0 =
    Some (finalEntries (ASlice []) (output_Get (outputOf ''out'')) output_New, xsInput, world0)"
  using slice_without_range_is_empty [of "vertexOf (fnOf SliceType Block0 (Input0\<lparr>in_Value := ''$unknown''\<rparr>))"
      "Input0\<lparr>in_Value := ''$unknown''\<rparr>" sampleLib xsInput world0]
  by (simp add: vertexOf_def fnOf_def HasBlock_def Block0_def)

section \<open>Outputs\<close>

lemma unconditioned_GetConditionedOutput: "unconditioned out \<Longrightarrow> GetConditionedOutput out = []"
proof -
  assume u: "unconditioned out"
  have "fold (\<lambda>(k :: string, v) co. case infoOf v of None \<Rightarrow> co
      | Some oi \<Rightarrow> if oi_Conditioned oi then gput k v co else co) m co = co"
    if "\<forall>(k, v)\<in>set m. \<exists>b g x. v = AOutputInfo (OutputInfo b False g x)" for m co
    using that by (induction m arbitrary: co) auto
  then show ?thesis using u by (simp add: GetConditionedOutput_def unconditioned_def)
qed

text \<open>No function of any type ever returns a conditioned output, whatever the outputs of its vertex are
  declared to be: every getFinalResult builds its entries without the mark.\<close>

lemma outputs_never_conditioned:
  assumes "fnmap_Run (functions_Init L B root) vc i w = Some ((Some out, err), i', w')"
  shows "GetConditionedOutput out = []"
  by (rule unconditioned_GetConditionedOutput [OF fnmap_Run_unconditioned [OF assms]])

definition noBlocks :: blockEnv where
  "noBlocks = \<lparr>blockDAG = Map.empty, inner = (\<lambda>d w. Some w)\<rparr>"

theorem outputs_never_conditioned_witness:
  "GetConditionedOutput (output_AddEntry ''out'' (AOutputInfo (OutputInfo False False None (ASlice []))) output_New) = []"
proof (rule outputs_never_conditioned)
  show "fnmap_Run (functions_Init sampleLib noBlocks ''r'')
      (vertexOf (fnOf SliceType Block0 Input0)) xsInput world0 =
    Some ((Some (output_AddEntry ''out'' (AOutputInfo (OutputInfo False False None (ASlice []))) output_New), None),
      xsInput, world0)"
    by (simp add: fnmap_defs slice_Run_def vertexOf_def fnOf_def exec_def blockItems_def HasBlock_def Block0_def
        execSingle_def NewSliceFn_def slice_getFinalResult_def withWorld_def outputOf_def outs.get_addEntry outs.get_new)
qed

section \<open>The input of an image\<close>

lemma input_AddEntry_twice: "input_AddEntry k v (input_AddEntry k v i) = input_AddEntry k v i"
  by (rule input_eqI) (simp add: ins.get_addEntry gput_twice)

lemma filter_inner:
  "fold (\<lambda>(ivarName, _) newInput. if varName = ivarName then input_AddEntry varName v newInput
      else if varName = root then input_AddEntry varName v newInput else newInput) vs j =
   (if varName \<in> set (gkeys vs) \<or> (varName = root \<and> vs \<noteq> []) then input_AddEntry varName v j else j)"
proof (induction vs arbitrary: j)
  case (Cons x vs)
  then show ?case by (cases x) (auto simp: input_AddEntry_twice)
qed simp

lemma filter_outer:
  assumes "gwf m" and "\<forall>k\<in>set (gkeys m). k \<notin> set (gkeys (input_Get j))"
  shows "input_Get (fold (\<lambda>(k, v) j. if P k then input_AddEntry k v j else j) m j) =
    input_Get j @ filter (\<lambda>(k, v). P k) m"
  using assms
proof (induction m arbitrary: j)
  case (Cons x m)
  obtain k v where x: "x = (k, v)" by (cases x)
  have fresh: "input_Get (input_AddEntry k v j) = input_Get j @ [(k, v)]"
    using Cons.prems(2) x by (simp add: ins.get_addEntry gput_fresh)
  show ?case
  proof (cases "P k")
    case True
    then show ?thesis using Cons.IH [of "input_AddEntry k v j"] Cons.prems x fresh by auto
  next
    case False
    then show ?thesis using Cons x by auto
  qed
qed simp

text \<open>The input an image gets holds the variables it declares, and the root of the graph, but that only if
  it declares a variable at all: an image without local variables gets an empty input.\<close>

lemma image_input_entries:
  assumes "gwf (input_Get i)"
  shows "input_Get (image_filterInput r i) =
    filter (\<lambda>(k, v). k \<in> set (gkeys (fn_Vars (img_fnconfig r))) \<or>
        (k = img_rootVertexName r \<and> fn_Vars (img_fnconfig r) \<noteq> [])) (input_Get i)"
  using filter_outer [OF assms, of input_New]
  by (simp add: image_filterInput_def filter_inner ins.get_new)

definition sampleImage :: imageFn where
  "sampleImage = \<lparr>img_rootVertexName = ''xs'', img_fnconfig = Function0, img_outputs = output_New,
     img_gvkToVarName = [], img_output = output_New, img_numItems = 0, img_errs = []\<rparr>"

theorem image_input_entries_witness: "input_Get (image_filterInput sampleImage xsInput) = []"
  using image_input_entries [of xsInput sampleImage]
  by (simp add: xsInput_def ins.get_addEntry ins.get_new sampleImage_def Function0_def)

section \<open>What the handler reports\<close>

lemma withWorld_world: "withWorld w x = Some (oe, i, w') \<Longrightarrow> w' = w"
  by (simp add: withWorld_Some)

lemma fnmap_Run_world:
  assumes "fnmap_Run (functions_Init L B root) vc i w = Some (oe, i', w')"
    and "fn_Type (vc_Function vc) \<noteq> BlockType"
  shows "w' = w"
  using assms
  by (auto simp: fnmap_defs jq_Run_def slice_Run_def map_Run_def query_Run_def gt_Run_def root_Run_def
      image_Run_def split: if_splits Option.bind_splits dest: withWorld_world)

text \<open>A vertex that is not a block changes the run exactly by the result of its function: its output is
  added to the outputs, one result with its name, input, output and success is appended, and success
  means that the function returned no error or the condition was false.\<close>

lemma FunctionRun_records:
  assumes "h_FnMap h = functions_Init L B root" and "fn_Type (vc_Function vc) \<noteq> BlockType"
    and "FunctionRun h vertexName (Some vc) w = Some (success, w')"
  shows "\<exists>out err i. fnmap_Run (h_FnMap h) vc (gatherInput h vc (curOutputs w)) w = Some ((out, err), i, w) \<and>
    success = (err \<in> {None, Some ErrConditionFalse}) \<and>
    w' = \<lparr>curOutputs = output_Add out (curOutputs w), curResults = slice_Add
      \<lparr>ri_Type = h_Type h, ri_ExecName = h_Name h, ri_VertexName = vertexName, ri_Input = Some i,
       ri_Output = out, ri_Success = success,
       ri_Reason = (case err of None \<Rightarrow> '''' | Some e \<Rightarrow> ErrorString e)\<rparr> (curResults w)\<rparr>"
proof -
  obtain out err i v where run: "fnmap_Run (h_FnMap h) vc (gatherInput h vc (curOutputs w)) w = Some ((out, err), i, v)"
    using assms(3) by (auto simp: FunctionRun_def split: Option.bind_splits)
  have v: "v = w" using fnmap_Run_world [OF run [unfolded assms(1)] assms(2)] .
  show ?thesis
    by (rule exI [of _ out], rule exI [of _ err], rule exI [of _ i])
      (use assms(3) run v in \<open>auto simp: FunctionRun_def Let_def\<close>)
qed

definition sampleHandler :: execHandler where
  "sampleHandler = \<lparr>h_Name = ''r'', h_Type = ExecRootType, h_DAG = New, h_FnMap = functions_Init sampleLib noBlocks ''r''\<rparr>"

definition sliceVertex :: VertexContext where
  "sliceVertex = vertexOf (fnOf SliceType Block0 Input0)"

lemma sliceVertex_run:
  "\<exists>w'. FunctionRun sampleHandler ''v'' (Some sliceVertex) world0 = Some (True, w')"
  by (simp add: FunctionRun_def sampleHandler_def fnmap_defs sliceVertex_def slice_Run_def vertexOf_def fnOf_def
      exec_def blockItems_def HasBlock_def Block0_def execSingle_def NewSliceFn_def slice_getFinalResult_def
      withWorld_def outputOf_def outs.get_addEntry outs.get_new Let_def)

theorem FunctionRun_records_witness:
  "\<exists>w' out err i. FunctionRun sampleHandler ''v'' (Some sliceVertex) world0 = Some (True, w') \<and>
    fnmap_Run (h_FnMap sampleHandler) sliceVertex (gatherInput sampleHandler sliceVertex (curOutputs world0)) world0 =
      Some ((out, err), i, world0) \<and> True = (err \<in> {None, Some ErrConditionFalse})"
proof -
  obtain w' where w': "FunctionRun sampleHandler ''v'' (Some sliceVertex) world0 = Some (True, w')"
    using sliceVertex_run by auto
  have "fn_Type (vc_Function sliceVertex) \<noteq> BlockType" "h_FnMap sampleHandler = functions_Init sampleLib noBlocks ''r''"
    by (simp_all add: sliceVertex_def vertexOf_def fnOf_def sampleHandler_def)
  from FunctionRun_records [OF this(2,1) w'] w' show ?thesis by blast
qed

lemma fold_refs:
  "gget (input_Get (fold (\<lambda>ref i. input_AddEntry ref (GetData out ref) i) refs i)) k =
   (if k \<in> set refs then Some (GetData out k) else gget (input_Get i) k)"
  by (induction refs arbitrary: i) (auto simp: ins.get_addEntry)

text \<open>The input of a vertex that is neither the root nor an image holds the data of its references and
  nothing else.\<close>

lemma gatherInput_references:
  "fn_Type (vc_Function vc) \<notin> {RootType, ContainerType, WasmType} \<Longrightarrow>
    gget (input_Get (gatherInput h vc out)) k =
      (if k \<in> set (vc_References vc) then Some (GetData out k) else None)"
  by (auto simp: gatherInput_def Let_def fold_refs ins.get_new split: FunctionType.splits)

theorem gatherInput_references_witness:
  "gget (input_Get (gatherInput sampleHandler sliceVertex (outputOf ''xs''))) ''xs'' = Some ANil"
  using gatherInput_references [of sliceVertex sampleHandler "outputOf ''xs''" "''xs''"]
  by (simp add: sliceVertex_def vertexOf_def fnOf_def GetData_def outputOf_def outs.getValue outs.get_addEntry outs.get_new)

section \<open>Blocks and conditions\<close>

definition needsInput :: "FunctionType \<Rightarrow> bool" where
  "needsInput t \<longleftrightarrow> t \<in> {JQType, SliceType, MapType, QueryType, GoTemplateType}"

text \<open>A vertex whose condition is false, or whose range has no items, succeeds and leaves the
  outputs of the run as they are: nothing tells the vertices that depend on it that its variables
  have no value.\<close>

lemma nothing_to_run_is_success:
  assumes "h_FnMap h = functions_Init L B root"
    and "blockItems L (vc_Function vc) (gatherInput h vc (curOutputs w)) \<in>
      {Inl (Some output_New, ErrConditionFalse), Inr (Some [])}"
    and "needsInput (fn_Type (vc_Function vc))" and "fn_Input (vc_Function vc) \<noteq> None"
  shows "\<exists>w'. FunctionRun h vertexName (Some vc) w = Some (True, w') \<and> curOutputs w' = curOutputs w"
proof -
  obtain fi where fi: "fn_Input (vc_Function vc) = Some fi" using assms(4) by auto
  have run: "\<exists>out err i'. fnmap_Run (h_FnMap h) vc (gatherInput h vc (curOutputs w)) w = Some ((out, err), i', w) \<and>
      err \<in> {None, Some ErrConditionFalse} \<and> out \<in> {None, Some output_New}"
    using assms(2,3) fi
    by (auto simp: assms(1) needsInput_def fnmap_defs jq_Run_def slice_Run_def map_Run_def query_Run_def gt_Run_def
        exec_def withWorld_def NewJQFn_def NewSliceFn_def NewMapFn_def NewQueryFn_def NewGTFn_def)
  have add: "output_Add out s = s" if "out \<in> {None, Some output_New}" for out s
    using that by (auto simp: output_Add_def output_New_def kv_Add_def kv_Get_d kv_New_def)
  from run add show ?thesis by (auto simp: FunctionRun_def Let_def)
qed

theorem nothing_to_run_is_success_witness:
  "\<exists>w'. FunctionRun sampleHandler ''v'' (Some (vertexOf (fnOf SliceType
      (Block None (Some (ConditionExpression ''false'' Block0))) Input0))) world0 = Some (True, w') \<and>
    curOutputs w' = curOutputs world0"
proof (rule nothing_to_run_is_success)
  show "h_FnMap sampleHandler = functions_Init sampleLib noBlocks ''r''" by (simp add: sampleHandler_def)
qed (simp_all add: vertexOf_def fnOf_def needsInput_def blockItems_def HasBlock_def runCondition_def sampleLib_def
    sampleGojq_def)

lemma execItems_no_range:
  "\<not> executeRange r \<Longrightarrow> fn_Vars f = [] \<Longrightarrow> \<exists>i'. execItems L r f n items i s = Some (None, i', s)"
  by (induction L r f n items i s rule: execItems.induct) (auto simp: Let_def resolveLocalVars_def)

text \<open>A block whose condition holds or whose range has items runs its graph once, however many items the
  range has, and succeeds whatever happened inside: the failures of its vertices stay in the results,
  and the vertices that depend on the block go on.\<close>

lemma block_runs_once_and_succeeds:
  assumes "h_FnMap h = functions_Init L B root" and "fn_Type (vc_Function vc) = BlockType"
    and "blockItems L (vc_Function vc) (gatherInput h vc (curOutputs w)) = Inr items" and "items \<noteq> Some []"
    and "fn_Vars (vc_Function vc) = []"
    and "vc_BlockDAG vc = Some b" and "blockDAG B b = Some d" and "inner B d w = Some w'"
  shows "\<exists>ri. FunctionRun h vertexName (Some vc) w =
    Some (True, w'\<lparr>curResults := slice_Add ri (curResults w')\<rparr>) \<and> ri_Success ri"
proof -
  let ?i = "gatherInput h vc (curOutputs w)" and ?r = "NewBlockFn B"
  have single: "execSingle L ?r (vc_Function vc) i (r :: blockFn) =
      Some ((Some output_New, None), i, r\<lparr>blk_world := w', blk_output := [ANil]\<rparr>)"
    if "blk_d r = Some d" "blk_world r = w" for i r
    using that assms(5,8)
    by (cases r) (simp add: execSingle_def NewBlockFn_def runOnce_def block_run_def resolveLocalVars_def
        block_getFinalResult_def)
  have "\<exists>i'. fnmap_Run (h_FnMap h) vc ?i w = Some ((Some output_New, None), i', w')"
  proof (cases items)
    case None
    then show ?thesis using assms(2,3,6,7) single
      by (simp add: assms(1) fnmap_defs block_Run_def exec_def)
  next
    case (Some xs)
    then obtain v vs where xs: "xs = v # vs" using assms(4) by (cases xs) auto
    obtain i' where i': "execItems L ?r (vc_Function vc) 0 xs ?i
        \<lparr>blk_d = Some d, blk_world = w, blk_output = []\<rparr> = Some (None, i', \<lparr>blk_d = Some d, blk_world = w, blk_output = []\<rparr>)"
      using execItems_no_range [of ?r "vc_Function vc"] assms(5) by (fastforce simp: NewBlockFn_def)
    have init: "initOutputFn ?r = Some (\<lambda>numItems r. r\<lparr>blk_output := []\<rparr>)" by (simp add: NewBlockFn_def)
    show ?thesis using assms(2,3,6,7) single Some xs i' init
      by (simp add: assms(1) fnmap_defs block_Run_def exec_def del: execItems.simps)
  qed
  moreover have "output_Add (Some output_New) s = s" for s
    by (simp add: output_Add_def output_New_def kv_Add_def kv_Get_d kv_New_def)
  ultimately obtain i' where "fnmap_Run (h_FnMap h) vc ?i w = Some ((Some output_New, None), i', w')"
    and "output_Add (Some output_New) (curOutputs w') = curOutputs w'" by blast
  then show ?thesis
    by (simp add: FunctionRun_def Let_def) (rule exI, rule conjI, rule refl, simp)
qed

definition failingBlock :: blockEnv where
  "failingBlock = \<lparr>blockDAG = [''b'' \<mapsto> New], inner = (\<lambda>d w. Some (w\<lparr>curResults := slice_Add
     \<lparr>ri_Type = ExecBlockType, ri_ExecName = ''b'', ri_VertexName = ''total'', ri_Input = None, ri_Output = None,
      ri_Success = False, ri_Reason = ''''\<rparr> (curResults w)\<rparr>))\<rparr>"

definition xsWorld :: world where
  "xsWorld = world0\<lparr>curOutputs := output_AddEntry ''xs''
     (AOutputInfo (OutputInfo True False None (ASlice [ANum 5, ANum 7]))) output_New\<rparr>"

theorem block_runs_once_and_succeeds_witness:
  "\<exists>ri. FunctionRun (sampleHandler\<lparr>h_FnMap := functions_Init sampleLib failingBlock ''r''\<rparr>) ''b''
      (Some ((vertexOf (fnOf BlockType overXs Input0))\<lparr>vc_BlockDAG := Some ''b''\<rparr>)) xsWorld =
    Some (True, (the (inner failingBlock New xsWorld))
      \<lparr>curResults := slice_Add ri (curResults (the (inner failingBlock New xsWorld)))\<rparr>) \<and> ri_Success ri"
proof (rule block_runs_once_and_succeeds [where L = sampleLib and B = failingBlock and root = "''r''" and b = "''b''"
      and d = New and items = "Some [ANum 5, ANum 7]"])
  have "gatherInput (sampleHandler\<lparr>h_FnMap := functions_Init sampleLib failingBlock ''r''\<rparr>)
      (vertexOf (fnOf BlockType overXs Input0)\<lparr>vc_BlockDAG := Some ''b''\<rparr>) (curOutputs xsWorld) = xsInput"
    by (simp add: gatherInput_def Let_def vertexOf_def fnOf_def xsWorld_def GetData_def outs.getValue
        outs.get_addEntry outs.get_new xsInput_def)
  then show "blockItems sampleLib (vc_Function (vertexOf (fnOf BlockType overXs Input0)\<lparr>vc_BlockDAG := Some ''b''\<rparr>))
      (gatherInput (sampleHandler\<lparr>h_FnMap := functions_Init sampleLib failingBlock ''r''\<rparr>)
        (vertexOf (fnOf BlockType overXs Input0)\<lparr>vc_BlockDAG := Some ''b''\<rparr>) (curOutputs xsWorld)) =
    Inr (Some [ANum 5, ANum 7])"
    by (simp add: vertexOf_def items_xs)
qed (simp_all add: vertexOf_def fnOf_def Function0_def failingBlock_def)

end
