(* ===== verification/Exec_Run.thy ===== *)
theory Exec_Run
  imports Executor_Theorems Function_Theorems
begin

text \<open>
  A whole run: the executor (pkg/ccutils/executor) with the handler (pkg/exec/exechandler) as its vertex
  function.  A vertex gathers its input when it starts and adds its output and its result when it
  finishes, so the log of an executor run drives the outputs and results (\<open>dataRun\<close>); a log whose
  success flags are not those the functions computed belongs to no run.  The lemmas say where the values a
  vertex reads come from and that the interleaving does not matter for a graph without blocks in
  which every variable has one writer that its readers wait for.
\<close>

section \<open>The run\<close>

text \<open>\<open>FunctionRun\<close> in two halves: the input, and everything after it.\<close>

definition completeRun :: "execHandler \<Rightarrow> string \<Rightarrow> VertexContext \<Rightarrow> input \<Rightarrow> world \<Rightarrow> (bool \<times> world) go" where
  "completeRun h vertexName vc i w = do {
     ((out, err), i, w) \<leftarrow> fnmap_Run (h_FnMap h) vc i w;
     (let success = (err = None \<or> err = Some ErrConditionFalse);
          reason = (case err of None \<Rightarrow> '''' | Some e \<Rightarrow> ErrorString e)
      in Some (success,
           w\<lparr>curOutputs := output_Add out (curOutputs w),
             curResults := slice_Add
               \<lparr>ri_Type = h_Type h, ri_ExecName = h_Name h, ri_VertexName = vertexName, ri_Input = Some i,
                ri_Output = out, ri_Success = success, ri_Reason = reason\<rparr> (curResults w)\<rparr>)) }"

lemma FunctionRun_halves:
  "FunctionRun h vertexName (Some vc) w = completeRun h vertexName vc (gatherInput h vc (curOutputs w)) w"
  by (simp add: FunctionRun_def completeRun_def)

record runState =
  rs_inputs :: "string \<rightharpoonup> input"
  rs_world :: world

definition runStart :: "world \<Rightarrow> runState" where
  "runStart w = \<lparr>rs_inputs = Map.empty, rs_world = w\<rparr>"

fun dataStep :: "execHandler \<Rightarrow> logEntry \<Rightarrow> runState \<Rightarrow> runState go" where
  "dataStep h (Started v) rs = do {
     vc \<leftarrow> GetVertex (h_DAG h) v;
     Some (rs\<lparr>rs_inputs := (rs_inputs rs)(v \<mapsto> gatherInput h vc (curOutputs (rs_world rs)))\<rparr>) }"
| "dataStep h (Finished v b) rs = do {
     vc \<leftarrow> GetVertex (h_DAG h) v;
     i \<leftarrow> rs_inputs rs v;
     (success, w) \<leftarrow> completeRun h v vc i (rs_world rs);
     (if success = b then Some (rs\<lparr>rs_world := w\<rparr>) else None) }"

definition dataRun :: "execHandler \<Rightarrow> logEntry list \<Rightarrow> world \<Rightarrow> runState go" where
  "dataRun h L w = ofold (dataStep h) L (runStart w)"

lemma dataRun_Nil [simp]: "dataRun h [] w = Some (runStart w)"
  by (simp add: dataRun_def)

lemma dataRun_append: "dataRun h (L @ M) w = Option.bind (dataRun h L w) (ofold (dataStep h) M)"
  by (simp add: dataRun_def ofold_append)

lemma dataRun_snoc: "dataRun h (L @ [e]) w = Option.bind (dataRun h L w) (dataStep h e)"
  by (cases "dataRun h L w"; cases "dataStep h e (the (dataRun h L w))") (simp_all add: dataRun_append)

abbreviation resultsOf :: "runState \<Rightarrow> ResultInfo list" where
  "resultsOf rs \<equiv> slice_Get (curResults (rs_world rs))"

abbreviation outputsOf :: "runState \<Rightarrow> out_store" where
  "outputsOf rs \<equiv> curOutputs (rs_world rs)"

section \<open>What a function may write\<close>

definition declared :: "VertexContext \<Rightarrow> string set" where
  "declared vc = set (gkeys (output_Get (vc_Outputs vc)))"

definition writesOnly :: "string set \<Rightarrow> out_store \<Rightarrow> bool" where
  "writesOnly K out \<longleftrightarrow> gwf (output_Get out) \<and> set (gkeys (output_Get out)) \<subseteq> K"

lemma writesOnly_New [simp]: "writesOnly K output_New"
  by (simp add: writesOnly_def outs.get_new)

lemma writesOnly_AddEntry: "writesOnly K out \<Longrightarrow> k \<in> K \<Longrightarrow> writesOnly K (output_AddEntry k v out)"
  unfolding writesOnly_def by (auto simp: outs.get_addEntry simp del: set_map)

lemma finalEntries_writes:
  "finalEntries x vs out = (Some out', err) \<Longrightarrow> writesOnly K out \<Longrightarrow> set (gkeys vs) \<subseteq> K \<Longrightarrow> writesOnly K out'"
  by (induction vs arbitrary: out) (auto simp: writesOnly_AddEntry split: option.splits)

lemma recordEntries_outputs: "img_outputs (recordEntries L rc r) = img_outputs r"
  by (induction L rc r rule: recordEntries.induct) (auto split: option.splits prod.splits)

lemma key_in: "gget m k = Some v \<Longrightarrow> set (gkeys m) \<subseteq> K \<Longrightarrow> k \<in> K"
  using gget_Some_key [of m k v] by auto

lemma recordEntries_writes:
  assumes "writesOnly K (img_output r)" and "set (gkeys (output_Get (img_outputs r))) \<subseteq> K"
  shows "writesOnly K (img_output (recordEntries L rc r))"
  using assms
proof (induction L rc r rule: recordEntries.induct)
  case (2 L gvkString krmslice rest r)
  obtain krmOutput errs where krm: "krmEntries L krmslice [] (img_errs r) = (krmOutput, errs)"
    by (cases "krmEntries L krmslice [] (img_errs r)")
  show ?case
  proof (cases "gget (img_gvkToVarName r) gvkString")
    case None
    then show ?thesis using 2 by simp
  next
    case (Some varName)
    show ?thesis
    proof (cases "Option.bind (gget (output_Get (img_outputs r)) varName) infoOf")
      case None
      then show ?thesis using 2(3,4) Some krm
        by (cases "gget (output_Get (img_outputs r)) varName") simp_all
    next
      case (Some oi)
      then obtain v where v: "gget (output_Get (img_outputs r)) varName = Some v" "infoOf v = Some oi"
        by (cases "gget (output_Get (img_outputs r)) varName") auto
      then show ?thesis
        using 2(2) [OF \<open>gget (img_gvkToVarName r) gvkString = Some varName\<close> krm [symmetric] v] 2(3,4)
          \<open>gget (img_gvkToVarName r) gvkString = Some varName\<close> krm writesOnly_AddEntry key_in [OF v(1)]
        by simp
    qed
  qed
qed simp

lemma exec_writes:
  assumes "exec L cfg f i s = Some ((Some out, err), i', t)" and "keeps I cfg" and "I s"
    and "\<And>u err. I u \<Longrightarrow> getFinalResultFn cfg u = (Some out, err) \<Longrightarrow> writesOnly K out"
  shows "writesOnly K out"
  using exec_keeps [OF assms(2,3,1)] assms(4) by auto

context fn_object
begin

lemma keeps_outs: "keeps (\<lambda>s. outs s = ob) cfg"
  by (auto simp: keeps_def run_cfg init_cfg rcd_cfg outs_init outs_rcd)

lemma exec_declared:
  "exec L cfg f i s = Some ((Some out, err), i', t) \<Longrightarrow> writesOnly (set (gkeys (output_Get (outs s)))) out"
  by (erule exec_writes [OF _ keeps_outs refl])
    (auto simp: final_cfg intro: finalEntries_writes simp del: set_map)

end

lemma image_declared:
  assumes "image_Run L rn vc i w = Some ((Some out, err), i', w')"
  shows "writesOnly (declared vc) out"
proof -
  let ?I = "\<lambda>r. img_outputs r = vc_Outputs vc \<and> writesOnly (declared vc) (img_output r)"
  have keeps: "keeps ?I (NewImageFn L)"
    by (auto simp: keeps_def NewImageFn_def image_initOutput_def image_run_def declared_def recordEntries_outputs
        recordEntries_writes split: sum.splits simp del: set_map)
  from assms obtain s t where ex: "exec L (NewImageFn L) (vc_Function vc) i s = Some ((Some out, err), i', t)"
    and s: "?I s" by (auto simp: image_Run_def withWorld_Some)
  show ?thesis
    by (rule exec_writes [OF ex keeps s])
      (auto simp: NewImageFn_def image_getFinalResult_def split: if_splits)
qed

lemma root_declared: "exec L NewRootFn f i s = Some ((Some out, err), i', t) \<Longrightarrow> writesOnly K out"
  by (erule exec_writes [OF _ keeps_True TrueI]) (simp_all add: NewRootFn_def root_getFinalResult_def)

lemma block_declared: "exec L (NewBlockFn B) f i s = Some ((Some out, err), i', t) \<Longrightarrow> writesOnly K out"
  by (erule exec_writes [OF _ keeps_True TrueI]) (simp_all add: NewBlockFn_def block_getFinalResult_def)

lemmas function_declared = image_declared root_declared block_declared jqs.exec_declared slices.exec_declared
  maps.exec_declared queries.exec_declared gts.exec_declared

lemma fnmap_Run_declared:
  assumes "fnmap_Run (functions_Init L B root) vc i w = Some ((Some out, err), i', w')"
  shows "writesOnly (declared vc) out"
  using assms
  by (auto simp: fnmap_defs function_Run_defs withWorld_Some declared_def split: if_splits Option.bind_splits
      dest: function_declared simp del: set_map)

end
