(* ===== verification/Exec_Run_Properties.thy ===== *)
theory Exec_Run_Properties
  imports Exec_Run
begin

text \<open>
  Where the values of a run come from.  The results of a run list what its functions returned; every
  entry of the outputs is that of the start or of one of these results.  For a graph without blocks in
  which every variable has at most one writer, which its readers wait for, two runs give every vertex the
  same input and so the same result.
\<close>

section \<open>Functions without a graph of their own\<close>

definition flat :: "execHandler \<Rightarrow> bool" where
  "flat h \<longleftrightarrow> (\<exists>L B root. h_FnMap h = functions_Init L B root) \<and>
     (\<forall>v vc. GetVertex (h_DAG h) v = Some vc \<longrightarrow> fn_Type (vc_Function vc) \<noteq> BlockType)"

lemma withWorld_any: "withWorld w x = Some (oe, i, w') \<Longrightarrow> withWorld v x = Some (oe, i, v)"
  by (auto simp: withWorld_def split: option.splits)

lemma fnmap_Run_any_world:
  assumes "fnmap_Run (functions_Init L B root) vc i w = Some (oe, i', w')"
    and "fn_Type (vc_Function vc) \<noteq> BlockType"
  shows "fnmap_Run (functions_Init L B root) vc i v = Some (oe, i', v)"
  using assms
  by (auto simp: fnmap_defs jq_Run_def slice_Run_def map_Run_def query_Run_def gt_Run_def root_Run_def
      image_Run_def split: if_splits Option.bind_splits dest: withWorld_any)

text \<open>Such a function turns its input into one result, whatever the state of the run.\<close>

definition addResult :: "ResultInfo \<Rightarrow> world \<Rightarrow> world" where
  "addResult ri w = \<lparr>curOutputs = output_Add (ri_Output ri) (curOutputs w),
     curResults = slice_Add ri (curResults w)\<rparr>"

definition produces :: "execHandler \<Rightarrow> VertexContext \<Rightarrow> input \<Rightarrow> ResultInfo \<Rightarrow> bool" where
  "produces h vc i ri \<longleftrightarrow>
     (\<forall>w. completeRun h (ri_VertexName ri) vc i w = Some (ri_Success ri, addResult ri w)) \<and>
     (\<forall>out. ri_Output ri = Some out \<longrightarrow> writesOnly (declared vc) out)"

lemma produces_unique:
  assumes "produces h vc i ri" and "produces h vc i ri'" and "ri_VertexName ri = ri_VertexName ri'"
  shows "ri = ri'"
proof -
  have "addResult ri world0 = addResult ri' world0"
    using assms unfolding produces_def by (metis option.inject prod.inject)
  then show ?thesis by (simp add: addResult_def slice_Add_def world0_def slice_New_def)
qed

lemma completeRun_produces:
  assumes "flat h" and vc: "GetVertex (h_DAG h) v = Some vc" and run: "completeRun h v vc i w = Some (b, w')"
  shows "\<exists>ri. produces h vc i ri \<and> ri_VertexName ri = v \<and> ri_Success ri = b \<and> w' = addResult ri w"
proof -
  obtain L B root where fm: "h_FnMap h = functions_Init L B root" and nb: "fn_Type (vc_Function vc) \<noteq> BlockType"
    using assms(1) vc by (auto simp: flat_def)
  obtain out err i' u where fr: "fnmap_Run (h_FnMap h) vc i w = Some ((out, err), i', u)"
    using run by (auto simp: completeRun_def split: Option.bind_splits)
  have every: "fnmap_Run (h_FnMap h) vc i x = Some ((out, err), i', x)" for x
    using fnmap_Run_any_world [OF fr [unfolded fm] nb] by (simp add: fm)
  let ?ri = "\<lparr>ri_Type = h_Type h, ri_ExecName = h_Name h, ri_VertexName = v, ri_Input = Some i',
    ri_Output = out, ri_Success = err = None \<or> err = Some ErrConditionFalse,
    ri_Reason = (case err of None \<Rightarrow> '''' | Some e \<Rightarrow> ErrorString e)\<rparr>"
  have c: "completeRun h v vc i x = Some (ri_Success ?ri, addResult ?ri x)" for x
    by (cases x) (simp add: completeRun_def every Let_def addResult_def)
  have "writesOnly (declared vc) o'" if "out = Some o'" for o'
    using fr unfolding fm that by (rule fnmap_Run_declared)
  then have "produces h vc i ?ri" using c by (simp add: produces_def)
  moreover have "Some (b, w') = Some (ri_Success ?ri, addResult ?ri w)" by (rule trans [OF run [symmetric] c])
  then have "b = ri_Success ?ri \<and> w' = addResult ?ri w" unfolding option.inject prod.inject .
  ultimately show ?thesis by (intro exI [of _ ?ri]) simp
qed

section \<open>Ranges whose order cannot be seen\<close>

text \<open>Go chooses the order of a \<open>range\<close> anew: two runs over one graph are runs over two libraries that differ in
  their orders.\<close>

definition withOrders :: "(Function \<Rightarrow> input \<Rightarrow> nat list) \<Rightarrow> (input \<Rightarrow> nat list) \<Rightarrow> extlib \<Rightarrow> extlib" where
  "withOrders vo io L = L\<lparr>varOrder := vo, inputOrder := io\<rparr>"

text \<open>The orders do not matter for a function that is no block and no image, has at most one local variable,
  and whose outputs are described by \<open>OutputInfo\<close>s, so that the \<open>range\<close> over them runs to its end.\<close>

definition orderFree :: "execHandler \<Rightarrow> bool" where
  "orderFree h \<longleftrightarrow> (\<forall>v vc. GetVertex (h_DAG h) v = Some vc \<longrightarrow>
     fn_Type (vc_Function vc) \<notin> {BlockType, ContainerType, WasmType} \<and>
     length (fn_Vars (vc_Function vc)) \<le> 1 \<and>
     (\<forall>(k, x)\<in>set (output_Get (vc_Outputs vc)). infoOf x \<noteq> None))"

lemma runJQ_order: "runJQ (withOrders vo io L) = runJQ L"
  by (simp add: fun_eq_iff runJQ_def withOrders_def)

lemma resolveVars_order: "resolveVars (withOrders vo io L) vs i = resolveVars L vs i"
  by (induction vs arbitrary: i) (auto simp: runJQ_order split: sum.splits)

lemma resolveLocalVars_order:
  "length (fn_Vars f) \<le> 1 \<Longrightarrow> resolveLocalVars (withOrders vo io L) f = resolveLocalVars L f"
  by (simp add: fun_eq_iff resolveLocalVars_def resolveVars_order)

lemma execItems_order:
  assumes "length (fn_Vars f) \<le> 1"
  shows "execItems (withOrders vo io L) r f n items i s = execItems L r f n items i s"
proof (induction items arbitrary: n i s)
  case (Cons v items)
  then show ?case by (simp add: resolveLocalVars_order [OF assms] Let_def split: option.split prod.split)
qed simp

lemma exec_order:
  assumes "length (fn_Vars f) \<le> 1"
  shows "exec (withOrders vo io L) r f i s = exec L r f i s"
proof -
  have "runRange (withOrders vo io L) = runRange L" "runCondition (withOrders vo io L) = runCondition L"
    by (simp_all add: fun_eq_iff runRange_def runCondition_def withOrders_def)
  note queries = this
  have "blockItems (withOrders vo io L) f i = blockItems L f i"
    unfolding blockItems_def queries ..
  note parts = this execItems_order [OF assms] resolveLocalVars_order [OF assms]
  show ?thesis unfolding exec_def execSingle_def parts ..
qed

lemma withOrders_fields:
  "gojq (withOrders vo io L) = gojq L" "k8s (withOrders vo io L) = k8s L" "clientList (withOrders vo io L) = clientList L"
  "executeTemplate (withOrders vo io L) = executeTemplate L"
  by (simp_all add: withOrders_def)

lemma objects_order:
  "NewJQFn (withOrders vo io L) = NewJQFn L" "NewSliceFn (withOrders vo io L) = NewSliceFn L"
  "NewMapFn (withOrders vo io L) = NewMapFn L" "NewQueryFn (withOrders vo io L) = NewQueryFn L"
  "NewGTFn (withOrders vo io L) = NewGTFn L"
  unfolding NewJQFn_def NewSliceFn_def NewMapFn_def NewQueryFn_def NewGTFn_def jq_run_def [abs_def] slice_run_def [abs_def]
    map_run_def [abs_def] query_run_def [abs_def] gt_run_def [abs_def] runJQ_order withOrders_fields by (rule refl)+

lemma fnmap_Run_order:
  assumes "fn_Type (vc_Function vc) \<notin> {BlockType, ContainerType, WasmType}" and "length (fn_Vars (vc_Function vc)) \<le> 1"
  shows "fnmap_Run (functions_Init (withOrders vo io L) B root) vc i w = fnmap_Run (functions_Init L B root) vc i w"
  using assms(1)
  by (auto simp: fnmap_defs jq_Run_def slice_Run_def map_Run_def query_Run_def gt_Run_def root_Run_def objects_order
      exec_order [OF assms(2)])

lemma dataRun_order:
  assumes "orderFree h"
  shows "dataRun (h\<lparr>h_FnMap := functions_Init (withOrders vo io L) B root\<rparr>) M w =
    dataRun (h\<lparr>h_FnMap := functions_Init L B root\<rparr>) M w"
proof -
  have gather: "gatherInput (h\<lparr>h_FnMap := m\<rparr>) = gatherInput (h\<lparr>h_FnMap := m'\<rparr>)" for m m'
    by (simp add: fun_eq_iff gatherInput_def)
  have "dataStep (h\<lparr>h_FnMap := functions_Init (withOrders vo io L) B root\<rparr>) e rs =
      dataStep (h\<lparr>h_FnMap := functions_Init L B root\<rparr>) e rs" for e rs
  proof (cases e)
    case (Started v)
    then show ?thesis unfolding Started dataStep.simps
      by (subst gather [of _ "functions_Init L B root"]) simp
  next
    case (Finished v b)
    have "completeRun (h\<lparr>h_FnMap := functions_Init (withOrders vo io L) B root\<rparr>) v vc i w' =
        completeRun (h\<lparr>h_FnMap := functions_Init L B root\<rparr>) v vc i w'"
      if "GetVertex (h_DAG h) v = Some vc" for vc i w'
      using assms that by (auto simp: completeRun_def orderFree_def fnmap_Run_order)
    then show ?thesis using Finished by (cases "GetVertex (h_DAG h) v") simp_all
  qed
  then show ?thesis by (simp add: dataRun_def cong: ofold_cong)
qed

text \<open>The entries of a result do not depend on the order in which its outputs are visited.\<close>

lemma finalEntries_any_order:
  assumes "gwf vs" and "\<forall>(k, x)\<in>set vs. infoOf x \<noteq> None" and "mset ws = mset vs"
  shows "\<exists>o1 o2. finalEntries data vs out = (Some o1, None) \<and> finalEntries data ws out = (Some o2, None) \<and>
    gget (output_Get o1) = gget (output_Get o2)"
proof -
  let ?e = "\<lambda>x. AOutputInfo (OutputInfo (oi_Internal (the (infoOf x))) False (oi_GVK (the (infoOf x))) data)"
  have put: "\<exists>o'. finalEntries data us out = (Some o', None) \<and>
      gget (output_Get o') = gget (output_Get out) ++ (map_option ?e \<circ> gget us)"
    if "gwf us" "\<forall>(k, x)\<in>set us. infoOf x \<noteq> None" for us
    using that
  proof (induction us arbitrary: out)
    case (Cons e us)
    obtain k x where e: "e = (k, x)" by (cases e)
    with Cons.prems obtain oi where oi: "infoOf x = Some oi" by auto
    have fresh: "gget us k = None" using Cons.prems(1) e by (simp add: gget_None_iff)
    let ?out = "output_AddEntry k (?e x) out"
    have "gwf us" "\<forall>(k, x)\<in>set us. infoOf x \<noteq> None" using Cons.prems by simp_all
    from Cons.IH [OF this, of ?out] obtain o' where "finalEntries data us ?out = (Some o', None)"
      and "gget (output_Get o') = gget (output_Get ?out) ++ (map_option ?e \<circ> gget us)"
      by blast
    then show ?case using fresh
      by (auto simp: e oi outs.get_addEntry fun_eq_iff map_add_def split: option.splits)
  qed (simp add: fun_eq_iff map_add_def)
  have "gwf ws"
    using assms(1) by (metis assms(3) mset_eq_imp_distinct_iff mset_map)
  moreover have "set ws = set vs" by (rule mset_eq_setD [OF assms(3)])
  moreover from calculation have "gget ws = gget vs"
    using assms(1) by (metis map_of_inject_set)
  ultimately show ?thesis using put [OF assms(1,2)] put [of ws] assms(2) by auto
qed

section \<open>Schedules\<close>

lemma schedule_snoc_cases:
  assumes "schedule d (L @ [e])"
  obtains (starts) w where "e = Started w" "schedule d L" "Started w \<notin> set L"
      "\<forall>u\<in>set (GetUpVertexes d w). \<exists>b. Finished u b \<in> set L"
  | (finishes) v b where "e = Finished v b" "schedule d L" "Started v \<in> set L" "\<forall>b. Finished v b \<notin> set L"
  using assms by (cases rule: schedule.cases) auto

lemma schedule_prefix: "schedule d (L @ M) \<Longrightarrow> schedule d L"
proof (induction M rule: rev_induct)
  case (snoc e M)
  have "schedule d ((L @ M) @ [e])" using snoc.prems by simp
  then have "schedule d (L @ M)" by (rule schedule_snoc_cases)
  then show ?case by (rule snoc.IH)
qed simp

lemma finished_started: "schedule d L \<Longrightarrow> Finished v b \<in> set L \<Longrightarrow> Started v \<in> set L"
  by (induction rule: schedule.induct) auto

lemma started_deps:
  "schedule d L \<Longrightarrow> Started w \<in> set L \<Longrightarrow> u \<in> set (GetUpVertexes d w) \<Longrightarrow> \<exists>b. Finished u b \<in> set L"
  by (induction rule: schedule.induct) auto

text \<open>When a vertex starts, everything it depends on, directly or not, has finished.\<close>

lemma ancestors_finished:
  assumes "schedule d L" and "Started w \<in> set L" and "(u, w) \<in> (upedges d)\<^sup>+"
  shows "\<exists>b. Finished u b \<in> set L"
  using assms(3)
proof (induction rule: converse_trancl_induct)
  case (base u)
  then show ?case using started_deps [OF assms(1,2)] by (simp add: upedges_def)
next
  case (step u x)
  then obtain b where "Finished x b \<in> set L" by blast
  then show ?case using started_deps [OF assms(1) finished_started [OF assms(1)]] step.hyps(1)
    by (auto simp: upedges_def)
qed

lemma ancestors_before_start:
  assumes "schedule d (L @ [Started w])" and "(u, w) \<in> (upedges d)\<^sup>+"
  shows "\<exists>b. Finished u b \<in> set L"
  using ancestors_finished [OF assms(1) _ assms(2)] by simp

section \<open>The invariant of a run\<close>

definition hasKey :: "ResultInfo \<Rightarrow> string \<Rightarrow> bool" where
  "hasKey ri k \<longleftrightarrow> (\<exists>out. ri_Output ri = Some out \<and> k \<in> set (gkeys (output_Get out)))"

definition dataInv :: "execHandler \<Rightarrow> world \<Rightarrow> logEntry list \<Rightarrow> runState \<Rightarrow> bool" where
  "dataInv h w0 L rs \<longleftrightarrow>
     (\<forall>v b. Finished v b \<in> set L \<longleftrightarrow> (\<exists>ri\<in>set (resultsOf rs). ri_VertexName ri = v \<and> ri_Success ri = b)) \<and>
     (\<forall>v i. rs_inputs rs v = Some i \<longrightarrow> Started v \<in> set L) \<and>
     outputsOf rs = fold (\<lambda>ri. output_Add (ri_Output ri)) (resultsOf rs) (curOutputs w0) \<and>
     (\<forall>ri\<in>set (resultsOf rs). \<exists>vc i. GetVertex (h_DAG h) (ri_VertexName ri) = Some vc \<and>
        rs_inputs rs (ri_VertexName ri) = Some i \<and> produces h vc i ri)"

lemma dataInv_run:
  assumes "flat h" and "slice_Get (curResults w0) = []" and "schedule (h_DAG h) L"
  shows "dataRun h L w0 = Some rs \<Longrightarrow> dataInv h w0 L rs"
  using assms(3)
proof (induction arbitrary: rs rule: schedule.induct)
  case nothing
  then show ?case using assms(2) by (auto simp: dataInv_def runStart_def)
next
  case (starts L w)
  then obtain rs' vc where rs': "dataRun h L w0 = Some rs'" and
    rs: "rs = rs'\<lparr>rs_inputs := (rs_inputs rs')(w \<mapsto> gatherInput h vc (outputsOf rs'))\<rparr>"
    by (auto simp: dataRun_snoc split: Option.bind_splits)
  have inv: "dataInv h w0 L rs'" by (rule starts.IH [OF rs'])
  have "Finished w b \<notin> set L" for b using finished_started [OF starts.hyps(1)] starts.hyps(2) by blast
  then have "ri_VertexName ri \<noteq> w" if "ri \<in> set (resultsOf rs')" for ri
    using inv that unfolding dataInv_def by blast
  then show ?case using inv by (fastforce simp: dataInv_def rs)
next
  case (finishes L v b)
  then obtain rs' vc i w' where rs': "dataRun h L w0 = Some rs'" and vc: "GetVertex (h_DAG h) v = Some vc"
    and i: "rs_inputs rs' v = Some i" and run: "completeRun h v vc i (rs_world rs') = Some (b, w')"
    and rs: "rs = rs'\<lparr>rs_world := w'\<rparr>"
    by (auto simp: dataRun_snoc split: Option.bind_splits if_splits)
  have inv: "dataInv h w0 L rs'" by (rule finishes.IH [OF rs'])
  obtain ri where ri: "produces h vc i ri" "ri_VertexName ri = v" "ri_Success ri = b"
    "w' = addResult ri (rs_world rs')"
    using completeRun_produces [OF assms(1) vc run] by blast
  have "resultsOf rs = resultsOf rs' @ [ri]" "outputsOf rs = output_Add (ri_Output ri) (outputsOf rs')"
    "rs_inputs rs = rs_inputs rs'"
    by (simp_all add: rs ri(4) addResult_def slice_Add_def slice_Get_def)
  then show ?case using inv vc i ri(1-3) by (auto simp: dataInv_def)
qed

lemma dataInv_result:
  "dataInv h w0 L rs \<Longrightarrow> ri \<in> set (resultsOf rs) \<Longrightarrow> \<exists>vc i. GetVertex (h_DAG h) (ri_VertexName ri) = Some vc \<and>
     rs_inputs rs (ri_VertexName ri) = Some i \<and> produces h vc i ri"
  by (simp add: dataInv_def)

text \<open>An entry of the outputs: that of the only result that has the key, or that of the start.\<close>

lemma fold_outputs:
  assumes "\<forall>ri\<in>set ris. \<forall>out. ri_Output ri = Some out \<longrightarrow> gwf (output_Get out)"
    and "\<forall>ri\<in>set ris. hasKey ri k \<longrightarrow> ri_Output ri = Some out"
  shows "gget (output_Get (fold (\<lambda>ri. output_Add (ri_Output ri)) ris s)) k =
    (if \<exists>ri\<in>set ris. hasKey ri k then gget (output_Get out) k else gget (output_Get s) k)"
  using assms
proof (induction ris arbitrary: s)
  case (Cons ri ris)
  have s: "gget (output_Get (output_Add (ri_Output ri) s)) k =
      (if hasKey ri k then gget (output_Get out) k else gget (output_Get s) k)"
  proof (cases "ri_Output ri")
    case None
    then show ?thesis by (simp add: hasKey_def output_Add_def)
  next
    case (Some o')
    then have "gget (output_Get (output_Add (ri_Output ri) s)) k = (gget (output_Get s) ++ gget (output_Get o')) k"
      using Cons.prems(1) by (simp add: outs.gget_add)
    then show ?thesis using Some Cons.prems(2) gget_None_iff [of "output_Get o'" k]
      by (auto simp: hasKey_def map_add_def split: option.splits simp del: set_map)
  qed
  show ?case using Cons.IH [of "output_Add (ri_Output ri) s"] Cons.prems s by auto
qed simp

section \<open>Wiring\<close>

text \<open>What a vertex reads, and the wiring the parser builds when references are connected: at most
  one vertex declares a variable, and every reader of it comes after that vertex.\<close>

definition reads :: "execHandler \<Rightarrow> VertexContext \<Rightarrow> string set" where
  "reads h vc = (if fn_Type (vc_Function vc) = RootType then {}
     else set (vc_References vc) \<union>
       (if fn_Type (vc_Function vc) \<in> {ContainerType, WasmType} then {GetRootVertex (h_DAG h)} else {}))"

definition wired :: "execHandler \<Rightarrow> bool" where
  "wired h \<longleftrightarrow> (\<forall>(u, uc)\<in>set (GetVertices (h_DAG h)). \<forall>k\<in>declared uc.
     \<forall>(v, vc)\<in>set (GetVertices (h_DAG h)).
       (k \<in> declared vc \<longrightarrow> v = u) \<and> (k \<in> reads h vc \<longrightarrow> (u, v) \<in> (edges (h_DAG h))\<^sup>+))"

lemma wiredD:
  assumes "wired h" and "GetVertex (h_DAG h) u = Some uc" and "k \<in> declared uc" and "GetVertex (h_DAG h) v = Some vc"
  shows "k \<in> declared vc \<Longrightarrow> v = u" and "k \<in> reads h vc \<Longrightarrow> (u, v) \<in> (edges (h_DAG h))\<^sup>+"
  using assms by (fastforce simp: wired_def GetVertex_def GetVertices_def dest: map_of_SomeD)+

lemma gatherInput_cong:
  assumes "\<And>k. k \<in> reads h vc \<Longrightarrow> gget (output_Get out) k = gget (output_Get out') k"
  shows "gatherInput h vc out = gatherInput h vc out'"
proof -
  have d: "GetData out k = GetData out' k" if "k \<in> reads h vc" for k
    using assms [OF that] by (simp add: GetData_def outs.getValue)
  have f: "fold (\<lambda>ref i. input_AddEntry ref (GetData out ref) i) (vc_References vc) i =
      fold (\<lambda>ref i. input_AddEntry ref (GetData out' ref) i) (vc_References vc) i"
    if "set (vc_References vc) \<subseteq> reads h vc" for i
    using d that by (intro fold_cong) auto
  show ?thesis
    by (cases "fn_Type (vc_Function vc)")
      (use d f in \<open>auto simp: gatherInput_def reads_def Let_def\<close>)
qed

section \<open>Two runs agree\<close>

text \<open>The entry of a key in the outputs of a run, in terms of its results.\<close>

lemma run_entry:
  assumes inv: "dataInv h w0 L rs"
    and "\<And>ri. ri \<in> set (resultsOf rs) \<Longrightarrow> hasKey ri k \<Longrightarrow> ri = r0"
  shows "gget (output_Get (outputsOf rs)) k =
    (if r0 \<in> set (resultsOf rs) \<and> hasKey r0 k then gget (output_Get (the (ri_Output r0))) k
     else gget (output_Get (curOutputs w0)) k)"
proof -
  have gwf: "\<forall>ri\<in>set (resultsOf rs). \<forall>out. ri_Output ri = Some out \<longrightarrow> gwf (output_Get out)"
    using inv unfolding dataInv_def produces_def writesOnly_def by blast
  have "\<forall>ri\<in>set (resultsOf rs). hasKey ri k \<longrightarrow> ri_Output ri = Some (the (ri_Output r0))"
    using assms(2) by (auto simp: hasKey_def)
  note fold = fold_outputs [OF gwf this, of "curOutputs w0"]
  have o: "outputsOf rs = fold (\<lambda>ri. output_Add (ri_Output ri)) (resultsOf rs) (curOutputs w0)"
    using inv unfolding dataInv_def by blast
  have e: "(\<exists>ri\<in>set (resultsOf rs). hasKey ri k) \<longleftrightarrow> r0 \<in> set (resultsOf rs) \<and> hasKey r0 k"
    using assms(2) by metis
  show ?thesis unfolding o by (rule fold [unfolded e])
qed

text \<open>A result has only keys its vertex declares.\<close>

lemma result_declared:
  assumes "dataInv h w0 L rs" and "ri \<in> set (resultsOf rs)" and "hasKey ri k"
  obtains vc where "GetVertex (h_DAG h) (ri_VertexName ri) = Some vc" and "k \<in> declared vc"
  using assms unfolding dataInv_def produces_def writesOnly_def hasKey_def by blast

text \<open>Two states in which the writer of a key has finished, with the same result, agree on the key.\<close>

lemma same_entry:
  assumes w: "wired h" and inv1: "dataInv h w0 L1 rs1" and inv2: "dataInv h w0 L2 rs2"
    and same: "\<And>r1 r2. r1 \<in> set (resultsOf rs1) \<Longrightarrow> r2 \<in> set (resultsOf rs2) \<Longrightarrow>
      ri_VertexName r1 = ri_VertexName r2 \<Longrightarrow> r1 = r2"
    and done1: "\<And>u uc. GetVertex (h_DAG h) u = Some uc \<Longrightarrow> k \<in> declared uc \<Longrightarrow> \<exists>b. Finished u b \<in> set L1"
    and done2: "\<And>u uc. GetVertex (h_DAG h) u = Some uc \<Longrightarrow> k \<in> declared uc \<Longrightarrow> \<exists>b. Finished u b \<in> set L2"
  shows "gget (output_Get (outputsOf rs1)) k = gget (output_Get (outputsOf rs2)) k"
proof (cases "\<exists>u uc. GetVertex (h_DAG h) u = Some uc \<and> k \<in> declared uc")
  case True
  then obtain u uc where u: "GetVertex (h_DAG h) u = Some uc" "k \<in> declared uc" by blast
  obtain r1 where r1: "r1 \<in> set (resultsOf rs1)" "ri_VertexName r1 = u"
    using done1 [OF u] inv1 by (auto simp: dataInv_def)
  obtain r2 where r2: "r2 \<in> set (resultsOf rs2)" "ri_VertexName r2 = u"
    using done2 [OF u] inv2 by (auto simp: dataInv_def)
  have eq: "r1 = r2" using same r1 r2 by simp
  have only1: "ri = r1" if "ri \<in> set (resultsOf rs1)" "hasKey ri k" for ri
    using result_declared [OF inv1 that] wiredD(1) [OF w u] that(1) same r2 eq by metis
  have only2: "ri = r1" if "ri \<in> set (resultsOf rs2)" "hasKey ri k" for ri
    using result_declared [OF inv2 that] wiredD(1) [OF w u] that(1) same r1 by metis
  show ?thesis using run_entry [OF inv1 only1] run_entry [OF inv2 only2] r1(1) r2(1) eq by simp
next
  case False
  then have none: "\<not> hasKey ri k" if "ri \<in> set (resultsOf rs1) \<or> ri \<in> set (resultsOf rs2)" for ri
    using that False by (elim disjE) (metis result_declared [OF inv1], metis result_declared [OF inv2])
  have "gget (output_Get (outputsOf rs1)) k = gget (output_Get (curOutputs w0)) k"
    using run_entry [OF inv1, of k undefined] none by auto
  moreover have "gget (output_Get (outputsOf rs2)) k = gget (output_Get (curOutputs w0)) k"
    using run_entry [OF inv2, of k undefined] none by auto
  ultimately show ?thesis by simp
qed

text \<open>The state at the start of a vertex.\<close>

lemma input_at_start:
  assumes "schedule (h_DAG h) L" and "dataRun h L w0 = Some rs" and "rs_inputs rs v = Some i"
    and vc: "GetVertex (h_DAG h) v = Some vc"
  shows "\<exists>M N rs'. L = M @ Started v # N \<and> dataRun h M w0 = Some rs' \<and> i = gatherInput h vc (outputsOf rs')"
  using assms(1-3)
proof (induction arbitrary: rs rule: schedule.induct)
  case nothing
  then show ?case by (auto simp: runStart_def)
next
  case (starts L w)
  then obtain rs' wc where rs': "dataRun h L w0 = Some rs'" and wc: "GetVertex (h_DAG h) w = Some wc" and
    rs: "rs = rs'\<lparr>rs_inputs := (rs_inputs rs')(w \<mapsto> gatherInput h wc (outputsOf rs'))\<rparr>"
    by (auto simp: dataRun_snoc split: Option.bind_splits)
  show ?case
  proof (cases "v = w")
    case True
    then show ?thesis using rs rs' starts.prems(2) wc vc by auto
  next
    case False
    then have "rs_inputs rs' v = Some i" using rs starts.prems(2) by simp
    from starts.IH [OF rs' this] show ?thesis by fastforce
  qed
next
  case (finishes L x b)
  then obtain rs' where rs': "dataRun h L w0 = Some rs'" and "rs_inputs rs = rs_inputs rs'"
    by (auto simp: dataRun_snoc split: Option.bind_splits if_splits)
  then have "rs_inputs rs' v = Some i" using finishes.prems(2) by simp
  from finishes.IH [OF rs' this] show ?case by fastforce
qed

text \<open>Results are only appended.\<close>

lemma results_grow:
  assumes "flat h" and "ofold (dataStep h) L rs = Some rs'"
  shows "set (resultsOf rs) \<subseteq> set (resultsOf rs')"
  using assms(2)
proof (rule ofold_rel)
  fix e rs rs'
  assume "dataStep h e rs = Some rs'"
  then show "set (resultsOf rs) \<subseteq> set (resultsOf rs')"
    using completeRun_produces [OF assms(1)]
    by (cases e) (fastforce simp: addResult_def slice_Add_def slice_Get_def split: Option.bind_splits if_splits)+
qed auto

lemma runs_agree:
  assumes f: "flat h" and w: "wired h" and ok: "dag_ok (h_DAG h)" and w0: "slice_Get (curResults w0) = []"
    and s2: "schedule (h_DAG h) L2" and d2: "dataRun h L2 w0 = Some rs2" and s1: "schedule (h_DAG h) L1"
  shows "dataRun h L1 w0 = Some rs1 \<Longrightarrow>
    (\<forall>r1\<in>set (resultsOf rs1). \<forall>r2\<in>set (resultsOf rs2). ri_VertexName r1 = ri_VertexName r2 \<longrightarrow> r1 = r2) \<and>
    (\<forall>v i1 i2. rs_inputs rs1 v = Some i1 \<longrightarrow> rs_inputs rs2 v = Some i2 \<longrightarrow> i1 = i2)"
  using s1
proof (induction arbitrary: rs1 rule: schedule.induct)
  case nothing
  then show ?case using w0 by (auto simp: runStart_def)
next
  case (starts L x)
  then obtain rs' vc where rs': "dataRun h L w0 = Some rs'" and vc: "GetVertex (h_DAG h) x = Some vc" and
    rs1: "rs1 = rs'\<lparr>rs_inputs := (rs_inputs rs')(x \<mapsto> gatherInput h vc (outputsOf rs'))\<rparr>"
    by (auto simp: dataRun_snoc split: Option.bind_splits)
  have sx: "schedule (h_DAG h) (L @ [Started x])" using starts.hyps by (rule schedule.starts)
  have "gatherInput h vc (outputsOf rs') = i2" if i2: "rs_inputs rs2 x = Some i2" for i2
  proof -
    obtain M N r2 where L2: "L2 = M @ Started x # N" and r2: "dataRun h M w0 = Some r2"
      and i2': "i2 = gatherInput h vc (outputsOf r2)"
      using input_at_start [OF s2 d2 i2 vc] by blast
    have sM: "schedule (h_DAG h) (M @ [Started x])" using s2 schedule_prefix [of _ "M @ [Started x]" N] L2 by simp
    have inv: "dataInv h w0 L rs'" by (rule dataInv_run [OF f w0 starts.hyps(1) rs'])
    have inv2: "dataInv h w0 M r2" by (rule dataInv_run [OF f w0 schedule_prefix [OF sM] r2])
    have "set (resultsOf r2) \<subseteq> set (resultsOf rs2)"
      using d2 r2 results_grow [OF f] by (simp add: L2 dataRun_append del: ofold.simps)
    then have same: "r1 = r2'" if "r1 \<in> set (resultsOf rs')" "r2' \<in> set (resultsOf r2)"
      "ri_VertexName r1 = ri_VertexName r2'" for r1 r2'
      using that starts.IH [OF rs'] by blast
    have "gget (output_Get (outputsOf rs')) k = gget (output_Get (outputsOf r2)) k" if k: "k \<in> reads h vc" for k
    proof (rule same_entry [OF w inv inv2 same])
      fix u uc
      assume u: "GetVertex (h_DAG h) u = Some uc" "k \<in> declared uc"
      have "(u, x) \<in> (upedges (h_DAG h))\<^sup>+" using wiredD(2) [OF w u vc k] ok by (simp add: dag_ok_def)
      then show "\<exists>b. Finished u b \<in> set L" "\<exists>b. Finished u b \<in> set M"
        using ancestors_before_start sx sM by blast+
    qed
    then show ?thesis unfolding i2' by (rule gatherInput_cong)
  qed
  then show ?case using starts.IH [OF rs'] rs1 by auto
next
  case (finishes L v b)
  then obtain rs' vc i w' where rs': "dataRun h L w0 = Some rs'" and vc: "GetVertex (h_DAG h) v = Some vc"
    and i: "rs_inputs rs' v = Some i" and run: "completeRun h v vc i (rs_world rs') = Some (b, w')"
    and rs1: "rs1 = rs'\<lparr>rs_world := w'\<rparr>"
    by (auto simp: dataRun_snoc split: Option.bind_splits if_splits)
  obtain ri where ri: "produces h vc i ri" "ri_VertexName ri = v" "w' = addResult ri (rs_world rs')"
    using completeRun_produces [OF f vc run] by blast
  have "ri = r2" if r2: "r2 \<in> set (resultsOf rs2)" "ri_VertexName r2 = v" for r2
  proof -
    obtain i2 where "rs_inputs rs2 v = Some i2" "produces h vc i2 r2"
      using dataInv_result [OF dataInv_run [OF f w0 s2 d2] r2(1)] r2(2) vc by auto
    then show ?thesis using finishes.IH [OF rs'] i ri(1,2) r2(2) produces_unique by metis
  qed
  then show ?case using finishes.IH [OF rs'] ri(2,3)
    by (auto simp: rs1 addResult_def slice_Add_def slice_Get_def)
qed

end
