(* ===== verification/Exec_Run_Theorems.thy ===== *)
theory Exec_Run_Theorems
  imports Exec_Run_Properties
begin

text \<open>
  The properties of a whole run: a vertex reads what the vertices it depends on have written, and neither
  the results nor the outputs depend on the interleaving of the goroutines.  Both hold for graphs
  without blocks whose variables are wired (\<open>wired\<close>), the second for functions on which the random order of Go's
  ranges has no effect (\<open>orderFree\<close>); the environment functions answer the same in both runs.
\<close>

section \<open>A run to compute with\<close>

text \<open>A root, a function that declares \<open>out\<close>, and one that reads it.\<close>

definition rootVertexC :: VertexContext where
  "rootVertexC = \<lparr>vc_VertexName = ''r'', vc_Kind = RootVertexKind, vc_BlockDAG = None,
     vc_Function = Function0\<lparr>fn_Type := RootType\<rparr>, vc_References = [], vc_Outputs = output_New,
     vc_GVKToVarName = []\<rparr>"

definition sliceC :: "string \<Rightarrow> string list \<Rightarrow> VertexContext" where
  "sliceC k refs = (vertexOf (fnOf SliceType Block0 Input0))\<lparr>vc_References := refs, vc_Outputs := outputOf k\<rparr>"

definition chain :: rtdag where
  "chain = Connect ''a'' ''b'' (Connect ''r'' ''a''
     (New\<lparr>vertices := [(''r'', rootVertexC), (''a'', sliceC ''out'' [''r'']), (''b'', sliceC ''res'' [''out''])]\<rparr>))"

definition chainHandler :: execHandler where
  "chainHandler = \<lparr>h_Name = ''r'', h_Type = ExecRootType, h_DAG = chain,
     h_FnMap = functions_Init sampleLib noBlocks ''r''\<rparr>"

definition chainStart :: est where
  "chainStart = \<lparr>threads = [TMain [''r'', ''a'', ''b''], TWait ''r'' [], TExec ''a''], visited = {''r''},
     depClosed = {}, fnClosed = {}, cancelled = False, panicked = False, runLog = []\<rparr>"

definition chainHalf :: est where
  "chainHalf = \<lparr>threads = [TMain [''a'', ''b''], TEnd, TEnd, TSend ''a'' True [''b''], TExec ''b''],
     visited = {''r'', ''a''}, depClosed = {(''r'', ''a'')}, fnClosed = {''r''}, cancelled = False, panicked = False,
     runLog = [Started ''r'', Finished ''r'' True, Started ''a'', Finished ''a'' True]\<rparr>"

definition chainEnd :: est where
  "chainEnd = \<lparr>threads = [TReturned True, TEnd, TEnd, TEnd, TEnd, TEnd],
     visited = {''r'', ''a'', ''b''}, depClosed = {(''r'', ''a''), (''a'', ''b'')}, fnClosed = {''r'', ''a'', ''b''},
     cancelled = False, panicked = False,
     runLog = [Started ''r'', Finished ''r'' True, Started ''a'', Finished ''a'' True, Started ''b'', Finished ''b'' True]\<rparr>"

lemma chain_graph:
  "GetVertices chain = [(''r'', rootVertexC), (''a'', sliceC ''out'' [''r'']), (''b'', sliceC ''res'' [''out''])]"
  "GetDownVertexes chain v = (if v = ''r'' then [''a''] else if v = ''a'' then [''b''] else [])"
  "GetUpVertexes chain v = (if v = ''a'' then [''r''] else if v = ''b'' then [''a''] else [])"
  by (simp_all add: chain_def Connect_def AddUpEdge_def AddDownEdge_def addTo_def New_def GetVertices_def
      GetDownVertexes_def GetUpVertexes_def)

lemma chain_vertex:
  "GetVertex chain v = (if v = ''r'' then Some rootVertexC else if v = ''a'' then Some (sliceC ''out'' [''r''])
     else if v = ''b'' then Some (sliceC ''res'' [''out'']) else None)"
  "VertexExists chain v \<longleftrightarrow> v \<in> {''r'', ''a'', ''b''}"
  using chain_graph(1) by (auto simp: GetVertex_def VertexExists_def GetVertices_def)

lemma chain_edges: "edges chain = {(''r'', ''a''), (''a'', ''b'')}"
  by (auto simp: edges_def chain_graph split: if_splits)

lemma chain_ok: "dag_ok chain"
proof -
  have "upedges chain = edges chain"
    by (auto simp: edges_def upedges_def chain_graph split: if_splits)
  moreover have "gwf (vertices chain)" using chain_graph(1) by (simp add: GetVertices_def)
  ultimately show ?thesis by (simp add: dag_ok_def chain_edges chain_graph)
qed

lemmas chain_steps = run_choices_def act.simps step_exec_def step_mark_def step_start_def step_finish_def
  step_sync_def step_close_dep_def step_fn_done_def step_close_fn_def step_main_end_def threadAt_def
  setThread_def spawn_def orderOf_def doneChs_def chain_graph chain_vertex

lemma chainStart_reachable: "reachable chain ''r'' chainStart"
proof (rule reachable.begin_run)
  show "execute_from chain ''r'' [] [''r'', ''a'', ''b''] = Some chainStart"
    by (simp add: execute_from_def exec_init_def chain_graph chain_vertex orderOf_def chainStart_def)
qed

lemma chainHalf_reachable: "reachable chain ''r'' chainHalf"
proof (rule run_choices_reachable [OF _ chainStart_reachable])
  show "run_choices chain [Exec 2, Mark 2 [''r''], Start 1, Finish 1 True [''a''], Sync 1 3, CloseDep 1,
      FnDone 1 0, CloseFn 1, Start 3, Finish 3 True [''b'']] chainStart = Some chainHalf"
    by (simp add: chain_steps chainStart_def chainHalf_def insert_commute)
qed

lemma chainEnd_reachable: "reachable chain ''r'' chainEnd"
proof (rule run_choices_reachable [OF _ chainHalf_reachable])
  show "run_choices chain [Exec 4, Mark 4 [''a''], Sync 3 5, CloseDep 3, FnDone 3 0, CloseFn 3,
      Start 5, Finish 5 True [], FnDone 5 0, CloseFn 5, MainEnd 0] chainHalf = Some chainEnd"
    by (simp add: chain_steps chainHalf_def chainEnd_def insert_commute)
qed

lemma chain_flat: "flat chainHandler"
  by (auto simp: flat_def chainHandler_def chain_vertex rootVertexC_def sliceC_def vertexOf_def fnOf_def
      Function0_def split: if_splits)

lemma chain_wired: "wired chainHandler"
proof -
  have "(''a'', ''b'') \<in> (edges chain)\<^sup>+" by (auto simp: chain_edges)
  then show ?thesis
    by (auto simp: wired_def chainHandler_def chain_graph rootVertexC_def sliceC_def vertexOf_def fnOf_def
        declared_def outputOf_def outs.get_addEntry outs.get_new reads_def Function0_def)
qed

text \<open>What the functions of the chain return.\<close>

definition chainResult :: "string \<Rightarrow> input \<Rightarrow> out_store \<Rightarrow> ResultInfo" where
  "chainResult v i out = \<lparr>ri_Type = ExecRootType, ri_ExecName = ''r'', ri_VertexName = v, ri_Input = Some i,
     ri_Output = Some out, ri_Success = True, ri_Reason = ''''\<rparr>"

definition emptySlice :: "string \<Rightarrow> out_store" where
  "emptySlice k = output_AddEntry k (AOutputInfo (OutputInfo False False None (ASlice []))) output_New"

lemma chain_functions:
  "completeRun chainHandler v rootVertexC i w = Some (True, addResult (chainResult v i output_New) w)"
  "completeRun chainHandler v (sliceC k refs) i w = Some (True, addResult (chainResult v i (emptySlice k)) w)"
  by (simp_all add: completeRun_def chainHandler_def rootVertexC_def sliceC_def vertexOf_def fnOf_def Function0_def
      fnmap_defs root_Run_def slice_Run_def exec_def blockItems_def HasBlock_def Block0_def execSingle_def
      NewRootFn_def NewSliceFn_def root_getFinalResult_def slice_getFinalResult_def withWorld_def outputOf_def
      outs.get_addEntry outs.get_new Let_def addResult_def chainResult_def emptySlice_def)

definition chainIn :: "string \<Rightarrow> any \<Rightarrow> input" where
  "chainIn k v = input_AddEntry k v input_New"

definition chainState :: "bool \<Rightarrow> runState" where
  "chainState b = \<lparr>rs_inputs = (if b then (\<lambda>m. m(''b'' \<mapsto> chainIn ''out'' (ASlice []))) else (\<lambda>m. m))
       [''r'' \<mapsto> input_New, ''a'' \<mapsto> chainIn ''r'' ANil],
     rs_world = (if b then addResult (chainResult ''b'' (chainIn ''out'' (ASlice [])) (emptySlice ''res'')) else (\<lambda>w. w))
       (addResult (chainResult ''a'' (chainIn ''r'' ANil) (emptySlice ''out''))
         (addResult (chainResult ''r'' input_New output_New) world0))\<rparr>"

lemma chain_outputs:
  "curOutputs (addResult (chainResult v i out) w) = output_Add (Some out) (curOutputs w)"
  "slice_Get (curResults (addResult (chainResult v i out) w)) = slice_Get (curResults w) @ [chainResult v i out]"
  by (simp_all add: addResult_def chainResult_def slice_Add_def slice_Get_def)

lemma chain_gather:
  "gatherInput chainHandler rootVertexC out = input_New"
  "gatherInput chainHandler (sliceC k' [k]) out = chainIn k (GetData out k)"
  by (simp_all add: gatherInput_def rootVertexC_def sliceC_def vertexOf_def fnOf_def Function0_def chainIn_def Let_def)

lemma chain_data:
  "GetData (curOutputs world0) k = ANil"
  "output_Add (Some output_New) out = out"
  "GetData (output_Add (Some (emptySlice k)) out) k = ASlice []"
proof -
  show "GetData (curOutputs world0) k = ANil" by (simp add: GetData_def world0_def outs.getValue outs.get_new)
  show "output_Add (Some output_New) out = out"
    by (simp add: output_Add_def output_New_def kv_Add_def kv_Get_d kv_New_def)
  show "GetData (output_Add (Some (emptySlice k)) out) k = ASlice []"
    by (simp add: GetData_def outs.getValue outs.get_add emptySlice_def outs.get_addEntry outs.get_new)
qed

lemma chainHalf_run: "dataRun chainHandler (runLog chainHalf) world0 = Some (chainState False)"
  by (simp add: dataRun_def chainHalf_def runStart_def chain_functions chain_vertex chain_gather chain_outputs
      chain_data chainState_def chainHandler_def [THEN arg_cong, of h_DAG])

lemma chainEnd_run: "dataRun chainHandler (runLog chainEnd) world0 = Some (chainState True)"
  by (simp add: dataRun_def chainEnd_def runStart_def chain_functions chain_vertex chain_gather chain_outputs
      chain_data chainState_def chainHandler_def [THEN arg_cong, of h_DAG])

section \<open>Data flow\<close>

text \<open>C6: In a graph without blocks in which every variable has one writer, with a path from it to every reader, the
  value that a vertex which is neither the root nor an image gets for a reference is the value that the vertex
  declaring it has written, which finished before; when that vertex wrote nothing (it failed, its condition was
  false or it had nothing to run) it is the value at the start of the run, usually nil.\<close>

theorem dependency_output_is_input:
  assumes "flat h" and "wired h" and "dag_ok (h_DAG h)" and "slice_Get (curResults w0) = []"
    and "reachable (h_DAG h) root s" and "dataRun h (runLog s) w0 = Some rs"
    and "GetVertex (h_DAG h) u = Some uc" and "k \<in> declared uc"
    and "GetVertex (h_DAG h) v = Some vc" and "k \<in> set (vc_References vc)"
    and "fn_Type (vc_Function vc) \<notin> {RootType, ContainerType, WasmType}" and "rs_inputs rs v = Some i"
  shows "\<exists>ri\<in>set (resultsOf rs). ri_VertexName ri = u \<and>
    input_GetValue i k = GetData (if hasKey ri k then the (ri_Output ri) else curOutputs w0) k"
proof -
  have sched: "schedule (h_DAG h) (runLog s)" by (rule schedule_runLog [OF assms(3,5)])
  obtain M N rs' where L: "runLog s = M @ Started v # N" and M: "dataRun h M w0 = Some rs'"
    and i: "i = gatherInput h vc (outputsOf rs')"
    using input_at_start [OF sched assms(6,12,9)] by blast
  have sM: "schedule (h_DAG h) (M @ [Started v])" using sched schedule_prefix [of _ "M @ [Started v]" N] L by simp
  note inv = dataInv_run [OF assms(1,4) schedule_prefix [OF sM] M]
  note agree = runs_agree [OF assms(1-4) schedule_prefix [OF sM] M schedule_prefix [OF sM] M]
  have "k \<in> reads h vc" using assms(10,11) by (simp add: reads_def)
  then have "(u, v) \<in> (upedges (h_DAG h))\<^sup>+"
    using wiredD(2) [OF assms(2,7,8,9)] assms(3) by (simp add: dag_ok_def)
  then obtain b where "Finished u b \<in> set M" using ancestors_before_start [OF sM] by blast
  then obtain ri where ri: "ri \<in> set (resultsOf rs')" "ri_VertexName ri = u"
    using inv by (auto simp: dataInv_def)
  have only: "r = ri" if "r \<in> set (resultsOf rs')" "hasKey r k" for r
    using result_declared [OF inv that] wiredD(1) [OF assms(2,7,8)] agree that(1) ri by metis
  have "GetData (outputsOf rs') k = GetData (if hasKey ri k then the (ri_Output ri) else curOutputs w0) k"
    using run_entry [OF inv only] ri(1) by (simp add: GetData_def outs.getValue)
  moreover have "input_GetValue i k = GetData (outputsOf rs') k"
    using assms(10,11) by (auto simp: i ins.getValue gatherInput_def Let_def fold_refs split: FunctionType.splits)
  moreover have "ri \<in> set (resultsOf rs)"
    using results_grow [OF assms(1)] assms(6) M ri(1) by (auto simp: L dataRun_append simp del: ofold.simps)
  ultimately show ?thesis using ri(2) by (intro bexI [of _ ri]) simp_all
qed

lemma chain_handler: "h_DAG chainHandler = chain"
  by (simp add: chainHandler_def)

lemma chain_start: "slice_Get (curResults world0) = []"
  by (simp add: world0_def slice_Get_def slice_New_def)

theorem dependency_output_is_input_witness:
  "\<exists>ri\<in>set (resultsOf (chainState True)). ri_VertexName ri = ''a'' \<and>
    input_GetValue (chainIn ''out'' (ASlice [])) ''out'' =
      GetData (if hasKey ri ''out'' then the (ri_Output ri) else curOutputs world0) ''out''"
proof (rule dependency_output_is_input [where root = "''r''" and v = "''b''" and vc = "sliceC ''res'' [''out'']",
      OF chain_flat chain_wired _ chain_start _ chainEnd_run])
  show "''out'' \<in> declared (sliceC ''out'' [''r''])"
    by (simp add: declared_def sliceC_def outputOf_def outs.get_addEntry outs.get_new)
  show "''out'' \<in> set (vc_References (sliceC ''res'' [''out'']))" by (simp add: sliceC_def)
  show "fn_Type (vc_Function (sliceC ''res'' [''out''])) \<notin> {RootType, ContainerType, WasmType}"
    by (simp add: sliceC_def vertexOf_def fnOf_def)
qed (simp_all add: chain_handler chain_ok chainEnd_reachable chain_vertex chainState_def)

section \<open>The interleaving does not matter\<close>

lemma chain_results:
  "resultsOf (chainState b) = [chainResult ''r'' input_New output_New,
     chainResult ''a'' (chainIn ''r'' ANil) (emptySlice ''out'')] @
     (if b then [chainResult ''b'' (chainIn ''out'' (ASlice [])) (emptySlice ''res'')] else [])"
  "ri_VertexName (chainResult v i out) = v"
  by (simp_all add: chainState_def chain_outputs chain_start) (simp add: chainResult_def)

text \<open>C5: Take a graph whose functions are no blocks and no images, have at most one local variable each and declare
  only \<open>OutputInfo\<close>s, in which every variable has one writer, with a path from it to every reader.  Two
  runs over it from the same outputs and no results, in which the functions of the library (gojq, templates, the
  cluster) answer alike, however their goroutines interleave, however far they got and whatever order Go chose for the
  ranges over local variables and inputs in each of them, give a vertex that finished in both the same result:
  input, output, success and reason.\<close>

theorem run_is_deterministic:
  assumes "orderFree h" and "wired h" and "dag_ok (h_DAG h)" and "slice_Get (curResults w0) = []"
    and "reachable (h_DAG h) root s1"
    and "dataRun (h\<lparr>h_FnMap := functions_Init (withOrders vo1 io1 L) B rn\<rparr>) (runLog s1) w0 = Some rs1"
    and "reachable (h_DAG h) root' s2"
    and "dataRun (h\<lparr>h_FnMap := functions_Init (withOrders vo2 io2 L) B rn\<rparr>) (runLog s2) w0 = Some rs2"
    and "r1 \<in> set (resultsOf rs1)" and "r2 \<in> set (resultsOf rs2)" and "ri_VertexName r1 = ri_VertexName r2"
  shows "r1 = r2"
proof -
  let ?h = "h\<lparr>h_FnMap := functions_Init L B rn\<rparr>"
  have dag: "h_DAG ?h = h_DAG h" by simp
  have flat: "flat ?h" using assms(1) by (auto simp: flat_def orderFree_def)
  have "reads ?h = reads h" by (simp add: fun_eq_iff reads_def)
  then have wired: "wired ?h" using assms(2) by (simp add: wired_def)
  note run = assms(6) [unfolded dataRun_order [OF assms(1)]] assms(8) [unfolded dataRun_order [OF assms(1)]]
  show ?thesis
    using runs_agree [of ?h, unfolded dag, OF flat wired assms(3,4) schedule_runLog [OF assms(3,7)] run(2)
        schedule_runLog [OF assms(3,5)] run(1)] assms(9-11) by blast
qed

lemma chain_orderFree: "orderFree chainHandler"
  by (auto simp: orderFree_def chainHandler_def chain_vertex rootVertexC_def sliceC_def vertexOf_def fnOf_def
      Function0_def outputOf_def outs.get_addEntry outs.get_new split: if_splits)

lemma chain_plain: "chainHandler\<lparr>h_FnMap := functions_Init sampleLib noBlocks ''r''\<rparr> = chainHandler"
  by (simp add: chainHandler_def)

lemma chain_any_order:
  "dataRun (chainHandler\<lparr>h_FnMap := functions_Init (withOrders vo io sampleLib) noBlocks ''r''\<rparr>) M w = dataRun chainHandler M w"
  by (rule trans [OF dataRun_order [OF chain_orderFree]]) (simp only: chain_plain)

theorem run_is_deterministic_witness:
  "chainResult ''a'' (chainIn ''r'' ANil) (emptySlice ''out'') =
   hd (filter (\<lambda>r. ri_VertexName r = ''a'') (resultsOf (chainState True)))"
proof (rule run_is_deterministic [where root = "''r''" and root' = "''r''", OF chain_orderFree chain_wired _ chain_start])
  show "dataRun (chainHandler\<lparr>h_FnMap := functions_Init (withOrders (\<lambda>_ _. []) (\<lambda>_. []) sampleLib) noBlocks ''r''\<rparr>)
      (runLog chainHalf) world0 = Some (chainState False)"
    by (rule trans [OF chain_any_order chainHalf_run])
  show "dataRun (chainHandler\<lparr>h_FnMap := functions_Init (withOrders (\<lambda>_ _. [1]) (\<lambda>_. [1]) sampleLib) noBlocks ''r''\<rparr>)
      (runLog chainEnd) world0 = Some (chainState True)"
    by (rule trans [OF chain_any_order chainEnd_run])
qed (simp_all add: chain_handler chain_ok chain_results chainHalf_reachable chainEnd_reachable)

text \<open>For two local variables that read each other the order does matter: the one sees the other, or is refused.\<close>

definition orderedVars :: Function where
  "orderedVars = Function0\<lparr>fn_Vars := [(''a'', ''$xs''), (''b'', ''$a'')]\<rparr>"

lemma local_variables_depend_on_order:
  "fst (resolveLocalVars (withOrders (\<lambda>_ _. [0]) io sampleLib) orderedVars xsInput) = None"
  "fst (resolveLocalVars (withOrders (\<lambda>_ _. [1]) io sampleLib) orderedVars xsInput) = Some (FnErr ''variable not defined'')"
  by (simp_all add: resolveLocalVars_def resolveVars_order orderedVars_def withOrders_def sampleLib_def sampleGojq_def runJQ_def
      varNames_def varValues_def xsInput_def ins.get_addEntry ins.get_new)

text \<open>Two successful runs over the same graph leave the same value for every variable.\<close>

lemma successful_runs_same_outputs:
  assumes "flat h" and "wired h" and "dag_ok (h_DAG h)" and "slice_Get (curResults w0) = []"
    and "reachable (h_DAG h) root s1" and "dataRun h (runLog s1) w0 = Some rs1"
    and "reachable (h_DAG h) root s2" and "dataRun h (runLog s2) w0 = Some rs2"
    and "TReturned True \<in> set (threads s1)" and "TReturned True \<in> set (threads s2)"
  shows "gget (output_Get (outputsOf rs1)) = gget (output_Get (outputsOf rs2))"
proof
  fix k
  note sched = schedule_runLog [OF assms(3,5)] schedule_runLog [OF assms(3,7)]
  have ex: "VertexExists (h_DAG h) u" if "GetVertex (h_DAG h) u = Some uc" for u uc
    using that by (simp add: VertexExists_def GetVertex_def)
  show "gget (output_Get (outputsOf rs1)) k = gget (output_Get (outputsOf rs2)) k"
  proof (rule same_entry [OF assms(2) dataInv_run [OF assms(1,4) sched(1) assms(6)]
        dataInv_run [OF assms(1,4) sched(2) assms(8)]])
    show "r1 = r2" if "r1 \<in> set (resultsOf rs1)" "r2 \<in> set (resultsOf rs2)" "ri_VertexName r1 = ri_VertexName r2"
      for r1 r2
      using runs_agree [OF assms(1-4) sched(2) assms(8) sched(1) assms(6)] that by blast
  qed (use success_finished(1) [OF assms(5,9)] success_finished(1) [OF assms(7,10)] ex in blast)+
qed

lemma chain_success: "TReturned True \<in> set (threads chainEnd)"
  by (simp add: chainEnd_def)

theorem successful_runs_same_outputs_witness:
  "gget (output_Get (outputsOf (chainState True))) = gget (output_Get (outputsOf (chainState True)))"
  by (rule successful_runs_same_outputs [where root = "''r''", OF chain_flat chain_wired _ chain_start _ chainEnd_run _ chainEnd_run])
    (simp_all add: chain_handler chain_ok chainEnd_reachable chain_success)

end
