(* ===== verification/Controllerutil.thy ===== *)
theory Controllerutil
  imports Meta
begin

text \<open>
  pkg/controller/controllerutil/controllerutil.go: owner references, create-or-update and
  create-or-patch, and the finalizer helpers of that package.

  What the file takes from k8s is the parameter \<open>objlib\<close>: the kind of an object, the text of
  a group and version, the controller reference of an object, the conversion from and to nested maps and its
  helpers, and the comparison of objects.
\<close>

record objlib =
  ol_k8s :: k8slib
  gvkForObject :: "kobj \<Rightarrow> string + gvk"
  isRuntimeObject :: "kobj \<Rightarrow> bool"
  GroupVersionString :: "string \<Rightarrow> string \<Rightarrow> string"
  GetControllerOf :: "kobj \<Rightarrow> OwnerReference option"
  ToUnstructured :: "kobj \<Rightarrow> string + (string, any) gmap"
  FromUnstructured :: "(string, any) gmap \<Rightarrow> kobj \<Rightarrow> string + kobj"
  NestedFieldCopy :: "(string, any) gmap \<Rightarrow> string \<Rightarrow> string + any option"
  RemoveNestedField :: "(string, any) gmap \<Rightarrow> string \<Rightarrow> (string, any) gmap"
  SetNestedField :: "(string, any) gmap \<Rightarrow> any \<Rightarrow> string \<Rightarrow> string + (string, any) gmap"
  SemanticDeepEqual :: "kobj \<Rightarrow> kobj \<Rightarrow> bool"
  DeepEqual :: "(string, any) gmap \<Rightarrow> (string, any) gmap \<Rightarrow> bool"

section \<open>Owner references\<close>

datatype ownerErr = AlreadyOwnedError OwnerReference | OwnerErr string

definition validateOwner :: "kobj \<Rightarrow> kobj \<Rightarrow> ownerErr option" where
  "validateOwner owner ob =
     (if ko_Namespace owner \<noteq> '''' then
        if ko_Namespace ob = '''' then Some (OwnerErr ''cluster-scoped resource must not have a namespace-scoped owner'')
        else if ko_Namespace owner \<noteq> ko_Namespace ob then Some (OwnerErr ''cross-namespace owner references are disallowed'')
        else None
      else None)"

definition referSameObject :: "objlib \<Rightarrow> OwnerReference \<Rightarrow> OwnerReference \<Rightarrow> bool" where
  "referSameObject L a b =
     (case ParseGroupVersion (ol_k8s L) (or_APIVersion a) of
        Inl err \<Rightarrow> False
      | Inr (aGroup, aVersion) \<Rightarrow>
          (case ParseGroupVersion (ol_k8s L) (or_APIVersion b) of
             Inl err \<Rightarrow> False
           | Inr (bGroup, bVersion) \<Rightarrow> aGroup = bGroup \<and> or_Kind a = or_Kind b \<and> or_Name a = or_Name b))"

text \<open>\<open>None\<close> is the index -1.\<close>

fun indexOwnerRef :: "objlib \<Rightarrow> OwnerReference list \<Rightarrow> OwnerReference \<Rightarrow> nat option" where
  "indexOwnerRef L [] ref = None"
| "indexOwnerRef L (r # rs) ref =
     (if referSameObject L r ref then Some 0 else map_option Suc (indexOwnerRef L rs ref))"

definition upsertOwnerRef :: "objlib \<Rightarrow> OwnerReference \<Rightarrow> kobj \<Rightarrow> kobj" where
  "upsertOwnerRef L ref ob =
     (case indexOwnerRef L (ko_OwnerReferences ob) ref of
        None \<Rightarrow> ob\<lparr>ko_OwnerReferences := ko_OwnerReferences ob @ [ref]\<rparr>
      | Some idx \<Rightarrow> ob\<lparr>ko_OwnerReferences := (ko_OwnerReferences ob)[idx := ref]\<rparr>)"

definition ownerRefOf :: "objlib \<Rightarrow> kobj \<Rightarrow> gvk \<Rightarrow> bool option \<Rightarrow> OwnerReference" where
  "ownerRefOf L owner gvk b =
     \<lparr>or_APIVersion = GroupVersionString L (gvk_Group gvk) (gvk_Version gvk), or_Kind = gvk_Kind gvk,
      or_Name = ko_Name owner, or_UID = ko_UID owner, or_BlockOwnerDeletion = b, or_Controller = b\<rparr>"

definition SetControllerReference :: "objlib \<Rightarrow> kobj \<Rightarrow> kobj \<Rightarrow> ownerErr option \<times> kobj" where
  "SetControllerReference L owner controlled =
     (if \<not> isRuntimeObject L owner then (Some (OwnerErr ''not a runtime.Object''), controlled)
      else case validateOwner owner controlled of
        Some err \<Rightarrow> (Some err, controlled)
      | None \<Rightarrow>
          (case gvkForObject L owner of
             Inl err \<Rightarrow> (Some (OwnerErr err), controlled)
           | Inr gvk \<Rightarrow>
               (let ref = ownerRefOf L owner gvk (Some True)
                in case GetControllerOf L controlled of
                     Some existing \<Rightarrow>
                       if \<not> referSameObject L existing ref
                       then (Some (AlreadyOwnedError existing), controlled)
                       else (None, upsertOwnerRef L ref controlled)
                   | None \<Rightarrow> (None, upsertOwnerRef L ref controlled))))"

definition SetOwnerReference :: "objlib \<Rightarrow> kobj \<Rightarrow> kobj \<Rightarrow> ownerErr option \<times> kobj" where
  "SetOwnerReference L owner ob =
     (if \<not> isRuntimeObject L owner then (Some (OwnerErr ''not a runtime.Object''), ob)
      else case validateOwner owner ob of
        Some err \<Rightarrow> (Some err, ob)
      | None \<Rightarrow>
          (case gvkForObject L owner of
             Inl err \<Rightarrow> (Some (OwnerErr err), ob)
           | Inr gvk \<Rightarrow> (None, upsertOwnerRef L (ownerRefOf L owner gvk None) ob)))"

section \<open>Create or update\<close>

datatype OperationResult = OperationResultNone | OperationResultCreated | OperationResultUpdated
| OperationResultUpdatedStatus | OperationResultUpdatedStatusOnly

type_synonym MutateFn = "kobj \<Rightarrow> string option \<times> kobj"

definition objectKey :: "kobj \<Rightarrow> string \<times> string" where
  "objectKey ob = (ko_Namespace ob, ko_Name ob)"

text \<open>Calling a nil \<open>MutateFn\<close> panics.\<close>

definition mutate :: "MutateFn option \<Rightarrow> string \<times> string \<Rightarrow> kobj \<Rightarrow> (kerr option \<times> kobj) go" where
  "mutate f key ob = do {
     f \<leftarrow> f;
     (case f ob of
        (Some err, ob) \<Rightarrow> Some (Some (KErr err), ob)
      | (None, ob) \<Rightarrow>
          Some (if key \<noteq> objectKey ob
                then (Some (KErr ''MutateFn cannot mutate object name and/or object namespace''), ob)
                else (None, ob))) }"

type_synonym 'c opResult = "OperationResult \<times> kerr option \<times> kobj \<times> 'c"

definition createIt :: "'c kclient \<Rightarrow> kobj \<Rightarrow> 'c \<Rightarrow> 'c opResult" where
  "createIt cl ob c =
     (case cl_Create cl ob c of
        (Some err, ob, c) \<Rightarrow> (OperationResultNone, Some err, ob, c)
      | (None, ob, c) \<Rightarrow> (OperationResultCreated, None, ob, c))"

definition CreateOrUpdate :: "objlib \<Rightarrow> 'c kclient \<Rightarrow> kobj \<Rightarrow> MutateFn option \<Rightarrow> 'c \<Rightarrow> 'c opResult go" where
  "CreateOrUpdate L cl ob f c =
     (let key = objectKey ob in
      case cl_Get cl key ob c of
        (Some err, ob) \<Rightarrow>
          if \<not> IsNotFound err then Some (OperationResultNone, Some err, ob, c)
          else do {
            (err, ob) \<leftarrow> mutate f key ob;
            (case err of
               Some e \<Rightarrow> Some (OperationResultNone, Some e, ob, c)
             | None \<Rightarrow> Some (createIt cl ob c)) }
      | (None, ob) \<Rightarrow> do {
          (err, ob') \<leftarrow> mutate f key ob;
          (case err of
             Some e \<Rightarrow> Some (OperationResultNone, Some e, ob', c)
           | None \<Rightarrow>
               Some (if SemanticDeepEqual L ob ob' then (OperationResultNone, None, ob', c)
                     else case cl_Update cl ob' c of
                       (Some e, ob', c) \<Rightarrow> (OperationResultNone, Some e, ob', c)
                     | (None, ob', c) \<Rightarrow> (OperationResultUpdated, None, ob', c))) })"

section \<open>Create or patch\<close>

text \<open>An object as nested maps without its status, the status or nil, and whether it has one.\<close>

definition splitStatus :: "objlib \<Rightarrow> kobj \<Rightarrow> string + (string, any) gmap \<times> any \<times> bool" where
  "splitStatus L ob =
     (case ToUnstructured L ob of
        Inl err \<Rightarrow> Inl err
      | Inr u \<Rightarrow>
          (case NestedFieldCopy L u ''status'' of
             Inl err \<Rightarrow> Inl err
           | Inr None \<Rightarrow> Inr (u, ANil, False)
           | Inr (Some st) \<Rightarrow> Inr (RemoveNestedField L u ''status'', st, True)))"

definition mutateIf :: "MutateFn option \<Rightarrow> string \<times> string \<Rightarrow> kobj \<Rightarrow> (kerr option \<times> kobj) go" where
  "mutateIf f key ob = (case f of None \<Rightarrow> Some (None, ob) | Some _ \<Rightarrow> mutate f key ob)"

text \<open>The status the caller wants, put back on the object the first patch returned.\<close>

definition restoreStatus :: "objlib \<Rightarrow> any \<Rightarrow> kobj \<Rightarrow> string + kobj" where
  "restoreStatus L afterStatus ob =
     (case ToUnstructured L ob of
        Inl err \<Rightarrow> Inl err
      | Inr u \<Rightarrow>
          (case SetNestedField L u afterStatus ''status'' of
             Inl err \<Rightarrow> Inl err
           | Inr u \<Rightarrow> FromUnstructured L u ob))"

definition patchStatus :: "objlib \<Rightarrow> 'c kclient \<Rightarrow> kobj \<Rightarrow> any \<Rightarrow> OperationResult \<Rightarrow> kobj \<Rightarrow> 'c \<Rightarrow> 'c opResult" where
  "patchStatus L cl orig afterStatus result ob c =
     (case (if result = OperationResultUpdated then restoreStatus L afterStatus ob else Inr ob) of
        Inl err \<Rightarrow> (result, Some (KErr err), ob, c)
      | Inr ob \<Rightarrow>
          (case cl_PatchStatus cl (MergeFrom orig) ob c of
             (Some err, ob, c) \<Rightarrow> (result, Some err, ob, c)
           | (None, ob, c) \<Rightarrow>
               (if result = OperationResultUpdated then OperationResultUpdatedStatus
                else OperationResultUpdatedStatusOnly, None, ob, c)))"

definition CreateOrPatch :: "objlib \<Rightarrow> 'c kclient \<Rightarrow> kobj \<Rightarrow> MutateFn option \<Rightarrow> 'c \<Rightarrow> 'c opResult go" where
  "CreateOrPatch L cl ob f c =
     (let key = objectKey ob in
      case cl_Get cl key ob c of
        (Some err, ob) \<Rightarrow>
          if \<not> IsNotFound err then Some (OperationResultNone, Some err, ob, c)
          else do {
            (err, ob) \<leftarrow> mutateIf f key ob;
            (case err of
               Some e \<Rightarrow> Some (OperationResultNone, Some e, ob, c)
             | None \<Rightarrow> Some (createIt cl ob c)) }
      | (None, orig) \<Rightarrow>
          (case splitStatus L orig of
             Inl err \<Rightarrow> Some (OperationResultNone, Some (KErr err), orig, c)
           | Inr (before, beforeStatus, hasBeforeStatus) \<Rightarrow> do {
               (err, ob) \<leftarrow> mutateIf f key orig;
               (case err of
                  Some e \<Rightarrow> Some (OperationResultNone, Some e, ob, c)
                | None \<Rightarrow>
                    (case splitStatus L ob of
                       Inl err \<Rightarrow> Some (OperationResultNone, Some (KErr err), ob, c)
                     | Inr (after, afterStatus, hasAfterStatus) \<Rightarrow>
                         Some (case (if \<not> DeepEqual L before after then
                                  (case cl_Patch cl (MergeFrom orig) ob c of
                                     (Some e, ob, c) \<Rightarrow> (OperationResultNone, Some e, ob, c)
                                   | (None, ob, c) \<Rightarrow> (OperationResultUpdated, None, ob, c))
                                else (OperationResultNone, None, ob, c)) of
                             (result, Some e, ob, c) \<Rightarrow> (result, Some e, ob, c)
                           | (result, None, ob, c) \<Rightarrow>
                               if (hasBeforeStatus \<or> hasAfterStatus) \<and> beforeStatus \<noteq> afterStatus
                               then patchStatus L cl orig afterStatus result ob c
                               else (result, None, ob, c)))) }))"

section \<open>Finalizers\<close>

definition cuAddFinalizer :: "kobj \<Rightarrow> string \<Rightarrow> bool \<times> kobj" where
  "cuAddFinalizer ob finalizer =
     (if hasFinalizer (ko_Finalizers ob) finalizer then (False, ob)
      else (True, ob\<lparr>ko_Finalizers := ko_Finalizers ob @ [finalizer]\<rparr>))"

function cuRemoveLoop :: "string \<Rightarrow> nat \<Rightarrow> string list \<Rightarrow> bool \<Rightarrow> bool \<times> string list" where
  "cuRemoveLoop finalizer n f finalizersUpdated =
     (if n < length f then
        if f ! n = finalizer then cuRemoveLoop finalizer n (take n f @ drop (n + 1) f) True
        else cuRemoveLoop finalizer (n + 1) f finalizersUpdated
      else (finalizersUpdated, f))"
  by pat_completeness auto
termination
  by (relation "measure (\<lambda>(finalizer, n, f, b). length f - n)") auto

declare cuRemoveLoop.simps [simp del]

definition cuRemoveFinalizer :: "kobj \<Rightarrow> string \<Rightarrow> bool \<times> kobj" where
  "cuRemoveFinalizer ob finalizer =
     (case cuRemoveLoop finalizer 0 (ko_Finalizers ob) False of
        (finalizersUpdated, f) \<Rightarrow> (finalizersUpdated, ob\<lparr>ko_Finalizers := f\<rparr>))"

definition ContainsFinalizer :: "kobj \<Rightarrow> string \<Rightarrow> bool" where
  "ContainsFinalizer ob finalizer = hasFinalizer (ko_Finalizers ob) finalizer"

end
