(* ===== verification/Controllerutil_Properties.thy ===== *)
theory Controllerutil_Properties
  imports Controllerutil
begin

text \<open>
  The owner references of an object keep at most one controller, the two finalizer removers of the
  repository agree where the one of pkg/meta is right, and create-or-update writes at most once, to
  the object it was called for.
\<close>

section \<open>Finalizers\<close>

lemma cuRemoveLoop_filter:
  "n \<le> length f \<Longrightarrow> cuRemoveLoop x n f b =
     (b \<or> x \<in> set (drop n f), take n f @ filter (\<lambda>e. e \<noteq> x) (drop n f))"
proof (induction x n f b rule: cuRemoveLoop.induct)
  case (1 x n f b)
  show ?case
  proof (cases "n < length f")
    case True
    have d: "drop n f = f ! n # drop (Suc n) f" using True by (rule Cons_nth_drop_Suc [symmetric])
    show ?thesis
      using 1 True by (subst cuRemoveLoop.simps) (auto simp: d take_Suc_conv_app_nth)
  qed (use 1 in \<open>simp add: cuRemoveLoop.simps\<close>)
qed

lemma cuRemoveFinalizer_filter:
  "cuRemoveFinalizer ob x =
    (x \<in> set (ko_Finalizers ob), ob\<lparr>ko_Finalizers := filter (\<lambda>e. e \<noteq> x) (ko_Finalizers ob)\<rparr>)"
  by (simp add: cuRemoveFinalizer_def cuRemoveLoop_filter)

text \<open>The two removers of the repository agree on every object that has the finalizer at most once; the
  one of controllerutil always removes all its occurrences and says whether there were any.\<close>

lemma removers_agree:
  assumes "count_list (ko_Finalizers ob) finalizer \<le> 1"
  shows "RemoveFinalizer ob finalizer = Some (snd (cuRemoveFinalizer ob finalizer)) \<and>
    cuRemoveFinalizer ob finalizer = (ContainsFinalizer ob finalizer,
      ob\<lparr>ko_Finalizers := filter (\<lambda>e. e \<noteq> finalizer) (ko_Finalizers ob)\<rparr>)"
proof (cases "count_list (ko_Finalizers ob) finalizer = 1")
  case True
  then show ?thesis using RemoveFinalizer_once [OF True] by (simp add: cuRemoveFinalizer_filter ContainsFinalizer_def)
next
  case False
  then have no: "finalizer \<notin> set (ko_Finalizers ob)" using assms
    by (metis count_list_0_iff less_one nat_less_le)
  then have "\<forall>n\<in>set [0..<length (ko_Finalizers ob)]. ko_Finalizers ob ! n \<noteq> finalizer" by (auto simp: nth_mem)
  then have "RemoveFinalizer ob finalizer = Some ob" by (simp add: RemoveFinalizer_def removeStep_none)
  moreover have "filter (\<lambda>e. e \<noteq> finalizer) (ko_Finalizers ob) = ko_Finalizers ob"
    using no by (auto simp: filter_id_conv)
  ultimately show ?thesis by (simp add: cuRemoveFinalizer_filter ContainsFinalizer_def no)
qed

theorem removers_agree_witness:
  "RemoveFinalizer sampleObject ''x'' = Some (snd (cuRemoveFinalizer sampleObject ''x''))"
  using removers_agree [of sampleObject "''x''"] by (simp add: sampleObject_def)

section \<open>Owner references\<close>

lemma find_mem: "find P xs = Some e \<Longrightarrow> P e \<and> e \<in> set xs"
  by (induction xs) (auto split: if_splits)

lemma find_ex: "x \<in> set xs \<Longrightarrow> P x \<Longrightarrow> \<exists>e. find P xs = Some e"
  by (induction xs) auto

definition isController :: "OwnerReference \<Rightarrow> bool" where
  "isController r \<longleftrightarrow> or_Controller r = Some True"

definition distinctOwners :: "objlib \<Rightarrow> OwnerReference list \<Rightarrow> bool" where
  "distinctOwners L rs \<longleftrightarrow> sorted_wrt (\<lambda>a b. \<not> referSameObject L a b) rs"

lemma referSameObject_sym: "referSameObject L a b \<Longrightarrow> referSameObject L b a"
  by (auto simp: referSameObject_def split: sum.splits prod.splits)

lemma referSameObject_trans: "referSameObject L a b \<Longrightarrow> referSameObject L b c \<Longrightarrow> referSameObject L a c"
  by (auto simp: referSameObject_def split: sum.splits prod.splits)

text \<open>The index is that of the only reference to the same object.\<close>

lemma indexOwnerRef_split:
  "indexOwnerRef L rs ref = Some n \<Longrightarrow> \<exists>xs r ys. rs = xs @ r # ys \<and> length xs = n \<and> referSameObject L r ref"
proof (induction rs arbitrary: n)
  case (Cons a rs)
  show ?case
  proof (cases "referSameObject L a ref")
    case True
    then show ?thesis using Cons.prems by (intro exI [of _ "[]"]) simp
  next
    case False
    then obtain m where m: "indexOwnerRef L rs ref = Some m" "n = Suc m" using Cons.prems by auto
    then obtain xs r ys where "rs = xs @ r # ys" "length xs = m" "referSameObject L r ref"
      using Cons.IH by blast
    then show ?thesis using m(2) by (intro exI [of _ "a # xs"]) simp
  qed
qed simp

lemma indexOwnerRef_None: "indexOwnerRef L rs ref = None \<longleftrightarrow> (\<forall>r\<in>set rs. \<not> referSameObject L r ref)"
  by (induction rs) auto

lemma upsertOwnerRef_cases:
  obtains (new) "\<forall>r\<in>set (ko_OwnerReferences ob). \<not> referSameObject L r ref"
      "ko_OwnerReferences (upsertOwnerRef L ref ob) = ko_OwnerReferences ob @ [ref]"
  | (old) xs r ys where "ko_OwnerReferences ob = xs @ r # ys" "referSameObject L r ref"
      "ko_OwnerReferences (upsertOwnerRef L ref ob) = xs @ ref # ys"
proof (cases "indexOwnerRef L (ko_OwnerReferences ob) ref")
  case None
  then have "upsertOwnerRef L ref ob = ob\<lparr>ko_OwnerReferences := ko_OwnerReferences ob @ [ref]\<rparr>"
    by (simp add: upsertOwnerRef_def)
  then show ?thesis using new indexOwnerRef_None [THEN iffD1, OF None] by simp
next
  case (Some n)
  then obtain xs r ys where "ko_OwnerReferences ob = xs @ r # ys" "length xs = n" "referSameObject L r ref"
    using indexOwnerRef_split by blast
  then show ?thesis using old [of xs r ys] Some by (simp add: upsertOwnerRef_def list_update_append)
qed

text \<open>Setting an owner keeps the references pointing to different objects.\<close>

lemma upsertOwnerRef_distinct:
  assumes "distinctOwners L (ko_OwnerReferences ob)"
  shows "distinctOwners L (ko_OwnerReferences (upsertOwnerRef L ref ob))"
proof (cases rule: upsertOwnerRef_cases [of ob L ref])
  case new
  then show ?thesis using assms by (simp add: distinctOwners_def sorted_wrt_append)
next
  case (old xs r ys)
  have "\<not> referSameObject L x ref" if "\<not> referSameObject L x r" for x
    using that old(2) referSameObject_sym referSameObject_trans by blast
  moreover have "\<not> referSameObject L ref y" if "\<not> referSameObject L r y" for y
    using that old(2) referSameObject_trans by blast
  ultimately show ?thesis using assms old by (auto simp: distinctOwners_def sorted_wrt_append)
qed

definition sampleOwner :: OwnerReference where
  "sampleOwner = \<lparr>or_APIVersion = ''v1'', or_Kind = ''K'', or_Name = ''n'', or_UID = ''1'',
     or_BlockOwnerDeletion = None, or_Controller = None\<rparr>"

definition sampleObjlib :: objlib where
  "sampleObjlib = \<lparr>ol_k8s = \<lparr>unmarshalTypeMeta = (\<lambda>_. Inr (''v1'', ''K'')), ParseGroupVersion = (\<lambda>s. Inr ('''', s))\<rparr>,
     gvkForObject = (\<lambda>ob. Inr (ko_GVK ob)), isRuntimeObject = (\<lambda>_. True), GroupVersionString = (\<lambda>g v. v),
     GetControllerOf = (\<lambda>ob. find isController (ko_OwnerReferences ob)),
     ToUnstructured = (\<lambda>ob. Inr [(''status'', case ko_Status ob of None \<Rightarrow> ANil | Some s \<Rightarrow> s)]),
     FromUnstructured = (\<lambda>u ob. Inr ob), NestedFieldCopy = (\<lambda>u k. Inr (gget u k)),
     RemoveNestedField = (\<lambda>u k. filter (\<lambda>e. fst e \<noteq> k) u), SetNestedField = (\<lambda>u v k. Inr (gput k v u)),
     SemanticDeepEqual = (=), DeepEqual = (=)\<rparr>"

theorem upsertOwnerRef_distinct_witness:
  "distinctOwners sampleObjlib (ko_OwnerReferences (upsertOwnerRef sampleObjlib (sampleOwner\<lparr>or_UID := ''2''\<rparr>)
    (sampleObject\<lparr>ko_OwnerReferences := [sampleOwner]\<rparr>)))"
  by (rule upsertOwnerRef_distinct) (simp add: distinctOwners_def)

text \<open>C32: after a successful \<open>SetControllerReference\<close> on an object that had at most one controller and no two
  references to one object, the object has exactly one controller: the owner, under its group and version, kind, name
  and UID; \<open>GetControllerOf\<close> of k8s finds the first controller reference.\<close>

theorem SetControllerReference_one_controller:
  assumes "\<And>ob. GetControllerOf L ob = find isController (ko_OwnerReferences ob)"
    and "length (filter isController (ko_OwnerReferences controlled)) \<le> 1"
    and "distinctOwners L (ko_OwnerReferences controlled)"
    and "SetControllerReference L owner controlled = (None, ob)"
  shows "\<exists>gvk r. gvkForObject L owner = Inr gvk \<and> filter isController (ko_OwnerReferences ob) = [r] \<and>
    or_APIVersion r = GroupVersionString L (gvk_Group gvk) (gvk_Version gvk) \<and> or_Kind r = gvk_Kind gvk \<and>
    or_Name r = ko_Name owner \<and> or_UID r = ko_UID owner"
proof -
  let ?rs = "ko_OwnerReferences controlled"
  obtain gvk where gvk: "gvkForObject L owner = Inr gvk" and ob: "ob = upsertOwnerRef L (ownerRefOf L owner gvk (Some True)) controlled"
    and existing: "\<And>e. find isController ?rs = Some e \<Longrightarrow> referSameObject L e (ownerRefOf L owner gvk (Some True))"
    using assms(1,4) by (auto simp: SetControllerReference_def Let_def split: if_splits option.splits sum.splits)
  let ?ref = "ownerRefOf L owner gvk (Some True)"
  have ref: "isController ?ref" "or_Name ?ref = ko_Name owner" "or_UID ?ref = ko_UID owner"
    "or_APIVersion ?ref = GroupVersionString L (gvk_Group gvk) (gvk_Version gvk)" "or_Kind ?ref = gvk_Kind gvk"
    by (simp_all add: isController_def ownerRefOf_def)
  have none: "filter isController ?rs = []" if "find isController ?rs = None"
    using that by (simp add: find_None_iff filter_empty_conv)
  have "filter isController (ko_OwnerReferences ob) = [?ref]"
  proof (cases rule: upsertOwnerRef_cases [of controlled L ?ref])
    case new
    have "find isController ?rs = None"
      using existing new(1) find_mem [of isController ?rs] by (cases "find isController ?rs") auto
    then show ?thesis using new(2) none ref(1) by (simp add: ob)
  next
    case (old xs r ys)
    have others: "\<not> isController x" if x: "x \<in> set xs \<or> x \<in> set ys" for x
    proof
      assume c: "isController x"
      then obtain e where e: "find isController ?rs = Some e" "isController e" "e \<in> set ?rs"
        using x old(1) find_ex [of x ?rs isController] find_mem [of isController ?rs] by auto
      have "referSameObject L e r" using existing [OF e(1)] old(2) referSameObject_sym referSameObject_trans by blast
      then have "e \<notin> set xs \<and> e \<notin> set ys"
        using assms(3) old(1) referSameObject_sym by (auto simp: distinctOwners_def sorted_wrt_append)
      then have "isController r" using e(2,3) old(1) by auto
      then show False using c x assms(2) old(1)
        by (auto simp: filter_empty_conv)
    qed
    then have "filter isController xs = []" "filter isController ys = []" by (auto simp: filter_empty_conv)
    then show ?thesis using old(3) ref(1) by (simp add: ob)
  qed
  then show ?thesis using gvk ref(2-5) by blast
qed

theorem SetControllerReference_one_controller_witness:
  "\<exists>r. filter isController (ko_OwnerReferences (snd (SetControllerReference sampleObjlib sampleObject
      (sampleObject\<lparr>ko_OwnerReferences := [sampleOwner\<lparr>or_Name := ''m''\<rparr>]\<rparr>)))) = [r] \<and>
      or_Name r = ''n'' \<and> or_UID r = '''' \<and> or_Kind r = gvk_Kind (ko_GVK sampleObject)"
proof -
  let ?c = "sampleObject\<lparr>ko_OwnerReferences := [sampleOwner\<lparr>or_Name := ''m''\<rparr>]\<rparr>"
  note evals = sampleObjlib_def sampleObject_def sampleOwner_def isController_def distinctOwners_def
    SetControllerReference_def validateOwner_def GetUnstructuredFromGVK_def
  have "SetControllerReference sampleObjlib sampleObject ?c = (None, snd (SetControllerReference sampleObjlib sampleObject ?c))"
    by (simp add: evals)
  from SetControllerReference_one_controller [OF _ _ _ this]
  obtain gvk r where r: "gvkForObject sampleObjlib sampleObject = Inr gvk"
      "filter isController (ko_OwnerReferences (snd (SetControllerReference sampleObjlib sampleObject ?c))) = [r]"
      "or_Kind r = gvk_Kind gvk" "or_Name r = ko_Name sampleObject" "or_UID r = ko_UID sampleObject"
    by (force simp: sampleObjlib_def sampleOwner_def isController_def distinctOwners_def)
  have "ko_Name sampleObject = ''n''" "ko_UID sampleObject = ''''" by (simp_all add: sampleObject_def GetUnstructuredFromGVK_def)
  with r show ?thesis by (simp add: sampleObjlib_def)
qed

section \<open>Create or update\<close>

text \<open>C33: \<open>CreateOrUpdate\<close> creates only what it did not find, updates only what it found and the mutation
  changed, writes to the name and namespace it was called with, and reports no change only when it wrote
  nothing.\<close>

theorem CreateOrUpdate_outcome:
  assumes "CreateOrUpdate L cl ob (Some f) c = Some (result, err, ob', c')"
  shows "(result = OperationResultCreated \<longrightarrow> err = None \<and> (\<exists>w e. fst (cl_Get cl (objectKey ob) ob c) = Some e \<and>
        IsNotFound e \<and> objectKey w = objectKey ob \<and> cl_Create cl w c = (None, ob', c'))) \<and>
    (result = OperationResultUpdated \<longrightarrow> err = None \<and> (\<exists>w. fst (cl_Get cl (objectKey ob) ob c) = None \<and>
        f (snd (cl_Get cl (objectKey ob) ob c)) = (None, w) \<and> \<not> SemanticDeepEqual L (snd (cl_Get cl (objectKey ob) ob c)) w \<and>
        objectKey w = objectKey ob \<and> cl_Update cl w c = (None, ob', c'))) \<and>
    (result = OperationResultNone \<and> err = None \<longrightarrow> c' = c)"
proof (cases "cl_Get cl (objectKey ob) ob c")
  case (Pair e got)
  show ?thesis
  proof (cases e)
    case None
    then show ?thesis using assms Pair
      by (auto simp: CreateOrUpdate_def Let_def mutate_def split: option.splits prod.splits if_splits)
  next
    case (Some e')
    then show ?thesis using assms Pair
      by (auto simp: CreateOrUpdate_def Let_def mutate_def createIt_def split: option.splits prod.splits if_splits)
  qed
qed

definition sampleClient :: "unit kclient" where
  "sampleClient = \<lparr>cl_Get = (\<lambda>key ob c. (None, ob)), cl_Create = (\<lambda>ob c. (None, ob, c)),
     cl_Update = (\<lambda>ob c. (None, ob, c)), cl_UpdateStatus = (\<lambda>ob c. (None, ob, c)),
     cl_Patch = (\<lambda>p ob c. (None, ob, c)), cl_PatchStatus = (\<lambda>p ob c. (None, ob, c))\<rparr>"

theorem CreateOrUpdate_outcome_witness:
  "\<exists>w. cl_Update sampleClient w () = (None, sampleObject\<lparr>ko_UID := ''7''\<rparr>, ()) \<and> objectKey w = objectKey sampleObject"
proof -
  have "CreateOrUpdate sampleObjlib sampleClient sampleObject (Some (\<lambda>ob. (None, ob\<lparr>ko_UID := ''7''\<rparr>))) () =
      Some (OperationResultUpdated, None, sampleObject\<lparr>ko_UID := ''7''\<rparr>, ())"
    by (simp add: CreateOrUpdate_def sampleClient_def mutate_def objectKey_def sampleObject_def sampleObjlib_def
        GetUnstructuredFromGVK_def)
  from CreateOrUpdate_outcome [OF this] show ?thesis by blast
qed

end
