(* ===== verification/Controller_Theorems.thy ===== *)
theory Controller_Theorems
  imports Internal_Controller Exec_Run_Theorems Controllerutil_Properties
begin

text \<open>
  The reconciler and its controller: what a finished work item means, what the finalizer protects, how a
  failed run ends, and the watches of the controller.
\<close>

section \<open>Work items of the reconciler\<close>

definition answerOf :: "((ctrlResult \<times> goerr) \<times> 'c) go \<Rightarrow> answer" where
  "answerOf x = (case x of None \<Rightarrow> Panics ''nil pointer dereference'' | Some ((result, err), _) \<Rightarrow> Answer result err)"

definition workItem :: "controller \<Rightarrow> 'c reconciler \<Rightarrow> 'c \<Rightarrow> string \<Rightarrow> string \<Rightarrow> queueOp list \<times> bool" where
  "workItem ct r c ns name = reconcileHandler ct (\<lambda>ns name. answerOf (Reconcile r (ns, name) c)) (Request ns name)"

lemma Wrap_None: "Wrap err m = None \<longleftrightarrow> err = None"
  by (cases err) (auto simp: Wrap_def split: kerr.splits)

lemma IgnoreNotFound_None: "IgnoreNotFound (Some e) = None \<longleftrightarrow> IsNotFound e"
  by (auto simp: IgnoreNotFound_def Ignore_def)

lemma withStatus_result: "fst (fst (withStatus r result cr c)) = result"
  by (auto simp: withStatus_def split: prod.splits)

lemma applyOutputs_Inl: "applyOutputs r xs cr c = Inl out \<Longrightarrow> fst (fst out) = after5"
  by (induction r xs cr c rule: applyOutputs.induct)
    (auto simp: withStatus_result split: sum.splits if_splits prod.splits option.splits)

lemma workItem_forget:
  assumes "workItem ct r c ns name = ([Forget (Request ns name)], crash)"
  obtains result c' where "Reconcile r (ns, name) c = Some ((result, None), c')"
    and "RequeueAfter result \<le> 0" and "\<not> Requeue result"
  using assms
  by (cases "Reconcile r (ns, name) c")
    (auto simp: workItem_def reconcileHandler_def answerOf_def ctrlReconcile_def split: if_splits)

text \<open>What a reconciliation has done when it ends without an error: the run of the graph for the operation, and after it the removal
  of the finalizer, or the outputs and the status.\<close>

definition deletedDone :: "'c reconciler \<Rightarrow> any \<Rightarrow> (gvk, svcClient) gmap \<Rightarrow> kobj \<Rightarrow> 'c \<Rightarrow> bool" where
  "deletedDone r x sc cr c \<longleftrightarrow>
     (\<exists>d w cr' c'. GetDAGCtx FOWFor (Some (GetForGVK (rc_ceCtx r))) OperationDelete (rc_ceCtx r) = Some (Some d) \<and>
       runDAG (rc_lib r) (rc_inner r) (rc_run r) sc d (GetForGVK (rc_ceCtx r)) x = Some w \<and>
       APIRemoveFinalizer (rc_client r) defaultFinalizerName cr c = Some (None, cr', c'))"

definition appliedDone :: "'c reconciler \<Rightarrow> any \<Rightarrow> (gvk, svcClient) gmap \<Rightarrow> kobj \<Rightarrow> 'c \<Rightarrow> bool" where
  "appliedDone r x sc cr c \<longleftrightarrow>
     (\<exists>d w cr' c'. GetDAGCtx FOWFor (Some (GetForGVK (rc_ceCtx r))) OperationApply (rc_ceCtx r) = Some (Some d) \<and>
       runDAG (rc_lib r) (rc_inner r) (rc_run r) sc d (GetForGVK (rc_ceCtx r)) x = Some w \<and>
       applyOutputs r (GetFinalOutput (curOutputs w)) cr c = Inr (cr', c') \<and> fst (cl_UpdateStatus (rc_client r) cr' c') = None)"

lemma withStatus_requeues:
  assumes "RequeueAfter result \<le> 0" and "\<not> Requeue result"
  shows "withStatus r after5 cr c \<noteq> ((result, None), c')" "withStatus r (Result0\<lparr>Requeue := True\<rparr>) cr c \<noteq> ((result, None), c')"
  using assms withStatus_result [of r after5 cr c] withStatus_result [of r "Result0\<lparr>Requeue := True\<rparr>" cr c]
  by (auto simp: after5_def)

lemma reconcileDelete_done:
  assumes run: "reconcileDelete r x sc cr c = Some ((result, None), c')" and "RequeueAfter result \<le> 0" "\<not> Requeue result"
  shows "deletedDone r x sc cr c"
proof -
  obtain d w e cr' c1 where "GetDAGCtx FOWFor (Some (GetForGVK (rc_ceCtx r))) OperationDelete (rc_ceCtx r) = Some (Some d)"
    and "runDAG (rc_lib r) (rc_inner r) (rc_run r) sc d (GetForGVK (rc_ceCtx r)) x = Some w"
    and "APIRemoveFinalizer (rc_client r) defaultFinalizerName cr c = Some (e, cr', c1)"
    and "(case e of Some _ \<Rightarrow> Some (withStatus r (Result0\<lparr>Requeue := True\<rparr>) cr' c1)
      | None \<Rightarrow> Some ((Result0, None), c1)) = Some ((result, None), c')"
    using run by (auto simp: reconcileDelete_def split: Option.bind_splits)
  moreover from this(4) have "e = None" using withStatus_requeues(2) [OF assms(2,3), of r] by (cases e) auto
  ultimately show ?thesis by (auto simp: deletedDone_def)
qed

lemma reconcileApply_done:
  assumes run: "reconcileApply r x sc cr c = Some ((result, None), c')" and res: "RequeueAfter result \<le> 0" "\<not> Requeue result"
  shows "appliedDone r x sc cr c"
proof -
  obtain d w where d: "GetDAGCtx FOWFor (Some (GetForGVK (rc_ceCtx r))) OperationApply (rc_ceCtx r) = Some (Some d)"
    and w: "runDAG (rc_lib r) (rc_inner r) (rc_run r) sc d (GetForGVK (rc_ceCtx r)) x = Some w"
    and out: "(case applyOutputs r (GetFinalOutput (curOutputs w)) cr c of
       Inl result \<Rightarrow> result | Inr (cr, c) \<Rightarrow> withStatus r Result0 cr c) = ((result, None), c')"
    using run by (auto simp: reconcileApply_def split: Option.bind_splits)
  have "fst (fst out') \<noteq> result" if "applyOutputs r (GetFinalOutput (curOutputs w)) cr c = Inl out'" for out'
    using applyOutputs_Inl [OF that] res by (auto simp: after5_def)
  then obtain cr' c1 where app: "applyOutputs r (GetFinalOutput (curOutputs w)) cr c = Inr (cr', c1)"
    using out by (cases "applyOutputs r (GetFinalOutput (curOutputs w)) cr c") auto
  then have "fst (cl_UpdateStatus (rc_client r) cr' c1) = None"
    using out by (auto simp: withStatus_def Wrap_None split: prod.splits)
  then show ?thesis using d w app by (auto simp: appliedDone_def)
qed

text \<open>C11: a work item that is forgotten without being queued again was either gone from the cluster, or is being
  deleted and its delete graph has run and its finalizer was removed, or its apply graph has run, all its outputs
  were applied and its status was updated: no error of the reconciler itself is lost.\<close>

theorem forgotten_means_done:
  assumes "workItem ct r c ns name = ([Forget (Request ns name)], crash)"
  shows "(\<exists>e. fst (cl_Get (rc_client r) (ns, name) (GetUnstructuredFromGVK (GetForGVK (rc_ceCtx r))) c) = Some e \<and>
      IsNotFound e) \<or>
    (\<exists>x cr cr1 c1 sc. cl_Get (rc_client r) (ns, name) (GetUnstructuredFromGVK (GetForGVK (rc_ceCtx r))) c = (None, cr) \<and>
      rc_marshalData r cr = Inr x \<and>
      APIAddFinalizer (rc_client r) defaultFinalizerName cr c = (None, cr1, c1) \<and> getSvcClients r = Inr sc \<and>
      (if WasDeleted cr1 then deletedDone r x sc cr1 c1 else appliedDone r x sc cr1 c1))"
proof -
  obtain result c' where rec: "Reconcile r (ns, name) c = Some ((result, None), c')"
    and res: "RequeueAfter result \<le> 0" "\<not> Requeue result" by (rule workItem_forget [OF assms])
  note ne = withStatus_requeues [OF res, of r]
  obtain err cr where got: "cl_Get (rc_client r) (ns, name) (GetUnstructuredFromGVK (GetForGVK (rc_ceCtx r))) c = (err, cr)"
    by (meson surj_pair)
  show ?thesis
  proof (cases err)
    case (Some e)
    then show ?thesis using rec got by (auto simp: Reconcile_def Wrap_None IgnoreNotFound_None)
  next
    case None
    note got = got [unfolded None]
    obtain x where x: "rc_marshalData r cr = Inr x"
      using rec ne by (cases "rc_marshalData r cr") (auto simp: Reconcile_def got)
    obtain e1 cr1 c1 where add: "APIAddFinalizer (rc_client r) defaultFinalizerName cr c = (e1, cr1, c1)"
      by (metis prod_cases3)
    have e1: "e1 = None" using rec ne by (cases e1) (auto simp: Reconcile_def got x add)
    obtain sc where sc: "getSvcClients r = Inr sc"
      using rec ne by (cases "getSvcClients r") (auto simp: Reconcile_def got x add e1)
    have rest: "(if WasDeleted cr1 then reconcileDelete r x sc cr1 c1 else reconcileApply r x sc cr1 c1) =
        Some ((result, None), c')"
      using rec by (simp add: Reconcile_def got x add e1 sc)
    then have "if WasDeleted cr1 then deletedDone r x sc cr1 c1 else appliedDone r x sc cr1 c1"
      using reconcileDelete_done [OF _ res] reconcileApply_done [OF _ res] by (auto split: if_splits)
    then show ?thesis using got x add e1 sc by auto
  qed
qed

section \<open>A reconciler to compute with\<close>

text \<open>The cluster holds one object.\<close>

definition storeClient :: "kobj kclient" where
  "storeClient = \<lparr>cl_Get = (\<lambda>key ob c. (None, c)), cl_Create = (\<lambda>ob c. (None, ob, ob)),
     cl_Update = (\<lambda>ob c. (None, ob, ob)), cl_UpdateStatus = (\<lambda>ob c. (None, ob, c\<lparr>ko_Status := ko_Status ob\<rparr>)),
     cl_Patch = (\<lambda>p ob c. (None, ob, ob)), cl_PatchStatus = (\<lambda>p ob c. (None, ob, ob))\<rparr>"

definition sampleGvk :: gvk where
  "sampleGvk = \<lparr>gvk_Group = ''g'', gvk_Version = ''v1'', gvk_Kind = ''K''\<rparr>"

definition chainCtx :: cfgExecContext where
  "chainCtx = (NewConfigExecutionContext ''c'')\<lparr>cec_For := [(sampleGvk,
     [(OperationApply, \<lparr>DAG = chain, RootVertexName = ''r'', BlockDAGs = []\<rparr>),
      (OperationDelete, \<lparr>DAG = chain, RootVertexName = ''r'', BlockDAGs = []\<rparr>)])]\<rparr>"

definition sampleReconciler :: "(execHandler \<Rightarrow> world \<Rightarrow> world go) \<Rightarrow> kobj reconciler" where
  "sampleReconciler run = \<lparr>rc_client = storeClient, rc_ceCtx = chainCtx, rc_lib = sampleLib,
     rc_marshalData = (\<lambda>ob. Inr (ko_Content ob)), rc_marshalJSON = (\<lambda>x. Inr ''''),
     rc_unmarshalJSON = (\<lambda>s. Inr sampleObject), rc_newSvcClient = (\<lambda>p. Inr Inr),
     rc_run = run, rc_inner = (\<lambda>d w. Some w)\<rparr>"

text \<open>Two runs: one that does nothing, one in which the root failed.\<close>

definition idleRun :: "execHandler \<Rightarrow> world \<Rightarrow> world go" where
  "idleRun h w = Some w"

definition failedRun :: "execHandler \<Rightarrow> world \<Rightarrow> world go" where
  "failedRun h w = Some (w\<lparr>curResults := slice_Add
     \<lparr>ri_Type = ExecRootType, ri_ExecName = ''r'', ri_VertexName = ''r'', ri_Input = None, ri_Output = None,
      ri_Success = False, ri_Reason = ''''\<rparr> (curResults w)\<rparr>)"

definition sampleController :: controller where
  "sampleController = \<lparr>ct_Name = ''c'', ct_MaxConcurrentReconciles = 8, ct_CacheSyncTimeout = 120,
     ct_RecoverPanic = False, ct_Started = False, ct_startWatches = [], ct_mu = False, ct_sources = [],
     ct_workers = 0\<rparr>"

lemma chain_root: "GetRootVertex chain = ''r''"
  by (simp add: GetRootVertex_def chain_graph rootVertexC_def sliceC_def vertexOf_def)

lemma chain_init: "exec_init chain = Some ()"
  by (simp add: exec_init_def chain_graph chain_vertex)

lemma chain_runDAG:
  "runDAG (rc_lib (sampleReconciler run)) i run' [] \<lparr>DAG = chain, RootVertexName = ''r'', BlockDAGs = []\<rparr> g x =
    run' (fst (builder_New (sampleLib\<lparr>serviceClient := gget []\<rparr>) \<lparr>blockDAG = gget [], inner = i\<rparr> (Some g) x chain world_New))
      (world_New\<lparr>curOutputs := output_AddEntry ''r'' (AOutputInfo (OutputInfo True False (Some g) x)) output_New\<rparr>)"
  by (simp add: runDAG_def builder_New_def chain_root chain_init Let_def world_New_def sampleReconciler_def)

lemma root_only: "GetFinalOutput (output_AddEntry k (AOutputInfo (OutputInfo True b g x)) output_New) = []"
  by (simp add: GetFinalOutput_def outs.get_addEntry outs.get_new)

lemma sample_gvk: "GetForGVK chainCtx = sampleGvk"
  by (simp add: GetForGVK_def chainCtx_def)

lemma sample_ctx: "GetDAGCtx FOWFor (Some sampleGvk) op chainCtx =
    Some (if op = OperationApply \<or> op = OperationDelete then Some \<lparr>DAG = chain, RootVertexName = ''r'', BlockDAGs = []\<rparr> else None)"
  by (auto simp: GetDAGCtx_def fowMap_def chainCtx_def)

lemma sample_services: "getSvcClients (sampleReconciler run) = Inr []"
  by (simp add: getSvcClients_def sampleReconciler_def cecGetServices_def chainCtx_def NewConfigExecutionContext_def
      service_New_def service_Get_def)

lemma sample_reconcile:
  "Reconcile (sampleReconciler failedRun) (''ns'', ''n'') sampleObject =
     Some ((Result0, None), AddFinalizer sampleObject defaultFinalizerName)"
proof -
  have d: "\<not> WasDeleted (AddFinalizer sampleObject defaultFinalizerName)"
    "\<not> FinalizerExists sampleObject defaultFinalizerName"
    by (simp_all add: WasDeleted_def AddFinalizer_def sampleObject_def GetUnstructuredFromGVK_def FinalizerExists_def
        defaultFinalizerName_def)
  have c: "rc_ceCtx (sampleReconciler failedRun) = chainCtx" "rc_client (sampleReconciler failedRun) = storeClient"
    "rc_run (sampleReconciler failedRun) = failedRun"
    "rc_marshalData (sampleReconciler failedRun) ob = Inr (ko_Content ob)" for ob
    by (simp_all add: sampleReconciler_def)
  have s: "(AddFinalizer sampleObject x)\<lparr>ko_Status := ko_Status (AddFinalizer sampleObject x)\<rparr> = AddFinalizer sampleObject x" for x
    by simp
  show ?thesis
    by (simp add: Reconcile_def c storeClient_def APIAddFinalizer_def d Wrap_None sample_services reconcileApply_def
        sample_gvk sample_ctx chain_runDAG failedRun_def root_only withStatus_def Wrap_def)
qed

lemma sample_item:
  "workItem sampleController (sampleReconciler failedRun) sampleObject ''ns'' ''n'' = ([Forget (Request ''ns'' ''n'')], False)"
  by (simp add: workItem_def reconcileHandler_def answerOf_def ctrlReconcile_def sample_reconcile Result0_def)

theorem forgotten_means_done_witness:
  "\<exists>x sc cr. if WasDeleted cr then deletedDone (sampleReconciler failedRun) x sc cr cr
     else appliedDone (sampleReconciler failedRun) x sc cr cr"
  using forgotten_means_done [OF sample_item]
  by (auto simp: sampleReconciler_def storeClient_def sample_gvk APIAddFinalizer_def split: if_splits)

section \<open>How a run ends does not matter\<close>

lemma withStatus_run: "withStatus (r\<lparr>rc_run := run\<rparr>) = withStatus r"
  by (simp add: withStatus_def fun_eq_iff)

lemma applyOutputs_run: "applyOutputs (r\<lparr>rc_run := run\<rparr>) xs cr c = applyOutputs r xs cr c"
  by (induction xs arbitrary: cr c) (auto simp: withStatus_run split: sum.split prod.split option.split)

text \<open>Of a run the reconciler sees only that it returned and, unless the resource is being deleted, its final
  outputs: two executors whose runs leave the same final outputs, one with all functions
  successful and one with failures, give the same answer and the same cluster.\<close>

lemma run_result_ignored:
  assumes "\<And>h w. map_option (\<lambda>w. GetFinalOutput (curOutputs w)) (rc_run r h w) =
      map_option (\<lambda>w. GetFinalOutput (curOutputs w)) (run h w)"
  shows "Reconcile (r\<lparr>rc_run := run\<rparr>) key c = Reconcile r key c"
proof -
  have dag: "map_option (\<lambda>w. GetFinalOutput (curOutputs w)) (runDAG L i (rc_run r) sc d g x) =
      map_option (\<lambda>w. GetFinalOutput (curOutputs w)) (runDAG L i run sc d g x)" for L i sc d g x
    using assms by (auto simp: runDAG_def split: prod.splits Option.bind_splits)
  have some: "Option.bind (runDAG L i run sc d g x) (\<lambda>_. k) = Option.bind (runDAG L i (rc_run r) sc d g x) (\<lambda>_. k)"
    for L i sc d g x and k :: "'b option"
    using dag [of L i sc d g x] by (cases "runDAG L i run sc d g x"; cases "runDAG L i (rc_run r) sc d g x") auto
  have "reconcileDelete (r\<lparr>rc_run := run\<rparr>) x sc cr c = reconcileDelete r x sc cr c" for x sc cr c
    unfolding reconcileDelete_def withStatus_run by (simp add: some)
  moreover have "reconcileApply (r\<lparr>rc_run := run\<rparr>) x sc cr c = reconcileApply r x sc cr c" for x sc cr c
  proof -
    let ?k = "\<lambda>xs. case applyOutputs r xs cr c of Inl result \<Rightarrow> result | Inr (cr, c) \<Rightarrow> withStatus r Result0 cr c"
    have "Option.bind (runDAG L i run sc d g x) (\<lambda>w. Some (?k (GetFinalOutput (curOutputs w)))) =
        Option.bind (runDAG L i (rc_run r) sc d g x) (\<lambda>w. Some (?k (GetFinalOutput (curOutputs w))))"
      for L i d g
      using dag [of L i sc d g x] by (cases "runDAG L i run sc d g x"; cases "runDAG L i (rc_run r) sc d g x") auto
    then show ?thesis unfolding reconcileApply_def withStatus_run applyOutputs_run by simp
  qed
  ultimately show ?thesis
    by (simp add: Reconcile_def withStatus_run getSvcClients_def cong: sum.case_cong option.case_cong if_cong)
qed

theorem run_result_ignored_witness:
  "Reconcile (sampleReconciler failedRun) (''ns'', ''n'') sampleObject =
   Reconcile (sampleReconciler idleRun) (''ns'', ''n'') sampleObject"
  using run_result_ignored [of "sampleReconciler idleRun" failedRun]
  by (simp add: sampleReconciler_def idleRun_def failedRun_def)

text \<open>A resource that is being deleted loses the finalizer whatever its run did, so it disappears from the
  cluster although functions that clean up after it may have failed.\<close>

lemma deletion_ignores_failures:
  assumes "cl_Get (rc_client r) key (GetUnstructuredFromGVK (GetForGVK (rc_ceCtx r))) c = (None, cr)"
    and "WasDeleted cr" and "count_list (ko_Finalizers cr) defaultFinalizerName = 1"
    and "rc_marshalData r cr = Inr x" and "getSvcClients r = Inr sc"
    and "GetDAGCtx FOWFor (Some (GetForGVK (rc_ceCtx r))) OperationDelete (rc_ceCtx r) = Some (Some d)"
    and "runDAG (rc_lib r) (rc_inner r) (rc_run r) sc d (GetForGVK (rc_ceCtx r)) x = Some w"
    and "cl_Update (rc_client r) (cr\<lparr>ko_Finalizers := filter (\<lambda>f. f \<noteq> defaultFinalizerName) (ko_Finalizers cr)\<rparr>) c =
      (None, cr', c')"
  shows "Reconcile r key c = Some ((Result0, None), c')"
proof -
  have ex: "FinalizerExists cr defaultFinalizerName"
    using assms(3) by (metis FinalizerExists_def hasFinalizer_iff count_list_0_iff zero_neq_one)
  have "APIRemoveFinalizer (rc_client r) defaultFinalizerName cr c = Some (None, cr', c')"
    using RemoveFinalizer_once [OF assms(3)] assms(8)
    by (simp add: APIRemoveFinalizer_def ex IgnoreNotFound_def Ignore_def Wrap_def)
  then show ?thesis
    using assms(1,2,4-7) ex by (simp add: Reconcile_def APIAddFinalizer_def reconcileDelete_def)
qed

definition deletedObject :: kobj where
  "deletedObject = sampleObject\<lparr>ko_Finalizers := [defaultFinalizerName], ko_DeletionTimestamp := Some 1\<rparr>"

theorem deletion_ignores_failures_witness:
  "Reconcile (sampleReconciler failedRun) (''ns'', ''n'') deletedObject =
     Some ((Result0, None), deletedObject\<lparr>ko_Finalizers := []\<rparr>)"
proof (rule deletion_ignores_failures [where cr = deletedObject and cr' = "deletedObject\<lparr>ko_Finalizers := []\<rparr>"])
  show "getSvcClients (sampleReconciler failedRun) = Inr []" by (rule sample_services)
  show "GetDAGCtx FOWFor (Some (GetForGVK (rc_ceCtx (sampleReconciler failedRun)))) OperationDelete
      (rc_ceCtx (sampleReconciler failedRun)) = Some (Some \<lparr>DAG = chain, RootVertexName = ''r'', BlockDAGs = []\<rparr>)"
    using sample_ctx [of OperationDelete] by (simp add: sampleReconciler_def sample_gvk)
  show "runDAG (rc_lib (sampleReconciler failedRun)) (rc_inner (sampleReconciler failedRun))
      (rc_run (sampleReconciler failedRun)) [] \<lparr>DAG = chain, RootVertexName = ''r'', BlockDAGs = []\<rparr>
      (GetForGVK (rc_ceCtx (sampleReconciler failedRun))) ANil = Some (the (failedRun undefined
        (world_New\<lparr>curOutputs := output_AddEntry ''r'' (AOutputInfo (OutputInfo True False (Some sampleGvk) ANil)) output_New\<rparr>)))"
    unfolding chain_runDAG by (simp add: sampleReconciler_def sample_gvk failedRun_def)
qed (simp_all add: sampleReconciler_def storeClient_def deletedObject_def WasDeleted_def sampleObject_def
    GetUnstructuredFromGVK_def)

section \<open>The controller\<close>

text \<open>A second \<open>Start\<close> reports its error with the mutex locked: from then on every \<open>Watch\<close> and every \<open>Start\<close>
  waits for ever.\<close>

lemma second_start_deadlocks:
  assumes "ct_Started c" and "\<not> ct_mu c"
  shows "\<exists>err c'. Start E c = Done (Some err, c') \<and> Start E c' = Blocked \<and> (\<forall>wd. Watch E wd c' = Blocked)"
  using assms by (simp add: Start_def Watch_def)

definition sampleEnviron :: environ where
  "sampleEnviron = \<lparr>SetFields = (\<lambda>_. None), startSource = (\<lambda>_. None), waitForSync = (\<lambda>_. None)\<rparr>"

theorem second_start_deadlocks_witness:
  "\<exists>err c'. Start sampleEnviron (sampleController\<lparr>ct_Started := True\<rparr>) = Done (Some err, c') \<and>
    Start sampleEnviron c' = Blocked \<and> (\<forall>wd. Watch sampleEnviron wd c' = Blocked)"
  by (rule second_start_deadlocks) (simp_all add: sampleController_def)

text \<open>The watches of a controller, over any sequence of calls that succeed.\<close>

datatype ctrlOp = OpWatch watchDescription | OpStart

fun runOps :: "environ \<Rightarrow> ctrlOp list \<Rightarrow> controller \<Rightarrow> controller option" where
  "runOps E [] c = Some c"
| "runOps E (OpWatch wd # ops) c = (case Watch E wd c of Done (None, c) \<Rightarrow> runOps E ops c | _ \<Rightarrow> None)"
| "runOps E (OpStart # ops) c = (case Start E c of Done (None, c) \<Rightarrow> runOps E ops c | _ \<Rightarrow> None)"

fun watchesOf :: "ctrlOp list \<Rightarrow> watchDescription list" where
  "watchesOf [] = []"
| "watchesOf (OpWatch wd # ops) = wd # watchesOf ops"
| "watchesOf (OpStart # ops) = watchesOf ops"

lemma launch_sources: "launch E wds c = (None, c') \<Longrightarrow> c' = c\<lparr>ct_sources := ct_sources c @ wds\<rparr>"
  by (induction E wds c rule: launch.induct) (auto split: option.splits)

lemma runOps_watches:
  assumes "runOps E ops c = Some c'" and "ct_Started c \<longrightarrow> ct_startWatches c = []"
  shows "ct_sources c' @ ct_startWatches c' = ct_sources c @ ct_startWatches c @ watchesOf ops \<and>
    (ct_Started c' \<longleftrightarrow> ct_Started c \<or> OpStart \<in> set ops) \<and> (ct_Started c' \<longrightarrow> ct_startWatches c' = [])"
  using assms
proof (induction E ops c rule: runOps.induct)
  case (2 E wd ops c)
  obtain c1 where w: "Watch E wd c = Done (None, c1)" and run: "runOps E ops c1 = Some c'"
    using 2(2) by (auto split: outcome.splits prod.splits option.splits)
  have "ct_sources c1 @ ct_startWatches c1 = ct_sources c @ ct_startWatches c @ [wd]"
    "ct_Started c1 = ct_Started c" "ct_Started c1 \<longrightarrow> ct_startWatches c1 = []"
    using w 2(3) by (auto simp: Watch_def split: option.splits if_splits)
  then show ?case using 2(1) [OF w refl refl run] by simp
next
  case (3 E ops c)
  obtain c1 where st: "Start E c = Done (None, c1)" and run: "runOps E ops c1 = Some c'"
    using 3(2) by (auto split: outcome.splits prod.splits option.splits)
  obtain c2 where l: "launch E (ct_startWatches c) c = (None, c2)"
    and c1: "c1 = c2\<lparr>ct_startWatches := [], ct_workers := nat (ct_MaxConcurrentReconciles c2), ct_Started := True\<rparr>"
    and "\<not> ct_Started c"
    using st by (auto simp: Start_def split: if_splits prod.splits option.splits)
  have "ct_sources c1 = ct_sources c @ ct_startWatches c" "ct_startWatches c1 = []" "ct_Started c1"
    using launch_sources [OF l] by (simp_all add: c1)
  then show ?case using "3.IH" [OF st refl refl run] run by auto
qed auto

text \<open>C34: over a sequence of calls of \<open>Watch\<close> and \<open>Start\<close> on a new controller that all succeed, every watch is kept exactly once and in order, first to
  be started and after \<open>Start\<close> as a running source; a started controller has none waiting.\<close>

theorem watches_are_started_once:
  assumes "runOps E ops c = Some c'" and "ct_startWatches c = []" and "ct_sources c = []" and "\<not> ct_Started c"
  shows "ct_sources c' @ ct_startWatches c' = watchesOf ops \<and>
    (OpStart \<in> set ops \<longrightarrow> ct_sources c' = watchesOf ops)"
  using runOps_watches [OF assms(1)] assms(2-4) by auto

theorem watches_are_started_once_witness:
  "\<exists>c'. runOps sampleEnviron [OpWatch (WatchDescription ChannelSource EnqueueRequestForObject), OpStart] sampleController
      = Some c' \<and> ct_sources c' = [WatchDescription ChannelSource EnqueueRequestForObject]"
proof -
  obtain c' where c': "runOps sampleEnviron [OpWatch (WatchDescription ChannelSource EnqueueRequestForObject), OpStart]
      sampleController = Some c'"
    by (simp add: Watch_def Start_def sampleController_def sampleEnviron_def)
  from watches_are_started_once [OF this] show ?thesis using c' by (simp add: sampleController_def)
qed

text \<open>A \<open>Start\<close> that fails, here because a cache does not sync, keeps the list of watches although their sources run: the
  next \<open>Start\<close> starts them all once more.\<close>

lemma failed_start_repeats:
  assumes "\<not> ct_mu c" and "\<not> ct_Started c" and "\<And>wd. startSource E wd = None" and "syncCaches E (ct_startWatches c) = Some err"
    and "\<And>wd. startSource E' wd = None" and "syncCaches E' (ct_startWatches c) = None"
  shows "\<exists>c1 c2. Start E c = Done (Some err, c1) \<and> Start E' c1 = Done (None, c2) \<and>
    ct_sources c2 = ct_sources c @ ct_startWatches c @ ct_startWatches c"
proof -
  have run: "launch F wds x = (None, x\<lparr>ct_sources := ct_sources x @ wds\<rparr>)" if "\<And>wd. startSource F wd = None" for F wds x
    using that by (induction wds arbitrary: x) simp_all
  show ?thesis using assms by (simp add: Start_def run)
qed

section \<open>The watches of a configuration\<close>

lemma watchLoop_pending:
  "watchLoop E g fow c = Some (Done (None, c')) \<Longrightarrow> \<not> ct_Started c \<Longrightarrow>
    set (ct_startWatches c) \<subseteq> set (ct_startWatches c') \<and>
    (\<forall>(k, od)\<in>set fow. \<exists>eh. WatchDescription (KindSource k) (HandleWatch eh) \<in> set (ct_startWatches c') \<and> eh_gvk eh = g)"
proof (induction E g fow c rule: watchLoop.induct)
  case (2 E g k od rest c)
  obtain eh c1 where eh: "watchHandler g od = Some eh"
    and w: "Watch E (WatchDescription (KindSource k) (HandleWatch eh)) c = Done (None, c1)"
    and l: "watchLoop E g rest c1 = Some (Done (None, c'))"
    using 2(2) by (auto split: Option.bind_splits outcome.splits prod.splits option.splits)
  have c1: "c1 = c\<lparr>ct_startWatches := ct_startWatches c @ [WatchDescription (KindSource k) (HandleWatch eh)]\<rparr>"
    using w 2(3) by (auto simp: Watch_def split: if_splits option.splits)
  have "eh_gvk eh = g" using eh by (auto simp: watchHandler_def split: Option.bind_splits)
  then show ?case using 2(1) [OF eh w refl refl l] 2(3) c1 by auto
qed auto

lemma watchAll_started: "watchAll E wds c = Done (None, c') \<Longrightarrow> ct_Started c' = ct_Started c"
  by (induction E wds c rule: watchAll.induct)
    (auto simp: Watch_def split: outcome.splits prod.splits option.splits if_splits)

text \<open>All handlers of watched kinds get the kind the range ends with, because they hold the address of the loop
  variable: with two watched kinds one handler runs with the kind of the other.\<close>

lemma watch_handlers_share_kind:
  assumes "doWatch E ctx c = Some (Done (None, c'))" and "\<not> ct_Started c" and "(g, od) \<in> set (cec_watch ctx)"
  shows "\<exists>eh. WatchDescription (KindSource g) (HandleWatch eh) \<in> set (ct_startWatches c') \<and>
    eh_gvk eh = fst (last (cec_watch ctx))"
proof -
  have fow: "GetFOW FOWWatch ctx = cec_watch ctx" by (simp add: GetFOW_def fowMap_def)
  obtain c1 where w: "watchAll E ([WatchDescription (KindSource (GetForGVK ctx)) EnqueueRequestForObject,
      WatchDescription ChannelSource EnqueueRequestForObject] @ ownWatches ctx) c = Done (None, c1)"
    and l: "watchLoop E (fst (last (cec_watch ctx))) (cec_watch ctx) c1 = Some (Done (None, c'))"
    using assms(1,3) by (auto simp: doWatch_def Let_def fow split: outcome.splits prod.splits option.splits list.splits
        simp del: watchAll.simps)
  show ?thesis using watchLoop_pending [OF l] watchAll_started [OF w] assms(2,3) by fastforce
qed

definition twoKinds :: cfgExecContext where
  "twoKinds = chainCtx\<lparr>cec_watch := [(sampleGvk, [(OperationApply, \<lparr>DAG = chain, RootVertexName = ''r'', BlockDAGs = []\<rparr>)]),
     (sampleGvk\<lparr>gvk_Kind := ''L''\<rparr>, [(OperationApply, \<lparr>DAG = chain, RootVertexName = ''r'', BlockDAGs = []\<rparr>)])]\<rparr>"

theorem watch_handlers_share_kind_witness:
  "\<exists>c' eh. doWatch sampleEnviron twoKinds sampleController = Some (Done (None, c')) \<and>
    WatchDescription (KindSource sampleGvk) (HandleWatch eh) \<in> set (ct_startWatches c') \<and>
    eh_gvk eh = sampleGvk\<lparr>gvk_Kind := ''L''\<rparr>"
proof -
  obtain c' where c': "doWatch sampleEnviron twoKinds sampleController = Some (Done (None, c'))"
    by (simp add: doWatch_def Let_def ownWatches_def GetFOW_def fowMap_def twoKinds_def chainCtx_def
        NewConfigExecutionContext_def Watch_def sampleEnviron_def sampleController_def watchHandler_def)
  have "\<exists>eh. WatchDescription (KindSource sampleGvk) (HandleWatch eh) \<in> set (ct_startWatches c') \<and>
      eh_gvk eh = fst (last (cec_watch twoKinds))"
    by (rule watch_handlers_share_kind [OF c', where od = "[(OperationApply,
        \<lparr>DAG = chain, RootVertexName = ''r'', BlockDAGs = []\<rparr>)]"]) (simp_all add: sampleController_def twoKinds_def)
  then show ?thesis using c' by (auto simp: twoKinds_def)
qed

end
