(* ===== verification/Manager_Theorems.thy ===== *)
theory Manager_Theorems
  imports Manager
begin

text \<open>
  The properties of the manager: what its operations never change, that it never counts as started, that only one
  \<open>Start\<close> can return without an error, and that a configuration file never overrides an option.
\<close>

section \<open>Options\<close>

text \<open>A configuration file only fills in what the options leave open, and a loader that fails changes nothing.\<close>

lemma AndFrom_keeps:
  assumes "AndFrom loader r = (r', err)"
  shows "mo_SyncPeriod r \<noteq> None \<Longrightarrow> mo_SyncPeriod r' = mo_SyncPeriod r"
    "mo_Namespace r \<noteq> [] \<Longrightarrow> mo_Namespace r' = mo_Namespace r"
    "mo_MetricsBindAddress r \<noteq> [] \<Longrightarrow> mo_MetricsBindAddress r' = mo_MetricsBindAddress r"
    "mo_CacheSyncTimeout r \<noteq> None \<Longrightarrow> mo_CacheSyncTimeout r' = mo_CacheSyncTimeout r"
    "mo_GroupKindConcurrency r \<noteq> [] \<Longrightarrow> mo_GroupKindConcurrency r' = mo_GroupKindConcurrency r"
    "err \<noteq> None \<Longrightarrow> r' = r"
  using assms by (auto simp: AndFrom_def Let_def split: sum.splits option.splits if_splits)

section \<open>Sequences of operations\<close>

lemma runOps_Nil: "runOps [] cm = cm"
  by (simp add: runOps_def)

lemma runOps_Cons: "runOps (oper # ops) cm = runOps ops (snd (runOp oper cm))"
  by (simp add: runOps_def)

text \<open>What no operation changes: \<open>started\<close> stays as it is, an engaged stop procedure stays engaged.\<close>

lemma cm_add_keeps:
  "cm_started (snd (cm_add e r cm)) = cm_started cm"
  "cm_stopProcedureEngaged (snd (cm_add e r cm)) = cm_stopProcedureEngaged cm"
  by (simp_all add: cm_add_def Let_def split: option.split)

lemma startBody_keeps:
  "cm_started (snd (startBody E cm)) = cm_started cm"
  "cm_stopProcedureEngaged (snd (startBody E cm)) = cm_stopProcedureEngaged cm"
  using cm_add_keeps [of "se_SetFields E" clusterRunnable cm]
  by (cases "cm_add (se_SetFields E) clusterRunnable cm"; simp add: startBody_def Let_def split: option.split)+

lemma startReturn_keeps:
  "cm_started (snd (startReturn E err cm)) = cm_started cm"
  "cm_stopProcedureEngaged (snd (startReturn E err cm))"
  by (simp_all add: startReturn_def engageStopProcedure_def Let_def split: option.split shutdownEnd.split)

lemma startReturn_engaged: "cm_stopProcedureEngaged cm \<Longrightarrow> fst (startReturn E err cm) \<noteq> None"
  by (simp add: startReturn_def engageStopProcedure_def split: option.split)

lemma cm_Start_keeps:
  "cm_started (snd (cm_Start E cm)) = cm_started cm"
  "cm_stopProcedureEngaged cm \<Longrightarrow> cm_stopProcedureEngaged (snd (cm_Start E cm))"
  using startBody_keeps [of E cm]
  by (cases "startBody E cm"; simp add: cm_Start_def startReturn_keeps split: option.split)+

lemma startResume_keeps:
  "cm_started (snd (startResume E cm)) = cm_started cm"
  "cm_stopProcedureEngaged cm \<Longrightarrow> cm_stopProcedureEngaged (snd (startResume E cm))"
  by (simp_all add: startResume_def startReturn_keeps)

lemma runOp_keeps:
  "cm_started (snd (runOp oper cm)) = cm_started cm"
  "cm_stopProcedureEngaged cm \<Longrightarrow> cm_stopProcedureEngaged (snd (runOp oper cm))"
  by (cases oper; simp add: runOp_def cm_add_keeps AddHealthzCheck_def AddReadyzCheck_def cm_Start_keeps startResume_keeps
      closeElected_def Let_def)+

text \<open>A \<open>Start\<close> that has returned has engaged the stop procedure.\<close>

lemma start_returned:
  assumes "\<not> cm_started cm" and "oper \<in> {OpStart E, OpResume E}" and "fst (runOp oper cm) = Returned err"
  shows "cm_stopProcedureEngaged (snd (runOp oper cm))"
  using assms by (auto simp: runOp_def cm_Start_def startResume_def startReturn_keeps split: prod.splits option.splits if_splits)

lemma start_failed:
  assumes "\<not> cm_started cm" and "cm_stopProcedureEngaged cm" and "oper \<in> {OpStart E, OpResume E}"
    and "fst (runOp oper cm) = Returned err"
  shows "err \<noteq> None"
proof -
  obtain e cm' where b: "startBody E cm = (e, cm')" by (cases "startBody E cm")
  then have "cm_stopProcedureEngaged cm'" using startBody_keeps(2) [of E cm] assms(2) by simp
  then show ?thesis
    using assms startReturn_engaged [of cm' E] startReturn_engaged [of "cm\<lparr>cm_waiting := cm_waiting cm - 1\<rparr>" E]
    by (auto simp: runOp_def cm_Start_def startResume_def b split: option.splits if_splits)
qed

lemma runOps_keeps:
  "cm_started (runOps ops cm) = cm_started cm"
  "cm_stopProcedureEngaged cm \<Longrightarrow> cm_stopProcedureEngaged (runOps ops cm)"
  by (induction ops arbitrary: cm) (simp_all add: runOps_Nil runOps_Cons runOp_keeps)

lemma manager_New_started:
  "manager_New N opts = Inr cm \<Longrightarrow> \<not> cm_started cm \<and> \<not> cm_stopProcedureEngaged cm"
  by (auto simp: manager_New_def Let_def split: sum.splits option.splits)

text \<open>Nothing ever sets \<open>started\<close>: whatever was done to a manager before, as long as the process runs, checks are accepted, after \<open>Start\<close> too, when no
  server will serve them any more, and another \<open>Start\<close> is not refused but adds the cluster to the caches once more.\<close>

lemma manager_never_started:
  assumes "manager_New N opts = Inr cm" and "\<not> cm_crashed (runOps ops cm)"
  shows "fst (runOp (OpHealthz name c) (runOps ops cm)) = Returned None \<and>
    fst (runOp (OpReadyz name c) (runOps ops cm)) = Returned None \<and>
    (se_SetFields E = None \<and> \<not> cm_stopped (runOps ops cm) Caches \<longrightarrow>
      cm_runnables (snd (runOp (OpStart E) (runOps ops cm))) Caches = cm_runnables (runOps ops cm) Caches @ [clusterRunnable])"
proof -
  have ns: "\<not> cm_started (runOps ops cm)" using manager_New_started [OF assms(1)] by (simp add: runOps_keeps)
  then show ?thesis using assms(2)
    by (auto simp: runOp_def AddHealthzCheck_def AddReadyzCheck_def Let_def cm_Start_def startBody_def cm_add_def clusterRunnable_def
        runnables_Add_def startReturn_def engageStopProcedure_def split: option.split prod.split shutdownEnd.split)
qed

definition sampleEnv :: startEnv where
  "sampleEnv = \<lparr>se_SetFields = None, se_Caches = None, se_Others = None, se_Wait = None, se_Shutdown = Canceled,
     se_StoppedGroups = (\<lambda>_. False)\<rparr>"

definition sampleManager :: "nat controllerManager" where
  "sampleManager = \<lparr>cm_started = False, cm_stopProcedureEngaged = False, cm_healthzHandler = None, cm_readyzHandler = None,
     cm_runnables = (\<lambda>_. []), cm_stopped = (\<lambda>_. False), cm_gracefulShutdownTimeout = 30, cm_probes = False,
     cm_readinessEndpointName = ''/readyz'', cm_livenessEndpointName = ''/healthz'', cm_electing = 0, cm_elected = False,
     cm_crashed = False, cm_served = [], cm_waiting = 0\<rparr>"

definition sampleNew :: newEnv where
  "sampleNew = \<lparr>ne_cluster = None, ne_recorder = None, ne_listen = (\<lambda>_. None)\<rparr>"

lemma sampleManager_New:
  "manager_New sampleNew (Options0\<lparr>mo_HealthProbeBindAddress := ''0''\<rparr>) = Inr sampleManager"
  by (simp add: manager_New_def sampleNew_def Options0_def setOptionsDefaults_def defaultHealthProbeListener_def defaultGracefulShutdownPeriod_def
      sampleManager_def)

theorem manager_never_started_witness:
  "fst (runOp (OpHealthz ''healthz'' 1) (runOps [OpStart sampleEnv] sampleManager)) = Returned None \<and>
    cm_runnables (snd (runOp (OpStart sampleEnv) (runOps [OpStart sampleEnv] sampleManager))) Caches = [clusterRunnable, clusterRunnable]"
  using manager_never_started [OF sampleManager_New, of "[OpStart sampleEnv]" "''healthz''" 1 sampleEnv]
  by (simp add: runOps_def runOp_def sampleManager_def sampleEnv_def cm_Start_def startBody_def cm_add_def groupErr_def
      runnables_Add_def clusterRunnable_def)

text \<open>A \<open>Start\<close> that gets ready leaves a goroutine behind that closes \<open>elected\<close>.\<close>

lemma startBody_elected: "cm_elected (snd (startBody E cm)) = cm_elected cm"
  by (cases "cm_add (se_SetFields E) clusterRunnable cm")
    (auto simp: startBody_def Let_def cm_add_def split: option.splits if_splits)

lemma startBody_electing: "startBody E cm = (None, cm') \<Longrightarrow> cm_electing cm' > 0"
  by (auto simp: startBody_def Let_def split: prod.splits option.splits)

lemma startBody_crashed: "cm_crashed (snd (startBody E cm)) = cm_crashed cm"
  by (cases "cm_add (se_SetFields E) clusterRunnable cm")
    (auto simp: startBody_def Let_def cm_add_def split: option.splits if_splits)

lemma second_ready_crashes:
  assumes "fst (runOp (OpStart E) cm) = Waits" and "cm_elected cm"
  shows "cm_crashed (runOps [OpStart E, OpElected] cm)"
proof -
  have live: "\<not> cm_crashed cm" and "\<not> cm_started cm" using assms(1) by (auto simp: runOp_def cm_Start_def split: if_splits)
  moreover obtain cm' where b: "startBody E cm = (None, cm')"
    using assms(1) by (auto simp: runOp_def cm_Start_def split: if_splits prod.splits option.splits)
  ultimately show ?thesis
    using startBody_electing [OF b] startBody_elected [of E cm] startBody_crashed [of E cm] assms(2)
    by (simp add: runOps_def runOp_def cm_Start_def closeElected_def)
qed

text \<open>C38: the stop procedure runs once in the life of a manager: when one \<open>Start\<close> has returned, every other one that
  returns, waiting or called later, returns an error.  It need not return: when a second \<open>Start\<close> got ready as well, the
  end of its leader election goroutine crashes the process if the goroutine of the first has ended.\<close>

theorem every_other_start_fails:
  assumes "manager_New N opts = Inr cm" and "oper \<in> {OpStart E, OpResume E}" and "oper' \<in> {OpStart E', OpResume E'}"
    and "fst (runOp oper (runOps ops cm)) = Returned err"
    and "fst (runOp oper' (runOps ops' (snd (runOp oper (runOps ops cm))))) = Returned err'"
  shows "err' \<noteq> None \<and> (\<forall>opl F. (let cm' = runOps opl cm in
      fst (runOp (OpStart F) cm') = Waits \<and> cm_elected cm' \<longrightarrow> cm_crashed (runOps [OpStart F, OpElected] cm')))"
proof -
  have ns: "\<not> cm_started (runOps ops cm)" using manager_New_started [OF assms(1)] by (simp add: runOps_keeps)
  then have ns': "\<not> cm_started (runOps ops' (snd (runOp oper (runOps ops cm))))" by (simp add: runOps_keeps runOp_keeps)
  have "cm_stopProcedureEngaged (snd (runOp oper (runOps ops cm)))" by (rule start_returned [OF ns assms(2,4)])
  then have "cm_stopProcedureEngaged (runOps ops' (snd (runOp oper (runOps ops cm))))" by (rule runOps_keeps)
  from start_failed [OF ns' this assms(3,5)] show ?thesis unfolding Let_def using second_ready_crashes by blast
qed

text \<open>A \<open>Start\<close> that got ready and returned, and one after it, which finds the stopped caches.\<close>

definition stoppedEnv :: startEnv where
  "stoppedEnv = sampleEnv\<lparr>se_StoppedGroups := (\<lambda>_. True)\<rparr>"

lemmas start_evals = runOps_def runOp_def sampleManager_def sampleEnv_def stoppedEnv_def cm_Start_def startBody_def cm_add_def
  groupErr_def runnables_Add_def clusterRunnable_def startResume_def startReturn_def engageStopProcedure_def closeElected_def

theorem every_other_start_fails_witness:
  "fst (runOp (OpResume stoppedEnv) (runOps [OpStart sampleEnv, OpElected] sampleManager)) = Returned None \<and>
    (\<exists>e. fst (runOp (OpStart sampleEnv) (runOps [OpStart sampleEnv, OpElected, OpResume stoppedEnv] sampleManager)) = Returned (Some e)) \<and>
    cm_crashed (runOps [OpStart sampleEnv, OpElected, OpStart sampleEnv, OpElected] sampleManager)"
proof -
  let ?cm = "runOps [OpStart sampleEnv, OpElected] sampleManager"
  have one: "fst (runOp (OpResume stoppedEnv) ?cm) = Returned None" by (simp add: start_evals)
  have "\<exists>r. fst (runOp (OpStart sampleEnv) (snd (runOp (OpResume stoppedEnv) ?cm))) = Returned r"
    by (simp add: start_evals)
  then obtain r where two: "fst (runOp (OpStart sampleEnv) (snd (runOp (OpResume stoppedEnv) ?cm))) = Returned r" ..
  have "fst (runOp (OpStart sampleEnv) ?cm) = Waits" "cm_elected ?cm" by (simp_all add: start_evals)
  moreover note every_other_start_fails [OF sampleManager_New, of "OpResume stoppedEnv" stoppedEnv "OpStart sampleEnv" sampleEnv
      "[OpStart sampleEnv, OpElected]" None "[]" r]
  ultimately have "r \<noteq> None" "cm_crashed (runOps [OpStart sampleEnv, OpElected] ?cm)"
    using one two by (auto simp: runOps_Nil Let_def)
  then show ?thesis using one two by (auto simp: runOps_def)
qed

end
