(* ===== verification/Startup_Theorems.thy ===== *)
theory Startup_Theorems
  imports Startup Parser_Theorems Validator_Correct Controller_Theorems Manager_Theorems
begin

text \<open>
  The properties of the program's start: what is true of the configuration, the controller and the manager when the
  manager is started, and which configurations get there.
\<close>

section \<open>The watches\<close>

lemma watchAll_adds:
  "watchAll E wds c = Done (None, c') \<Longrightarrow> \<not> ct_Started c \<Longrightarrow>
    c' = c\<lparr>ct_startWatches := ct_startWatches c @ wds\<rparr>"
proof (induction E wds c rule: watchAll.induct)
  case (2 E wd wds c)
  then obtain c1 where w: "Watch E wd c = Done (None, c1)" and a: "watchAll E wds c1 = Done (None, c')"
    by (auto split: outcome.splits prod.splits option.splits)
  have c1: "c1 = c\<lparr>ct_startWatches := ct_startWatches c @ [wd]\<rparr>"
    using w 2(3) by (auto simp: Watch_def split: if_splits option.splits)
  from 2(1) [OF w refl refl a] show ?case using c1 2(3) by simp
qed simp

lemma watchLoop_adds:
  "watchLoop E g fow c = Some (Done (None, c')) \<Longrightarrow> \<not> ct_Started c \<Longrightarrow>
    map w_src (ct_startWatches c') = map w_src (ct_startWatches c) @ map (KindSource \<circ> fst) fow"
proof (induction E g fow c rule: watchLoop.induct)
  case (2 E g k od rest c)
  obtain eh c1 where eh: "watchHandler g od = Some eh"
    and w: "Watch E (WatchDescription (KindSource k) (HandleWatch eh)) c = Done (None, c1)"
    and l: "watchLoop E g rest c1 = Some (Done (None, c'))"
    using 2(2) by (auto split: Option.bind_splits outcome.splits prod.splits option.splits)
  have "c1 = c\<lparr>ct_startWatches := ct_startWatches c @ [WatchDescription (KindSource k) (HandleWatch eh)]\<rparr>"
    using w 2(3) by (auto simp: Watch_def split: if_splits option.splits)
  with 2(1) [OF eh w refl refl l] 2(3) show ?case by simp
qed simp

lemma GetFOW_id: "GetFOW fow r = fowMap fow r"
  by (simp add: GetFOW_def)

lemma doWatch_sources:
  assumes "doWatch E ctx c = Some (Done (None, c'))" and "\<not> ct_Started c"
  shows "map w_src (ct_startWatches c') = map w_src (ct_startWatches c) @ KindSource (GetForGVK ctx) # ChannelSource #
    map (KindSource \<circ> fst) (cec_own ctx) @ map (KindSource \<circ> fst) (cec_watch ctx)"
proof -
  have fow: "GetFOW FOWWatch ctx = cec_watch ctx" "GetFOW FOWOwn ctx = cec_own ctx"
    by (simp_all add: GetFOW_id fowMap_def)
  let ?wds = "[WatchDescription (KindSource (GetForGVK ctx)) EnqueueRequestForObject,
      WatchDescription ChannelSource EnqueueRequestForObject] @ ownWatches ctx"
  obtain c1 where w: "watchAll E ?wds c = Done (None, c1)"
    and l: "watchLoop E (fst (last (cec_watch ctx))) (cec_watch ctx) c1 = Some (Done (None, c'))"
    using assms(1) by (auto simp: doWatch_def Let_def fow split: outcome.splits prod.splits option.splits list.splits
        simp del: watchAll.simps)
  have c1: "c1 = c\<lparr>ct_startWatches := ct_startWatches c @ ?wds\<rparr>" by (rule watchAll_adds [OF w assms(2)])
  have own: "map w_src (ownWatches ctx) = map (KindSource \<circ> fst) (cec_own ctx)"
    by (simp add: ownWatches_def fow split_def)
  have "\<not> ct_Started c1" using c1 assms(2) by simp
  from watchLoop_adds [OF l this] show ?thesis using c1 own by simp
qed





section \<open>What has happened when the manager is started\<close>

lemma checkMappings_None: "checkMappings m gs = Some None \<longleftrightarrow> (\<forall>g\<in>set gs. \<exists>k. g = Some k \<and> m k = None)"
  by (induction m gs rule: checkMappings.induct) (auto split: Option.bind_splits)

lemma main_configured:
  assumes "main E = Some (ManagerStart cfg ctx c res cm)"
  obtains cm\<^sub>0 where "manager_New (mn_new E) (managerOptions E) = Inr cm\<^sub>0"
    "mainConfigured E cfg cm\<^sub>0 = Some (ManagerStart cfg ctx c res cm)"
proof -
  obtain cfg' cm\<^sub>0 where cm: "manager_New (mn_new E) (managerOptions E) = Inr cm\<^sub>0"
    and r: "mainConfigured E cfg' cm\<^sub>0 = Some (ManagerStart cfg ctx c res cm)"
    using assms by (auto simp: main_def split: if_splits sum.splits)
  have "cfg' = cfg" using r
    by (auto simp: mainConfigured_def mainStart_def split: if_splits Option.bind_splits option.splits outcome.splits prod.splits)
  then show thesis using that cm r by blast
qed

lemma mainConfigured_steps:
  assumes "mainConfigured E cfg cm\<^sub>0 = Some (ManagerStart cfg ctx c res cm)"
  obtains gvks where "ValidateSyntax (mn_k8s E) cfg = Some []"
    "Parse (mn_k8s E) (mn_orders E) (mn_fuel E) cfg = Some (Some ctx, [])"
    "GetExternalResources (mn_k8s E) cfg = Some (gvks, [])"
    "checkMappings (mn_RESTMapping E) gvks = Some None"
    "mainBuild E ctx cm\<^sub>0 = Some (Done (Some c, None))"
    "mainStart E cfg ctx c (snd (cm_add (mn_injectController E) controllerRunnable cm\<^sub>0)) = ManagerStart cfg ctx c res cm"
proof -
  have start: "mainStart E cfg x y z = ManagerStart cfg ctx c res cm \<Longrightarrow> x = ctx \<and> y = c" for x y z
    by (auto simp: mainStart_def split: option.splits prod.splits)
  obtain gvks x y where "ValidateSyntax (mn_k8s E) cfg = Some []"
    "Parse (mn_k8s E) (mn_orders E) (mn_fuel E) cfg = Some (Some x, [])"
    "GetExternalResources (mn_k8s E) cfg = Some (gvks, [])"
    "checkMappings (mn_RESTMapping E) gvks = Some None"
    "mainBuild E x cm\<^sub>0 = Some (Done (Some y, None))"
    "mainStart E cfg x y (snd (cm_add (mn_injectController E) controllerRunnable cm\<^sub>0)) = ManagerStart cfg ctx c res cm"
    using assms
    by (auto simp: mainConfigured_def NewParser_def split: if_splits Option.bind_splits option.splits outcome.splits prod.splits)
  then show thesis using that start by blast
qed

lemma config_events_valid: "ValidateSyntax K cfg = Some [] \<Longrightarrow> config_valid K cfg"
  using ValidateSyntax_grows [of K cfg] by (auto simp: grows_def)

text \<open>C8: The manager is started only for a configuration that is valid and parsed: its graphs are well-formed and have
  exactly the vertices it asks for, and the API server knows every kind of its resources, of the inputs of its functions
  and of their outputs that are not internal.  The kinds of internal outputs and of services are not looked up.\<close>

theorem main_starts_accepted:
  assumes "main E = Some (ManagerStart cfg ctx c res cm)" and "all_orders_ok (mn_orders E)"
  defines "es \<equiv> set (configEvents (\<lambda>r. fst (GetGVK (mn_k8s E) r)) cfg)"
  shows "config_valid (mn_k8s E) cfg \<and> graphs_ok ctx \<and>
    verts ctx = (\<Union>e \<in> es. eventVertices (\<lambda>r. fst (GetGVK (mn_k8s E) r)) e) \<and>
    (\<forall>r \<in> (\<Union>e \<in> es. eventResources e). \<exists>g. fst (GetGVK (mn_k8s E) r) = Some g \<and> mn_RESTMapping E g = None)"
proof -
  obtain cm\<^sub>0 where "mainConfigured E cfg cm\<^sub>0 = Some (ManagerStart cfg ctx c res cm)" using assms(1) by (rule main_configured)
  then obtain gvks where v: "ValidateSyntax (mn_k8s E) cfg = Some []"
    and p: "Parse (mn_k8s E) (mn_orders E) (mn_fuel E) cfg = Some (Some ctx, [])"
    and r: "GetExternalResources (mn_k8s E) cfg = Some (gvks, [])" and m: "checkMappings (mn_RESTMapping E) gvks = Some None"
    by (rule mainConfigured_steps)
  obtain gvar ctx0 where "build (mn_k8s E) cfg = Some (gvar, ctx0)" using p by (rule Parse_context)
  note g = parsed_graphs [OF p assms(2) this]
  have "set gvks = (\<lambda>r. fst (GetGVK (mn_k8s E) r)) ` (\<Union>e \<in> es. eventResources e)"
    using external_resources [OF r] by (simp add: es_def)
  then have "\<forall>r \<in> (\<Union>e \<in> es. eventResources e). \<exists>g. fst (GetGVK (mn_k8s E) r) = Some g \<and> mn_RESTMapping E g = None"
    using m unfolding checkMappings_None by blast
  then show ?thesis using g config_events_valid [OF v] unfolding es_def by blast
qed

section \<open>The controller and the manager when they start\<close>

lemma doWatch_keeps:
  assumes "doWatch E ctx c = Some (Done (None, c'))" and "\<not> ct_Started c"
  shows "ct_MaxConcurrentReconciles c' = ct_MaxConcurrentReconciles c"
proof -
  have loop: "watchLoop E g fow c = Some (Done (None, c')) \<Longrightarrow> ct_MaxConcurrentReconciles c' = ct_MaxConcurrentReconciles c"
    for g fow c
    by (induction E g fow c rule: watchLoop.induct)
      (auto simp: Watch_def split: Option.bind_splits outcome.splits prod.splits option.splits if_splits)
  obtain wds c1 where "watchAll E wds c = Done (None, c1)"
    and "c' = c1 \<or> (\<exists>g fow. watchLoop E g fow c1 = Some (Done (None, c')))"
    using assms(1) by (auto simp: doWatch_def Let_def split: outcome.splits prod.splits option.splits list.splits
        simp del: watchAll.simps watchLoop.simps)
  then show ?thesis using watchAll_adds [of E wds c c1] assms(2) loop by auto
qed

lemma engageStopProcedure_keeps:
  "cm_runnables (snd (engageStopProcedure E cm)) = cm_runnables cm"
  "cm_healthzHandler (snd (engageStopProcedure E cm)) = cm_healthzHandler cm"
  "cm_readyzHandler (snd (engageStopProcedure E cm)) = cm_readyzHandler cm"
  by (cases "se_Shutdown E"; simp add: engageStopProcedure_def Let_def)+

lemma startReturn_snd: "snd (startReturn E err cm) = snd (engageStopProcedure E cm)"
  by (cases "engageStopProcedure E cm"; cases err) (simp_all add: startReturn_def split: option.split)

lemma cm_add_cluster:
  "cm_runnables (snd (cm_add e clusterRunnable cm)) LeaderElection = cm_runnables cm LeaderElection"
  "cm_healthzHandler (snd (cm_add e clusterRunnable cm)) = cm_healthzHandler cm"
  "cm_readyzHandler (snd (cm_add e clusterRunnable cm)) = cm_readyzHandler cm"
  by (cases e; simp add: cm_add_def clusterRunnable_def runnables_Add_def)+

lemma startBody_groups:
  "cm_runnables (snd (startBody E cm)) LeaderElection = cm_runnables cm LeaderElection"
  "cm_healthzHandler (snd (startBody E cm)) = cm_healthzHandler cm"
  "cm_readyzHandler (snd (startBody E cm)) = cm_readyzHandler cm"
  using cm_add_cluster [of "se_SetFields E" cm]
  by (cases "cm_add (se_SetFields E) clusterRunnable cm"; simp add: startBody_def Let_def split: option.split)+

lemma cm_Start_groups:
  "cm_runnables (snd (cm_Start E cm)) LeaderElection = cm_runnables cm LeaderElection"
  "cm_healthzHandler (snd (cm_Start E cm)) = cm_healthzHandler cm"
  "cm_readyzHandler (snd (cm_Start E cm)) = cm_readyzHandler cm"
  using startBody_groups [of E cm]
  by (cases "startBody E cm"; simp add: cm_Start_def startReturn_snd engageStopProcedure_keeps split: option.split)+

text \<open>C24: When the manager is started, one controller of eight workers is waiting in its leader election group, with a watch
  for the main resource, one for the channel of generic events and one for every watched kind: owned kinds have none.
  The ping checks for health and readiness are in place.\<close>

theorem main_watches:
  assumes "main E = Some (ManagerStart cfg ctx c res cm)"
  shows "map w_src (ct_startWatches c) = KindSource (GetForGVK ctx) # ChannelSource # map (KindSource \<circ> fst) (cec_watch ctx) \<and>
    ct_MaxConcurrentReconciles c = 8 \<and> cm_runnables cm LeaderElection = [controllerRunnable] \<and>
    cm_healthzHandler cm = Some [(''healthz'', mn_Ping E)] \<and> cm_readyzHandler cm = Some [(''readyz'', mn_Ping E)]"
proof -
  obtain cm\<^sub>0 where new: "manager_New (mn_new E) (managerOptions E) = Inr cm\<^sub>0"
    and m: "mainConfigured E cfg cm\<^sub>0 = Some (ManagerStart cfg ctx c res cm)"
    using assms by (rule main_configured)
  from m obtain p: "Parse (mn_k8s E) (mn_orders E) (mn_fuel E) cfg = Some (Some ctx, [])"
    and b: "mainBuild E ctx cm\<^sub>0 = Some (Done (Some c, None))"
    and s: "mainStart E cfg ctx c (snd (cm_add (mn_injectController E) controllerRunnable cm\<^sub>0)) = ManagerStart cfg ctx c res cm"
    by (rule mainConfigured_steps)
  obtain c0 where w: "doWatch (mn_environ E) ctx c0 = Some (Done (None, c))"
    and c0: "\<not> ct_Started c0" "ct_startWatches c0 = []" "ct_MaxConcurrentReconciles c0 = 8"
    and add: "fst (cm_add (mn_injectController E) controllerRunnable cm\<^sub>0) = None"
    using b by (auto simp: mainBuild_def Build_def doController_def controller_New_def NewUnmanaged_def controllerOptions_def Let_def
        simp del: doWatch_def split: prod.splits option.splits if_splits Option.bind_splits outcome.splits)
  have cm0: "cm_runnables cm\<^sub>0 = (\<lambda>_. [])" "cm_healthzHandler cm\<^sub>0 = None" "cm_readyzHandler cm\<^sub>0 = None"
      "\<not> cm_started cm\<^sub>0" "cm_stopped cm\<^sub>0 = (\<lambda>_. False)"
    using new by (auto simp: manager_New_def Let_def split: option.splits sum.splits)
  have "map w_src (ct_startWatches c) = KindSource (GetForGVK ctx) # ChannelSource # map (KindSource \<circ> fst) (cec_watch ctx)"
    using doWatch_sources [OF w c0(1)] c0(2) Parse_kinds(1) [OF p] by simp
  moreover have "ct_MaxConcurrentReconciles c = 8" using doWatch_keeps [OF w c0(1)] c0(3) by simp
  moreover have "cm = snd (cm_Start (mn_start E) ((snd (cm_add (mn_injectController E) controllerRunnable cm\<^sub>0))
      \<lparr>cm_healthzHandler := Some [(''healthz'', mn_Ping E)], cm_readyzHandler := Some [(''readyz'', mn_Ping E)]\<rparr>))"
    using s add cm0 by (auto simp: mainStart_def AddHealthzCheck_def AddReadyzCheck_def cm_add_def Let_def
        split: prod.splits option.splits)
  ultimately show ?thesis using add cm0
    by (auto simp: cm_Start_groups cm_add_def runnables_Add_def controllerRunnable_def Let_def split: option.splits)
qed

section \<open>Configurations that start\<close>


section \<open>The chain starts\<close>

definition sampleMain :: "unit mainEnv" where
  "sampleMain = \<lparr>mn_getConfig = None, mn_new = sampleNew, mn_probeAddr = '':8081'', mn_namespace = '''',
     mn_ReadFile = Inr ''chain'', mn_Unmarshal = (\<lambda>_. Inr chainCfg), mn_k8s = sampleK, mn_orders = (\<lambda>_. id_orders), mn_fuel = 9,
     mn_RESTMapping = (\<lambda>_. None), mn_toLower = (\<lambda>n. n), mn_injectReconciler = None, mn_injectController = None,
     mn_globalTimeout = None, mn_environ = sampleEnviron, mn_Ping = (), mn_start = sampleEnv\<rparr>"

lemma chain_starts: "\<exists>ctx c res cm. main sampleMain = Some (ManagerStart chainCfg ctx c res cm)"
proof -
  have "map_option (\<lambda>r. case r of ManagerStart cfg ctx c res cm \<Rightarrow> True | _ \<Rightarrow> False) (main sampleMain) = Some True"
    by code_simp
  then obtain r where r: "main sampleMain = Some r" "case r of ManagerStart cfg ctx c res cm \<Rightarrow> True | _ \<Rightarrow> False" by auto
  then obtain cfg ctx c res cm where m: "main sampleMain = Some (ManagerStart cfg ctx c res cm)"
    by (cases r) auto
  have "cfg = chainCfg"
    using m by (auto simp: main_def sampleMain_def mainConfigured_def mainStart_def
        split: if_splits Option.bind_splits option.splits outcome.splits prod.splits sum.splits)
  then show ?thesis using m by blast
qed

theorem main_starts_accepted_witness:
  "\<exists>ctx c res cm. main sampleMain = Some (ManagerStart chainCfg ctx c res cm) \<and> config_valid sampleK chainCfg \<and> graphs_ok ctx"
proof -
  obtain ctx c res cm where m: "main sampleMain = Some (ManagerStart chainCfg ctx c res cm)" using chain_starts by blast
  have "all_orders_ok (mn_orders sampleMain)" by (simp add: sampleMain_def all_orders_ok_id)
  from main_starts_accepted [OF m this] m show ?thesis by (auto simp: sampleMain_def)
qed

theorem main_watches_witness:
  "\<exists>ctx c res cm. main sampleMain = Some (ManagerStart chainCfg ctx c res cm) \<and> ct_MaxConcurrentReconciles c = 8 \<and>
    cm_runnables cm LeaderElection = [controllerRunnable]"
proof -
  obtain ctx c res cm where m: "main sampleMain = Some (ManagerStart chainCfg ctx c res cm)" using chain_starts by blast
  from main_watches [OF m] m show ?thesis by blast
qed


end
