(* ===== verification/Fnruntime.thy ===== *)
theory Fnruntime
  imports Function_Types
begin

text \<open>
  How a function is started (pkg/exec/fnruntime: runner.go, container.go, exec.go, fnerrors.go,
  multilineformatter.go, and the pull policies of pkg/exec/fnlib).

  What comes from outside is the parameter \<open>rtlib\<close>: the environment of the process, what a command answers, which may
  depend on the commands run before, the
  shell-word splitter, the version comparison, the container environment of kyaml and the JSON of a
  resource context.  Times, logging and the clean-up of file paths are left out, and so are the hints on how to
  install a tool in the error texts; upper-case letters are those of ASCII.
\<close>

section \<open>Outside the repository\<close>

datatype cmdErr = ExitError int | CmdErr string

record cmdOut =
  co_Stdout :: raw
  co_Stderr :: raw
  co_Err :: "cmdErr option"

record StorageMount =
  sm_MountType :: string
  sm_Src :: string
  sm_DstPath :: string

record 'e rtlib =
  getenv :: "string \<Rightarrow> string"
  runCmd :: "(string list \<times> raw) list \<Rightarrow> string list \<Rightarrow> raw \<Rightarrow> cmdOut"
  shlexSplit :: "string \<Rightarrow> string + string list"
  semverIsValid :: "string \<Rightarrow> bool"
  semverCompare :: "string \<Rightarrow> string \<Rightarrow> int"
  mountString :: "StorageMount \<Rightarrow> string"
  ContainerEnv0 :: 'e
  AddKey :: "string \<Rightarrow> 'e \<Rightarrow> 'e"
  AddKeyValue :: "string \<Rightarrow> string \<Rightarrow> 'e \<Rightarrow> 'e"
  GetDockerFlags :: "'e \<Rightarrow> string list"
  marshalRctx :: "rctx \<Rightarrow> string + raw"
  unmarshalRctx :: "raw \<Rightarrow> string + rctx"

section \<open>The process\<close>

text \<open>What lasts from one call to the next: whether the container runtime has been checked (a \<open>sync.Once\<close>), and the
  commands the process has run so far, with what they read.\<close>

record process =
  pr_checked :: bool
  pr_cmds :: "(string list \<times> raw) list"

definition execCmd :: "'e rtlib \<Rightarrow> string list \<Rightarrow> raw \<Rightarrow> process \<Rightarrow> cmdOut \<times> process" where
  "execCmd E cmd stdin p = (runCmd E (pr_cmds p) cmd stdin, p\<lparr>pr_cmds := pr_cmds p @ [(cmd, stdin)]\<rparr>)"

section \<open>Strings\<close>

definition toLower :: "char \<Rightarrow> char" where
  "toLower c = (if 65 \<le> (of_char c :: nat) \<and> (of_char c :: nat) \<le> 90 then char_of (of_char c + 32 :: nat) else c)"

definition strToLower :: "string \<Rightarrow> string" where
  "strToLower s = map toLower s"

definition newline :: char where
  "newline = CHR 0x0A"

definition itoa :: "int \<Rightarrow> string" where
  "itoa i = (if i < 0 then CHR ''-'' # Sprint (nat (- i)) else Sprint (nat i))"

text \<open>\<open>%q\<close>.\<close>

definition hexDigit :: "nat \<Rightarrow> char" where
  "hexDigit n = ''0123456789abcdef'' ! (n mod 16)"

definition escapeChar :: "char \<Rightarrow> string" where
  "escapeChar c =
     (let n = (of_char c :: nat) in
      if n = 34 \<or> n = 92 then [CHR 0x5C, c]
      else if n = 7 then [CHR 0x5C, CHR ''a''] else if n = 8 then [CHR 0x5C, CHR ''b'']
      else if n = 12 then [CHR 0x5C, CHR ''f''] else if n = 10 then [CHR 0x5C, CHR ''n'']
      else if n = 13 then [CHR 0x5C, CHR ''r''] else if n = 9 then [CHR 0x5C, CHR ''t'']
      else if n = 11 then [CHR 0x5C, CHR ''v'']
      else if n < 32 \<or> n = 127 then [CHR 0x5C, CHR ''x'', hexDigit (n div 16), hexDigit n]
      else [c])"

definition goQuote :: "string \<Rightarrow> string" where
  "goQuote s = CHR 0x22 # concat (map escapeChar s) @ [CHR 0x22]"

section \<open>Errors (fnerrors.go, multilineformatter.go)\<close>

record multiLineFormatter =
  ml_Title :: string
  ml_Lines :: "string list"
  ml_TruncateOutput :: bool
  ml_MaxLines :: int
  ml_UseQuote :: bool

definition FnExecErrorTruncateLines :: int where
  "FnExecErrorTruncateLines = 4"

definition formatLine :: "bool \<Rightarrow> string \<Rightarrow> string" where
  "formatLine useQuote s =
     (let s = map (\<lambda>c. if c = newline then CHR '' '' else c) s
      in ''    '' @ (if useQuote then goQuote s else s) @ [newline])"

definition multiLineString :: "multiLineFormatter \<Rightarrow> string" where
  "multiLineString ri =
     (let maxLines = (if ml_MaxLines ri = 0 then FnExecErrorTruncateLines else ml_MaxLines ri);
          title = ''  '' @ ml_Title ri @ '':'' @ [newline]
      in if \<not> ml_TruncateOutput ri then title @ concat (map (formatLine (ml_UseQuote ri)) (ml_Lines ri))
         else
           let printed = take (nat maxLines) (ml_Lines ri);
               truncatedLines = length (ml_Lines ri) - length printed
           in title @ concat (map (formatLine (ml_UseQuote ri)) printed) @
                (if truncatedLines > 0
                 then ''    ...('' @ Sprint truncatedLines @
                   '' line(s) truncated, use '' @ [CHR 0x27] @ ''--truncate-output=false'' @ [CHR 0x27] @ '' to disable)'' @ [newline]
                 else ''''))"

record ExecError =
  ee_TruncateOutput :: bool
  ee_Stderr :: string
  ee_ExitCode :: int

definition ExecErrorString :: "ExecError \<Rightarrow> string" where
  "ExecErrorString fe =
     multiLineString \<lparr>ml_Title = ''Stderr'', ml_Lines = strSplit (ee_Stderr fe) newline,
       ml_TruncateOutput = ee_TruncateOutput fe, ml_MaxLines = 0, ml_UseQuote = True\<rparr> @
     ''  Exit Code: '' @ itoa (ee_ExitCode fe) @ [newline]"

datatype runErr = RunExecError ExecError | RunErr string

fun runErrString :: "runErr \<Rightarrow> string" where
  "runErrString (RunExecError fe) = ExecErrorString fe"
| "runErrString (RunErr m) = m"

section \<open>Container runtimes (container.go)\<close>

datatype ContainerRuntime = Docker | Podman | Nerdctl

definition dockerBin :: string where "dockerBin = ''docker''"
definition podmanBin :: string where "podmanBin = ''podman''"
definition nerdctlBin :: string where "nerdctlBin = ''nerdctl''"

definition GetBin :: "ContainerRuntime \<Rightarrow> string" where
  "GetBin r = (case r of Podman \<Rightarrow> podmanBin | Nerdctl \<Rightarrow> nerdctlBin | _ \<Rightarrow> podmanBin)"

definition StringToContainerRuntime :: "string \<Rightarrow> string + ContainerRuntime" where
  "StringToContainerRuntime v =
     (let s = strToLower v in
      if s = dockerBin then Inr Docker
      else if s = podmanBin then Inr Podman
      else if s = nerdctlBin then Inr Nerdctl
      else if s = '''' then Inr Podman
      else Inl (''unsupported runtime: '' @ goQuote v @ '' the runtime must be either docker or podman''))"

definition minSupportedDockerVersion :: string where
  "minSupportedDockerVersion = ''v20.10.0''"

definition isSupportedDockerVersion :: "'e rtlib \<Rightarrow> string \<Rightarrow> goerr" where
  "isSupportedDockerVersion E v =
     (let currentDockerVersion = ''v'' @ v in
      if \<not> semverIsValid E currentDockerVersion
      then Some (''found invalid version '' @ currentDockerVersion)
      else if semverCompare E minSupportedDockerVersion currentDockerVersion > 0
      then Some (''found '' @ currentDockerVersion)
      else None)"

definition trimNewline :: "string \<Rightarrow> string" where
  "trimNewline s = (if s \<noteq> [] \<and> last s = newline then butlast s else s)"

definition dockerCmdAvailable :: "'e rtlib \<Rightarrow> process \<Rightarrow> goerr \<times> process" where
  "dockerCmdAvailable E p =
     (case execCmd E [dockerBin, ''version'', ''--format'', ''{{.Client.Version}}''] '''' p of (cmdOut, p) \<Rightarrow>
        (if co_Err cmdOut \<noteq> None \<or> co_Stdout cmdOut = ''''
         then Some ''docker must be running to use this command''
         else isSupportedDockerVersion E (trimNewline (co_Stdout cmdOut)), p))"

definition podmanCmdAvailable :: "'e rtlib \<Rightarrow> process \<Rightarrow> goerr \<times> process" where
  "podmanCmdAvailable E p =
     (case execCmd E [podmanBin, ''version''] '''' p of (cmdOut, p) \<Rightarrow>
        (if co_Err cmdOut \<noteq> None then Some ''podman must be installed.'' else None, p))"

definition nerdctlCmdAvailable :: "'e rtlib \<Rightarrow> process \<Rightarrow> goerr \<times> process" where
  "nerdctlCmdAvailable E p =
     (case execCmd E [nerdctlBin, ''version''] '''' p of (cmdOut, p) \<Rightarrow>
        (if co_Err cmdOut \<noteq> None then Some ''nerdctl must be installed.'' else None, p))"

definition ContainerRuntimeAvailable :: "'e rtlib \<Rightarrow> ContainerRuntime \<Rightarrow> process \<Rightarrow> goerr \<times> process" where
  "ContainerRuntimeAvailable E r p =
     (case r of Docker \<Rightarrow> dockerCmdAvailable E p | Podman \<Rightarrow> podmanCmdAvailable E p
      | Nerdctl \<Rightarrow> nerdctlCmdAvailable E p)"

text \<open>\<open>checkContainerRuntimeOnce\<close>: the first call checks, all others find no error.\<close>

definition checkOnce :: "'e rtlib \<Rightarrow> ContainerRuntime \<Rightarrow> process \<Rightarrow> goerr \<times> process" where
  "checkOnce E r p =
     (if pr_checked p then (None, p)
      else case ContainerRuntimeAvailable E r p of (err, p) \<Rightarrow> (err, p\<lparr>pr_checked := True\<rparr>))"

section \<open>What the command line tools print\<close>

text \<open>\<open>bufio.Scanner\<close>: the lines without their newline and one carriage return before it; an empty rest is no
  line, and a line that does not fit the buffer of 65536 bytes ends the scan.\<close>

definition dropCR :: "string \<Rightarrow> string" where
  "dropCR s = (if s \<noteq> [] \<and> last s = CHR 0x0D then butlast s else s)"

fun scanTokens :: "string list \<Rightarrow> string list" where
  "scanTokens [] = []"
| "scanTokens [s] = (if s = '''' \<or> length s \<ge> 65536 then [] else [dropCR s])"
| "scanTokens (s # rest) = (if length s \<ge> 65536 then [] else dropCR s # scanTokens rest)"

definition scanLines :: "string \<Rightarrow> string list" where
  "scanLines s = scanTokens (strSplit s newline)"

definition containsAny :: "string list \<Rightarrow> string \<Rightarrow> bool" where
  "containsAny pats s = list_ex (strContains s) pats"

definition isHex :: "char \<Rightarrow> bool" where
  "isHex c \<longleftrightarrow> c \<in> set ''ABCDEFabcdef0123456789''"

definition sha256Match :: "string \<Rightarrow> bool" where
  "sha256Match s \<longleftrightarrow> length s = 64 \<and> list_all isHex s"

definition isdockerCLIoutput :: "string \<Rightarrow> bool" where
  "isdockerCLIoutput s = containsAny ['': Already exists'', '': Pulling fs layer'', '': Verifying Checksum'',
     '': Download complete'', '': Pulling from'', '': Waiting'', '': Pull complete'', ''Digest: sha256'',
     ''Status: Downloaded newer image'', ''Unable to find image''] s"

definition isPodmanCLIoutput :: "string \<Rightarrow> bool" where
  "isPodmanCLIoutput s \<longleftrightarrow> containsAny [''Trying to pull'', ''Getting image source signatures'',
     ''Copying blob sha256:'', ''Copying config sha256:'', ''Writing manifest to image destination'',
     ''Storing signatures''] s \<or> sha256Match s"

definition isNerdctlCLIoutput :: "string \<Rightarrow> bool" where
  "isNerdctlCLIoutput s \<longleftrightarrow> containsAny [''index-sha256:'', ''Copying blob sha256:'', ''manifest-sha256:'',
     ''config-sha256:'', ''layer-sha256:'', ''elapsed:'', replicate 38 CHR ''+'', replicate 38 CHR ''-''] s \<or>
     sha256Match s"

definition filterCLIOutput :: "(string \<Rightarrow> bool) \<Rightarrow> string \<Rightarrow> string" where
  "filterCLIOutput isCLIoutput s = strJoin (filter (\<lambda>txt. \<not> isCLIoutput txt) (scanLines s)) [newline]"

definition filterDockerCLIOutput :: "string \<Rightarrow> string" where
  "filterDockerCLIOutput = filterCLIOutput isdockerCLIoutput"

definition filterPodmanCLIOutput :: "string \<Rightarrow> string" where
  "filterPodmanCLIOutput = filterCLIOutput isPodmanCLIoutput"

definition filterNerdctlCLIOutput :: "string \<Rightarrow> string" where
  "filterNerdctlCLIOutput = filterCLIOutput isNerdctlCLIoutput"

section \<open>A function in a container\<close>

datatype ImagePullPolicy = AlwaysPull | IfNotPresentPull | NeverPull | OtherPolicy string

record ContainerFn =
  cf_Image :: string
  cf_ImagePullPolicy :: ImagePullPolicy
  cf_AllowNetwork :: bool
  cf_AllowMount :: bool
  cf_UIDGID :: string
  cf_StorageMounts :: "StorageMount list"
  cf_Env :: "string list"
  cf_ResultStderr :: string

definition NewContainerEnvFromStringSlice :: "'e rtlib \<Rightarrow> string list \<Rightarrow> 'e" where
  "NewContainerEnvFromStringSlice E envStr =
     fold (\<lambda>e ce. let parts = strSplitN e CHR ''='' 2 in
                  if length parts = 1 then AddKey E e ce else AddKeyValue E (parts ! 0) (parts ! 1) ce)
       envStr (ContainerEnv0 E)"

definition getCmd :: "'e rtlib \<Rightarrow> ContainerFn \<Rightarrow> string \<Rightarrow> string list" where
  "getCmd E f binName =
     (let network = (if cf_AllowNetwork f then ''host'' else ''none'');
          uidgid = (if cf_UIDGID f \<noteq> '''' then cf_UIDGID f else ''nobody'');
          pull = (case cf_ImagePullPolicy f of NeverPull \<Rightarrow> ''never'' | AlwaysPull \<Rightarrow> ''always''
            | IfNotPresentPull \<Rightarrow> ''missing'' | _ \<Rightarrow> ''missing'')
      in [binName, ''run'', ''--rm'', ''-i'', ''--network'', network, ''--user'', uidgid,
          ''--security-opt=no-new-privileges'', ''--pull'', pull] @
         concat (map (\<lambda>mnt. [''--mount'', mountString E mnt]) (cf_StorageMounts f)) @
         GetDockerFlags E (NewContainerEnvFromStringSlice E (cf_Env f)) @ [cf_Image f])"

text \<open>\<open>printer.TruncateOutput\<close> is never set.\<close>

definition runCLI :: "'e rtlib \<Rightarrow> ContainerFn \<Rightarrow> raw \<Rightarrow> string \<Rightarrow> (string \<Rightarrow> string) \<Rightarrow> process \<Rightarrow>
    (runErr option \<times> raw \<times> ContainerFn) \<times> process" where
  "runCLI E f stdin bin filterCLIOutputFn p =
     (case execCmd E (getCmd E f bin) stdin p of (res, p) \<Rightarrow>
        (case co_Err res of
           Some (ExitError code) \<Rightarrow>
             (Some (RunExecError \<lparr>ee_TruncateOutput = False, ee_Stderr = filterCLIOutputFn (co_Stderr res), ee_ExitCode = code\<rparr>),
              co_Stdout res, f)
         | Some (CmdErr m) \<Rightarrow> (Some (RunErr (''unexpected function error: '' @ m)), co_Stdout res, f)
         | None \<Rightarrow>
             (None, co_Stdout res,
              if length (co_Stderr res) > 0 then f\<lparr>cf_ResultStderr := filterCLIOutputFn (co_Stderr res)\<rparr> else f), p))"

text \<open>\<open>FnRun\<close> and \<open>SvcRun\<close> differ in the streams only.\<close>

definition ContainerFnRun :: "'e rtlib \<Rightarrow> ContainerFn \<Rightarrow> raw \<Rightarrow> process \<Rightarrow>
    (runErr option \<times> raw \<times> ContainerFn) \<times> process" where
  "ContainerFnRun E f stdin p =
     (case StringToContainerRuntime (getenv E ''KPT_FN_RUNTIME'') of
        Inl err \<Rightarrow> ((Some (RunErr err), '''', f), p)
      | Inr r \<Rightarrow>
          (case checkOnce E r p of
             (Some err, p) \<Rightarrow> ((Some (RunErr err), '''', f), p)
           | (None, p) \<Rightarrow>
               (case r of
                  Podman \<Rightarrow> runCLI E f stdin podmanBin filterPodmanCLIOutput p
                | Nerdctl \<Rightarrow> runCLI E f stdin nerdctlBin filterNerdctlCLIOutput p
                | Docker \<Rightarrow> runCLI E f stdin dockerBin filterDockerCLIOutput p)))"

definition ContainerSvcRun :: "'e rtlib \<Rightarrow> ContainerFn \<Rightarrow> process \<Rightarrow> (runErr option \<times> ContainerFn) \<times> process" where
  "ContainerSvcRun E f p =
     (case ContainerFnRun E f '''' p of ((err, out, f), p) \<Rightarrow> ((err, f), p))"

section \<open>A function as a process (exec.go)\<close>

record ExecFn =
  ef_Path :: string
  ef_Args :: "string list"
  ef_ResultStderr :: string

definition ExecFnRun :: "'e rtlib \<Rightarrow> ExecFn \<Rightarrow> raw \<Rightarrow> process \<Rightarrow> (runErr option \<times> raw \<times> ExecFn) \<times> process" where
  "ExecFnRun E f stdin p =
     (case execCmd E (ef_Path f # ef_Args f) stdin p of (res, p) \<Rightarrow>
        (case co_Err res of
           Some (ExitError code) \<Rightarrow>
             (Some (RunExecError \<lparr>ee_TruncateOutput = False, ee_Stderr = co_Stderr res, ee_ExitCode = code\<rparr>), co_Stdout res, f)
         | Some (CmdErr m) \<Rightarrow> (Some (RunErr (''unexpected function error: '' @ m)), co_Stdout res, f)
         | None \<Rightarrow>
             (None, co_Stdout res, if length (co_Stderr res) > 0 then f\<lparr>ef_ResultStderr := co_Stderr res\<rparr> else f), p))"

section \<open>Runners (runner.go)\<close>

datatype FunctionKind = FuntionKindFunction | FunctionKindService | OtherKind string

record RunnerOptions =
  ro_Kind :: FunctionKind
  ro_ServicePort :: int
  ro_ImagePullPolicy :: ImagePullPolicy
  ro_ResolveToImage :: "string \<Rightarrow> string + string"

datatype fnRunner = RunContainer ContainerFn | RunExec ExecFn

record runner =
  rn_opts :: RunnerOptions
  rn_fnRunner :: fnRunner

definition ResolveToImageForCLI :: "string \<Rightarrow> string + string" where
  "ResolveToImageForCLI img =
     (if \<not> strContains img ''/'' then Inr (''docker.io/yndd/'' @ img) else Inr img)"

definition InitDefaults :: "RunnerOptions \<Rightarrow> RunnerOptions" where
  "InitDefaults opts = opts\<lparr>ro_ImagePullPolicy := IfNotPresentPull, ro_ResolveToImage := ResolveToImageForCLI\<rparr>"

definition serviceContainer :: "'e rtlib \<Rightarrow> RunnerOptions \<Rightarrow> string \<Rightarrow> ContainerFn" where
  "serviceContainer E opts img =
     \<lparr>cf_Image = img, cf_ImagePullPolicy = ro_ImagePullPolicy opts, cf_AllowNetwork = True, cf_AllowMount = True,
      cf_UIDGID = '''', cf_StorageMounts = [\<lparr>sm_MountType = ''bind'',
        sm_Src = strJoin (filter (\<lambda>p. p \<noteq> '''') [getenv E ''HOME'', ''.kube'', ''config'']) ''/'', sm_DstPath = ''/config''\<rparr>],
      cf_Env = [''FN_SERVICE_PORT='' @ itoa (ro_ServicePort opts), ''KUBECONFIG=/config''], cf_ResultStderr = ''''\<rparr>"

definition functionContainer :: "RunnerOptions \<Rightarrow> string \<Rightarrow> ContainerFn" where
  "functionContainer opts img =
     \<lparr>cf_Image = img, cf_ImagePullPolicy = ro_ImagePullPolicy opts, cf_AllowNetwork = False, cf_AllowMount = False,
      cf_UIDGID = '''', cf_StorageMounts = [], cf_Env = [], cf_ResultStderr = ''''\<rparr>"

definition NewRunner :: "'e rtlib \<Rightarrow> Function \<Rightarrow> RunnerOptions \<Rightarrow> string + runner" where
  "NewRunner E fnc opts =
     (case (if ex_Image (fn_Executor fnc) \<noteq> '''' then ro_ResolveToImage opts (ex_Image (fn_Executor fnc))
            else Inr (ex_Image (fn_Executor fnc))) of
        Inl err \<Rightarrow> Inl err
      | Inr img \<Rightarrow>
          if img \<noteq> '''' then
            Inr \<lparr>rn_opts = opts, rn_fnRunner = RunContainer
              (case ro_Kind opts of FunctionKindService \<Rightarrow> serviceContainer E opts img
               | _ \<Rightarrow> functionContainer opts img)\<rparr>
          else if ex_Exec (fn_Executor fnc) \<noteq> '''' then
            (if ro_Kind opts = FunctionKindService then Inl ''service not supported with exec''
             else case shlexSplit E (ex_Exec (fn_Executor fnc)) of
               Inl err \<Rightarrow> Inl (''exec command '' @ goQuote (ex_Exec (fn_Executor fnc)) @ '' must be valid: '' @ err)
             | Inr s \<Rightarrow> Inr \<lparr>rn_opts = opts, rn_fnRunner = RunExec
                 \<lparr>ef_Path = (case s of [] \<Rightarrow> ex_Exec (fn_Executor fnc) | p # _ \<Rightarrow> p), ef_Args = drop 1 s,
                  ef_ResultStderr = ''''\<rparr>\<rparr>)
          else Inl ''must specify `exec` or `image` to execute a function'')"

text \<open>\<open>runner.Run\<close>: the error or the new resource context, which is nil for a service.\<close>

definition runnerRun :: "'e rtlib \<Rightarrow> runner \<Rightarrow> rctx \<Rightarrow> process \<Rightarrow> (string + rctx option) \<times> process" where
  "runnerRun E r ctx p =
     (case ro_Kind (rn_opts r) of
        FunctionKindService \<Rightarrow>
          (case rn_fnRunner r of
             RunContainer f \<Rightarrow>
               (case ContainerSvcRun E f p of
                  ((Some err, _), p) \<Rightarrow> (Inl (runErrString err), p)
                | ((None, _), p) \<Rightarrow> (Inr None, p))
           | RunExec f \<Rightarrow> (Inr None, p))
      | _ \<Rightarrow>
          (case marshalRctx E ctx of
             Inl err \<Rightarrow> (Inl err, p)
           | Inr b \<Rightarrow>
               (case (case rn_fnRunner r of
                        RunContainer f \<Rightarrow> (case ContainerFnRun E f b p of ((err, out, _), p) \<Rightarrow> (err, out, p))
                      | RunExec f \<Rightarrow> (case ExecFnRun E f b p of ((err, out, _), p) \<Rightarrow> (err, out, p))) of
                  (Some err, _, p) \<Rightarrow> (Inl (''fn run failed: '' @ runErrString err), p)
                | (None, out, p) \<Rightarrow>
                    (case unmarshalRctx E out of
                       Inl err \<Rightarrow> (Inl err, p)
                     | Inr ctx \<Rightarrow> (Inr (Some ctx), p)))))"

section \<open>The runner of an image function (functions/run_image.go)\<close>

text \<open>\<open>image.run\<close> with this package.  Its result alone, for the process as it stands, is \<open>imageRunner\<close>: as \<open>newRunner\<close> of
  \<open>Functions\<close> it completes the image function.\<close>

definition imageOptions :: RunnerOptions where
  "imageOptions = \<lparr>ro_Kind = OtherKind '''', ro_ServicePort = 0, ro_ImagePullPolicy = OtherPolicy '''',
     ro_ResolveToImage = ResolveToImageForCLI\<rparr>"

definition ranContext :: "string + rctx option \<Rightarrow> string + rctx" where
  "ranContext res = map_sum id (\<lambda>ctx. case ctx of Some ctx \<Rightarrow> ctx | None \<Rightarrow> []) res"

definition imageRun :: "'e rtlib \<Rightarrow> extlib \<Rightarrow> input \<Rightarrow> imageFn \<Rightarrow> process \<Rightarrow> ((fnerr + rctx) \<times> imageFn) \<times> process" where
  "imageRun E L i r p =
     (case NewRunner E (img_fnconfig r) imageOptions of
        Inl err \<Rightarrow> ((Inl (FnErr err), r), p)
      | Inr rn \<Rightarrow>
          (case buildResourceContext L i of
             Inl err \<Rightarrow> ((Inl (FnErr err), r), p)
           | Inr ctx \<Rightarrow> (case runnerRun E rn ctx p of (res, p) \<Rightarrow> ((liftErr (ranContext res), r), p))))"

definition imageRunner :: "'e rtlib \<Rightarrow> process \<Rightarrow> Function \<Rightarrow> string + (rctx \<Rightarrow> string + rctx)" where
  "imageRunner E p fnc =
     map_sum id (\<lambda>r ctx. ranContext (fst (runnerRun E r ctx p))) (NewRunner E fnc imageOptions)"

end
