(* ===== verification/Fnruntime_Theorems.thy ===== *)
theory Fnruntime_Theorems
  imports Fnruntime Function_Theorems
begin

text \<open>
  The properties of the function runtime: what the container of a function may do, how often the container
  runtime is checked, and the text of a failure.
\<close>

section \<open>A library to compute with\<close>

definition sampleRt :: "((string list \<times> raw) list \<Rightarrow> string list \<Rightarrow> raw \<Rightarrow> cmdOut) \<Rightarrow> string list rtlib" where
  "sampleRt run = \<lparr>getenv = (\<lambda>_. ''''), runCmd = run, shlexSplit = (\<lambda>s. Inr (strSplit s CHR '' '')),
     semverIsValid = (\<lambda>_. True), semverCompare = (\<lambda>_ _. 0), mountString = sm_Src, ContainerEnv0 = [],
     AddKey = (\<lambda>k e. e @ [k]), AddKeyValue = (\<lambda>k v e. e @ [k @ ''='' @ v]), GetDockerFlags = concat \<circ> map (\<lambda>v. [''-e'', v]),
     marshalRctx = (\<lambda>_. Inr ''''), unmarshalRctx = (\<lambda>_. Inr [])\<rparr>"

section \<open>Containers\<close>

text \<open>The resolution of an image is idempotent.\<close>

lemma ResolveToImageForCLI_idempotent:
  "ResolveToImageForCLI i = Inr j \<Longrightarrow> ResolveToImageForCLI j = Inr j"
proof -
  have "strContains (''docker.io/yndd/'' @ i) ''/''"
    unfolding strContains_iff by (intro exI [of _ "''docker.io''"] exI [of _ "''yndd/'' @ i"]) simp
  then show "ResolveToImageForCLI i = Inr j \<Longrightarrow> ResolveToImageForCLI j = Inr j"
    by (auto simp: ResolveToImageForCLI_def split: if_splits)
qed

text \<open>The command of a function that is no service, the one that checks a runtime, and the reader of its error output.\<close>

definition resolvedImage :: "string \<Rightarrow> string" where
  "resolvedImage img = (if CHR ''/'' \<in> set img then img else ''docker.io/yndd/'' @ img)"

definition runtimeBin :: "ContainerRuntime \<Rightarrow> string" where
  "runtimeBin rt = (case rt of Docker \<Rightarrow> ''docker'' | Podman \<Rightarrow> ''podman'' | Nerdctl \<Rightarrow> ''nerdctl'')"


definition versionCommand :: "ContainerRuntime \<Rightarrow> string list" where
  "versionCommand rt = runtimeBin rt # ''version'' # (if rt = Docker then [''--format'', ''{{.Client.Version}}''] else [])"

definition toolMessage :: "ContainerRuntime \<Rightarrow> string \<Rightarrow> bool" where
  "toolMessage rt = (case rt of Docker \<Rightarrow> isdockerCLIoutput | Podman \<Rightarrow> isPodmanCLIoutput | Nerdctl \<Rightarrow> isNerdctlCLIoutput)"



lemma resolvedImage_nonempty [simp]: "img \<noteq> '''' \<Longrightarrow> resolvedImage img \<noteq> ''''"
  by (simp add: resolvedImage_def)



text \<open>Checking the runtime runs its version command, once in the life of the process.\<close>

definition checkCommands :: "ContainerRuntime \<Rightarrow> process \<Rightarrow> (string list \<times> raw) list" where
  "checkCommands rt p = (if pr_checked p then [] else [(versionCommand rt, '''')])"

lemma checkOnce_cmds: "snd (checkOnce E rt p) = \<lparr>pr_checked = True, pr_cmds = pr_cmds p @ checkCommands rt p\<rparr>"
  by (cases p; cases rt)
    (simp_all add: checkOnce_def ContainerRuntimeAvailable_def dockerCmdAvailable_def podmanCmdAvailable_def nerdctlCmdAvailable_def
      execCmd_def checkCommands_def versionCommand_def runtimeBin_def dockerBin_def podmanBin_def nerdctlBin_def)

lemma ContainerFnRun_cases:
  assumes "StringToContainerRuntime (getenv E ''KPT_FN_RUNTIME'') = Inr rt"
  shows "ContainerFnRun E f stdin p =
    (case checkOnce E rt p of
       (Some err, p) \<Rightarrow> ((Some (RunErr err), '''', f), p)
     | (None, p) \<Rightarrow> runCLI E f stdin (runtimeBin rt) (filterCLIOutput (toolMessage rt)) p)"
  using assms by (cases rt) (simp_all add: ContainerFnRun_def toolMessage_def filterDockerCLIOutput_def
      filterPodmanCLIOutput_def filterNerdctlCLIOutput_def runtimeBin_def dockerBin_def podmanBin_def nerdctlBin_def
      split: prod.split option.split)




text \<open>A process that has run nothing, and commands that fail with their own text.\<close>

definition freshProcess :: process where
  "freshProcess = \<lparr>pr_checked = False, pr_cmds = []\<rparr>"




text \<open>The container runtime is checked once in the life of the process: the call that finds it unavailable
  reports it, every later one starts its command all the same.\<close>

lemma runtime_checked_once:
  assumes "StringToContainerRuntime (getenv E ''KPT_FN_RUNTIME'') = Inr rt" and "\<not> pr_checked p"
    and "fst (ContainerRuntimeAvailable E rt p) = Some err"
  shows "fst (ContainerFnRun E f stdin p) = (Some (RunErr err), '''', f) \<and>
    (let q = snd (ContainerFnRun E f stdin p)
     in pr_checked q \<and> ContainerFnRun E f stdin q = runCLI E f stdin (runtimeBin rt) (filterCLIOutput (toolMessage rt)) q)"
  using assms(2,3) checkOnce_cmds [of E rt p]
  by (auto simp: ContainerFnRun_cases [OF assms(1)] checkOnce_def Let_def split: prod.splits)

theorem runtime_checked_once_witness:
  "\<exists>q. pr_checked q \<and>
    ContainerFnRun (sampleRt (\<lambda>_ _ _. \<lparr>co_Stdout = '''', co_Stderr = '''', co_Err = Some (CmdErr ''no podman'')\<rparr>))
      (functionContainer imageOptions ''a/b'') '''' q =
    runCLI (sampleRt (\<lambda>_ _ _. \<lparr>co_Stdout = '''', co_Stderr = '''', co_Err = Some (CmdErr ''no podman'')\<rparr>))
      (functionContainer imageOptions ''a/b'') '''' ''podman'' (filterCLIOutput isPodmanCLIoutput) q"
proof -
  let ?E = "sampleRt (\<lambda>_ _ _. \<lparr>co_Stdout = '''', co_Stderr = '''', co_Err = Some (CmdErr ''no podman'')\<rparr>)"
  have "StringToContainerRuntime (getenv ?E ''KPT_FN_RUNTIME'') = Inr Podman"
    by (simp add: StringToContainerRuntime_def sampleRt_def strToLower_def dockerBin_def podmanBin_def nerdctlBin_def)
  moreover have "fst (ContainerRuntimeAvailable ?E Podman freshProcess) = Some ''podman must be installed.''"
    by (simp add: ContainerRuntimeAvailable_def podmanCmdAvailable_def execCmd_def sampleRt_def)
  ultimately show ?thesis using runtime_checked_once [of ?E Podman freshProcess]
    by (auto simp: freshProcess_def runtimeBin_def toolMessage_def Let_def)
qed

text \<open>The name of the binary of a runtime is that of podman for docker, while a function of docker runs docker.\<close>

lemma GetBin_docker: "GetBin Docker = podmanBin"
  by (simp add: GetBin_def)

section \<open>The text of a failure\<close>

lemma newline_Sprint: "newline \<notin> set (Sprint n)"
proof (induction n rule: Sprint.induct)
  case (1 n)
  have d: "char_of (48 + k) \<noteq> newline" if "k < 10" for k :: nat
  proof
    assume "char_of (48 + k) = newline"
    then have "of_char (char_of (48 + k)) = (10 :: nat)" by (simp add: newline_def)
    then show False using that by simp
  qed
  show ?case
    by (subst Sprint.simps) (use 1 d [of n] d [of "n mod 10"] in auto)
qed

lemma newline_escape: "newline \<notin> set (goQuote s)"
proof -
  have hex: "hexDigit k \<noteq> newline" for k
  proof -
    have "hexDigit k \<in> set ''0123456789abcdef''" unfolding hexDigit_def by (rule nth_mem) simp
    then show ?thesis by (auto simp: newline_def)
  qed
  then have "(CHR 0x0A = hexDigit k) = False" for k by (metis newline_def)
  then have "newline \<notin> set (escapeChar c)" for c
    by (auto simp: escapeChar_def Let_def newline_def)
  then show ?thesis by (auto simp: goQuote_def newline_def)
qed

lemma strCount_append: "strCount (s @ t) c = strCount s c + strCount t c"
  by (simp add: strCount_def)

lemma strCount_none: "c \<notin> set s \<Longrightarrow> strCount s c = 0"
  by (auto simp: strCount_def filter_empty_conv)

lemma newline_literal:
  "(Char b0 b1 b2 b3 b4 b5 b6 b7 = newline) = (\<not> b0 \<and> b1 \<and> \<not> b2 \<and> b3 \<and> \<not> b4 \<and> \<not> b5 \<and> \<not> b6 \<and> \<not> b7)"
  by (auto simp: newline_def)

lemma strCount_Cons: "strCount (x # s) c = (if x = c then 1 else 0) + strCount s c" "strCount [] c = 0"
  by (simp_all add: strCount_def)

lemmas strCount_simps = strCount_append strCount_Cons newline_literal

lemma formatLine_newlines: "strCount (formatLine True s) newline = 1"
  by (simp add: formatLine_def Let_def strCount_simps strCount_none newline_escape)

text \<open>C40: The text of a failure has a title, one line for every line of the error output, or for the first four of them and
  one that says how many are missing when the output is truncated, and the exit code.\<close>

theorem ExecErrorString_lines:
  "strCount (ExecErrorString fe) newline =
    (let n = length (strSplit (ee_Stderr fe) newline)
     in if ee_TruncateOutput fe then (if n > 4 then 7 else n + 2) else n + 2)"
proof -
  have lines: "strCount (concat (map (formatLine True) ls)) newline = length ls" for ls
    by (induction ls) (simp_all add: strCount_append formatLine_newlines strCount_Cons)
  have sp: "strCount (Sprint n) newline = 0" for n by (rule strCount_none [OF newline_Sprint])
  have it: "strCount (itoa i) newline = 0" for i by (simp add: itoa_def strCount_simps sp)
  show ?thesis
    by (simp add: ExecErrorString_def multiLineString_def Let_def FnExecErrorTruncateLines_def strCount_simps lines it sp)
qed

end
