(* ===== verification/Runnable_Group_Properties.thy ===== *)
theory Runnable_Group_Properties
  imports Runnable_Group
begin

text \<open>
  The invariant of a group of runnables, and the properties of \<open>Add\<close>, \<open>Start\<close> and \<open>StopAndWait\<close> that follow from it.
\<close>

section \<open>Invariant\<close>

text \<open>Where a runnable that was added is on its way.\<close>

fun unsent :: "startPc \<Rightarrow> rid list \<Rightarrow> rid list" where
  "unsent (StSend rest) q = rest"
| "unsent StWait q = []"
| "unsent StDone q = []"
| "unsent StIdle q = q"
| "unsent StLock q = q"

fun admitting :: "recPc \<Rightarrow> rid set" where
  "admitting (RcGot rid) = {rid}"
| "admitting (RcSpawn rid) = {rid}"
| "admitting r = {}"

definition alive :: "(rid \<rightharpoonup> runPc) \<Rightarrow> rid set" where
  "alive r = {rid. r rid \<in> {Some RnRunning, Some RnErr}}"

text \<open>The phases of the group agree with its flags.\<close>

fun startedOf :: "startPc \<Rightarrow> bool" where
  "startedOf StIdle = False" | "startedOf StLock = False" | "startedOf (StSend rest) = True"
| "startedOf StWait = True" | "startedOf StDone = True"

fun stoppedOf :: "stopPc \<Rightarrow> bool" where
  "stoppedOf SpIdle = False" | "stoppedOf SpStart = False" | "stoppedOf SpCancel = True"
| "stoppedOf SpWait = True" | "stoppedOf (SpClose b) = True" | "stoppedOf (SpDone b) = True"

fun closedOf :: "stopPc \<Rightarrow> bool" where
  "closedOf (SpDone b) = True" | "closedOf SpIdle = False" | "closedOf SpStart = False" | "closedOf SpCancel = False"
| "closedOf SpWait = False" | "closedOf (SpClose b) = False"

definition phaseInv :: "runnableGroup \<Rightarrow> bool" where
  "phaseInv s \<longleftrightarrow>
     g_started s = startedOf (g_start s) \<and> g_readyClosed s = (g_start s = StDone) \<and>
     g_stopped s = stoppedOf (g_stop s) \<and> g_chClosed s = closedOf (g_stop s)"

fun cancelledOf :: "stopPc \<Rightarrow> bool" where
  "cancelledOf SpWait = True" | "cancelledOf (SpClose b) = True" | "cancelledOf (SpDone b) = True"
| "cancelledOf SpIdle = False" | "cancelledOf SpStart = False" | "cancelledOf SpCancel = False"

definition cancelInv :: "runnableGroup \<Rightarrow> bool" where
  "cancelInv s \<longleftrightarrow> g_cancelled s = cancelledOf (g_stop s)"

definition orderInv :: "runnableGroup \<Rightarrow> bool" where
  "orderInv s \<longleftrightarrow>
     (g_start s = StDone \<longrightarrow> g_startQueue s = []) \<and>
     (stoppedOf (g_stop s) \<longrightarrow> g_start s = StDone) \<and>
     (g_rec s = RcRefuse \<longrightarrow> stoppedOf (g_stop s)) \<and>
     (\<not> startedOf (g_start s) \<longrightarrow> g_rec s \<in> {RcIdle, RcRecv} \<and> g_run s = Map.empty \<and> g_chk s = Map.empty) \<and>
     (\<forall>rid. g_add s rid = Some AddSend \<longrightarrow> startedOf (g_start s))"

text \<open>A runnable is in one place.\<close>

definition queueInv :: "runnableGroup \<Rightarrow> bool" where
  "queueInv s \<longleftrightarrow> distinct (g_startQueue s) \<and> distinct (unsent (g_start s) (g_startQueue s)) \<and>
     set (unsent (g_start s) (g_startQueue s)) \<subseteq> set (g_startQueue s)"

definition homeInv :: "runnableGroup \<Rightarrow> bool" where
  "homeInv s \<longleftrightarrow>
     (\<forall>rid \<in> set (g_startQueue s). g_add s rid = Some AddOk) \<and> (\<forall>rid \<in> admitting (g_rec s). g_add s rid = Some AddOk) \<and>
     (\<forall>rid. g_run s rid \<noteq> None \<longrightarrow> g_add s rid = Some AddOk) \<and>
     (\<forall>rid. g_chk s rid = None \<longleftrightarrow> g_run s rid = None) \<and>
     (\<forall>rid. g_add s rid = Some AddOk \<longrightarrow> \<not> startedOf (g_start s) \<longrightarrow> rid \<in> set (g_startQueue s))"

definition apartInv :: "runnableGroup \<Rightarrow> bool" where
  "apartInv s \<longleftrightarrow>
     (\<forall>rid \<in> set (unsent (g_start s) (g_startQueue s)). rid \<notin> admitting (g_rec s) \<and> g_run s rid = None) \<and>
     (\<forall>rid \<in> admitting (g_rec s). g_run s rid = None)"

text \<open>Every signal comes from a runnable of the queue whose check answered.\<close>

definition readyInv :: "(rid \<Rightarrow> bool) \<Rightarrow> runnableGroup \<Rightarrow> bool" where
  "readyInv check s \<longleftrightarrow>
     (\<forall>rid. g_chk s rid = Some CkSend \<longrightarrow> rid \<in> set (g_startQueue s) \<and> rid \<in> g_signalReady s \<and> check rid) \<and>
     (\<forall>rid. startedOf (g_start s) \<and> rid \<in> set (g_startQueue s) \<and> rid \<notin> set (unsent (g_start s) (g_startQueue s)) \<longrightarrow> rid \<in> g_signalReady s)"

definition doneInv :: "(rid \<Rightarrow> bool) \<Rightarrow> runnableGroup \<Rightarrow> bool" where
  "doneInv check s \<longleftrightarrow>
     (\<forall>rid \<in> g_signalReady s. rid \<notin> set (g_startQueue s) \<longrightarrow> g_chk s rid = Some CkDone \<and> check rid)"

text \<open>The wait group counts the runnables that run and the one that is about to.\<close>

fun spawning :: "recPc \<Rightarrow> int" where
  "spawning (RcSpawn rid) = 1" | "spawning RcIdle = 0" | "spawning RcRecv = 0" | "spawning (RcGot rid) = 0"
| "spawning RcRefuse = 0" | "spawning RcEnd = 0"

fun waitedOf :: "stopPc \<Rightarrow> bool" where
  "waitedOf (SpClose b) = b" | "waitedOf (SpDone b) = b" | "waitedOf SpIdle = False" | "waitedOf SpStart = False"
| "waitedOf SpCancel = False" | "waitedOf SpWait = False"

definition countInv :: "runnableGroup \<Rightarrow> bool" where
  "countInv s \<longleftrightarrow>
     finite (alive (g_run s)) \<and> g_wg s = int (card (alive (g_run s))) + spawning (g_rec s) \<and>
     (waitedOf (g_stop s) \<longrightarrow> alive (g_run s) = {} \<and> spawning (g_rec s) = 0)"

definition panicInv :: "runnableGroup \<Rightarrow> bool" where
  "panicInv s \<longleftrightarrow> (g_panic s = None \<or> (\<exists>rid. g_panic s = Some (AddThread rid) \<and> g_add s rid = Some AddSend \<and> g_chClosed s))"

section \<open>Preservation\<close>

lemma alive_update: "alive (r(rid \<mapsto> p)) = (if p = RnDone then alive r - {rid} else insert rid (alive r))"
  by (cases p) (auto simp: alive_def)

lemma wgDone_simps [simp]:
  "g_started (wgDone rid s) = g_started s" "g_startQueue (wgDone rid s) = g_startQueue s" "g_start (wgDone rid s) = g_start s"
  "g_rec (wgDone rid s) = g_rec s" "g_run (wgDone rid s) = g_run s" "g_chk (wgDone rid s) = g_chk s" "g_add (wgDone rid s) = g_add s"
  "g_signalReady (wgDone rid s) = g_signalReady s" "g_stopped (wgDone rid s) = g_stopped s" "g_stop (wgDone rid s) = g_stop s"
  "g_chClosed (wgDone rid s) = g_chClosed s" "g_cancelled (wgDone rid s) = g_cancelled s"
  "g_readyClosed (wgDone rid s) = g_readyClosed s"
  by (simp_all add: wgDone_def)

lemma closedOf_stoppedOf: "closedOf p \<Longrightarrow> stoppedOf p"
  by (cases p) simp_all

lemma phaseInv_step: "gmove check s s' \<Longrightarrow> phaseInv s \<Longrightarrow> phaseInv s'"
  by (induction rule: gmove.induct) (simp_all add: phaseInv_def)

lemma cancelInv_step: "gmove check s s' \<Longrightarrow> cancelInv s \<Longrightarrow> cancelInv s'"
  by (induction rule: gmove.induct) (simp_all add: cancelInv_def)

lemma cancelled_stopped: "cancelledOf p \<Longrightarrow> stoppedOf p"
  by (cases p) simp_all

lemma orderInv_step: "gmove check s s' \<Longrightarrow> phaseInv s \<Longrightarrow> orderInv s \<Longrightarrow> orderInv s'"
  by (induction rule: gmove.induct) (simp_all add: orderInv_def phaseInv_def startLocked_def, auto dest: closedOf_stoppedOf)

lemma not_startedOf: "\<not> startedOf p \<longleftrightarrow> p = StIdle \<or> p = StLock"
  by (cases p) simp_all

lemma idle_rec: "orderInv s \<Longrightarrow> \<not> startedOf (g_start s) \<Longrightarrow> admitting (g_rec s) = {} \<and> g_run s = Map.empty \<and> g_chk s = Map.empty"
  by (auto simp: orderInv_def)

lemma queueInv_step: "gmove check s s' \<Longrightarrow> phaseInv s \<Longrightarrow> homeInv s \<Longrightarrow> queueInv s \<Longrightarrow> queueInv s'"
proof (induction rule: gmove.induct)
  case (add_queue s rid)
  then show ?case using not_startedOf [of "g_start s"] by (auto simp: queueInv_def homeInv_def phaseInv_def)
qed (simp_all add: queueInv_def)

lemma homeInv_chk: "homeInv s \<Longrightarrow> g_chk s rid = Some c \<Longrightarrow> \<exists>y. g_run s rid = Some y"
  unfolding homeInv_def by (metis not_None_eq option.distinct(1))

lemma homeInv_new:
  "homeInv s \<Longrightarrow> g_add s rid \<noteq> Some AddOk \<Longrightarrow> (\<forall>r \<in> set (g_startQueue s). r \<noteq> rid) \<and> (\<forall>r \<in> admitting (g_rec s). r \<noteq> rid) \<and> g_run s rid = None"
  unfolding homeInv_def by metis

lemma homeInv_step: "gmove check s s' \<Longrightarrow> phaseInv s \<Longrightarrow> orderInv s \<Longrightarrow> queueInv s \<Longrightarrow> homeInv s \<Longrightarrow> homeInv s'"
proof (induction rule: gmove.induct)
  case (add_send s rid)
  then have "startedOf (g_start s)" by (simp add: orderInv_def) blast
  with add_send show ?case by (simp add: homeInv_def)
next
  case (start_send s rid rest)
  then show ?case by (auto simp: homeInv_def queueInv_def)
next
  case (start_ready s rid)
  with homeInv_chk [of s rid] show ?case by (auto simp: homeInv_def dest: notin_set_remove1)
next
  case (start_last s rid)
  with homeInv_chk [of s rid] show ?case by (simp add: homeInv_def)
next
  case (chk_signal s rid)
  with homeInv_chk [of s rid] show ?case by (simp add: homeInv_def)
next
  case (chk_end s rid)
  with homeInv_chk [of s rid] show ?case by (simp add: homeInv_def)
next
  case (add_refused s rid)
  with homeInv_new [of s rid] show ?case by (simp add: homeInv_def)
next
  case (add_call s rid)
  with homeInv_new [of s rid] show ?case by (simp add: homeInv_def)
next
  case (add_started s rid)
  with homeInv_new [of s rid] show ?case by (simp add: homeInv_def)
qed (simp_all add: homeInv_def phaseInv_def)

lemma apartInv_step:
  "gmove check s s' \<Longrightarrow> phaseInv s \<Longrightarrow> orderInv s \<Longrightarrow> queueInv s \<Longrightarrow> homeInv s \<Longrightarrow> apartInv s \<Longrightarrow> apartInv s'"
proof (induction rule: gmove.induct)
  case (add_queue s rid)
  then show ?case using idle_rec [of s] by (auto simp: apartInv_def phaseInv_def)
next
  case (add_send s rid)
  then show ?case by (auto simp: apartInv_def homeInv_def queueInv_def)
next
  case (start_send s rid rest)
  then show ?case by (auto simp: apartInv_def queueInv_def)
next
  case (start_lock s)
  then show ?case by (auto simp: apartInv_def)
qed (simp_all add: apartInv_def, auto)

lemma readyInv_send: "readyInv check s \<Longrightarrow> g_chk s rid = Some CkSend \<Longrightarrow> rid \<in> set (g_startQueue s) \<and> check rid"
  unfolding readyInv_def by blast

lemma remove1_last: "remove1 x xs = [] \<Longrightarrow> x \<in> set xs \<Longrightarrow> xs = [x]"
  by (cases xs) (auto split: if_splits)

lemma readyInv_step:
  "gmove check s s' \<Longrightarrow> phaseInv s \<Longrightarrow> orderInv s \<Longrightarrow> queueInv s \<Longrightarrow> doneInv check s \<Longrightarrow> readyInv check s \<Longrightarrow> readyInv check s'"
proof (induction rule: gmove.induct)
  case (start_send s rid rest)
  then show ?case by (auto simp: readyInv_def queueInv_def)
next
  case (start_ready s rid)
  then show ?case by (auto simp: readyInv_def queueInv_def)
next
  case (start_last s rid)
  then have "g_startQueue s = [rid]"
    using readyInv_send [of check s rid] remove1_last [of rid "g_startQueue s"] by blast
  then have "r = rid" if "g_chk s r = Some CkSend" for r
    using readyInv_send [OF start_last.prems(5) that] by simp
  then show ?case by (auto simp: readyInv_def)
next
  case (chk_signal s rid)
  then have "rid \<in> set (g_startQueue s)" unfolding doneInv_def by force
  with chk_signal show ?case by (simp add: readyInv_def)
qed (simp_all add: readyInv_def phaseInv_def orderInv_def)

lemma doneInv_step:
  "gmove check s s' \<Longrightarrow> queueInv s \<Longrightarrow> homeInv s \<Longrightarrow> apartInv s \<Longrightarrow> readyInv check s \<Longrightarrow> doneInv check s \<Longrightarrow> doneInv check s'"
proof (induction rule: gmove.induct)
  case (start_send s rid rest)
  then show ?case by (auto simp: doneInv_def queueInv_def)
next
  case (start_ready s rid)
  then have "check rid" using readyInv_send [of check s rid] by blast
  with start_ready show ?case by (auto simp: doneInv_def)
next
  case (start_last s rid)
  then have "g_startQueue s = [rid]" and "check rid"
    using readyInv_send [of check s rid] remove1_last [of rid "g_startQueue s"] by blast+
  with start_last show ?case by (simp add: doneInv_def)
next
  case (rec_spawn s rid)
  then have "g_chk s rid = None" by (auto simp: apartInv_def homeInv_def)
  with rec_spawn show ?case by (auto simp: doneInv_def)
qed (auto simp: doneInv_def)

lemma waited_stopped: "waitedOf p \<Longrightarrow> stoppedOf p"
  by (cases p) simp_all

lemma spawning_pos: "0 \<le> spawning r"
  by (cases r) simp_all

lemma alive_mem: "r rid = Some RnRunning \<Longrightarrow> rid \<in> alive r" "r rid = Some RnErr \<Longrightarrow> rid \<in> alive r"
  by (simp_all add: alive_def)

lemma card_alive: "finite (alive r) \<Longrightarrow> rid \<in> alive r \<Longrightarrow> int (card (alive r - {rid})) = int (card (alive r)) - 1 \<and> 0 < card (alive r)"
  by (metis card_Diff_singleton card_gt_0_iff empty_iff of_nat_1 of_nat_diff One_nat_def Suc_leI)

lemma not_alive: "r rid = None \<Longrightarrow> rid \<notin> alive r"
  by (simp add: alive_def)

lemma countInv_step:
  "gmove check s s' \<Longrightarrow> phaseInv s \<Longrightarrow> orderInv s \<Longrightarrow> apartInv s \<Longrightarrow> countInv s \<Longrightarrow> countInv s'"
proof (induction rule: gmove.induct)
  case (start_call s)
  then have "spawning (g_rec s) = 0" by (auto simp: orderInv_def)
  with start_call show ?case by (simp add: countInv_def)
next
  case (rec_admit s rid)
  then show ?case by (auto simp: countInv_def phaseInv_def dest: waited_stopped)
next
  case (rec_spawn s rid)
  then show ?case by (auto simp: countInv_def apartInv_def alive_update not_alive)
next
  case (run_ok s rid)
  then have "rid \<in> alive (g_run s)" by (simp add: alive_mem)
  with run_ok show ?case using card_alive [of "g_run s" rid] spawning_pos [of "g_rec s"]
    by (auto simp: countInv_def alive_update wgDone_def)
next
  case (run_fail s rid)
  then have "rid \<in> alive (g_run s)" by (simp add: alive_mem)
  with run_fail show ?case by (auto simp: countInv_def alive_update insert_absorb)
next
  case (run_err s rid)
  then have "rid \<in> alive (g_run s)" by (simp add: alive_mem)
  with run_err show ?case using card_alive [of "g_run s" rid] spawning_pos [of "g_rec s"]
    by (auto simp: countInv_def alive_update wgDone_def)
next
  case (stop_waited s)
  then have "finite (alive (g_run s))" and "int (card (alive (g_run s))) + spawning (g_rec s) = 0"
    by (simp_all add: countInv_def)
  moreover have "0 \<le> spawning (g_rec s)" and "0 \<le> int (card (alive (g_run s)))"
    using spawning_pos by simp_all
  ultimately have "int (card (alive (g_run s))) = 0" and "spawning (g_rec s) = 0" and "finite (alive (g_run s))"
    by linarith+
  then have "alive (g_run s) = {}" and "spawning (g_rec s) = 0" by simp_all
  with stop_waited show ?case by (simp add: countInv_def)
qed (simp_all add: countInv_def)

lemma panicInv_step:
  "gmove check s s' \<Longrightarrow> g_panic s = None \<Longrightarrow> phaseInv s \<Longrightarrow> orderInv s \<Longrightarrow> readyInv check s \<Longrightarrow> countInv s \<Longrightarrow> panicInv s'"
proof (induction rule: gmove.induct)
  case (start_send_closed s rid rest)
  then show ?case by (auto simp: phaseInv_def orderInv_def dest: closedOf_stoppedOf)
next
  case (chk_closed s rid)
  then show ?case by (auto simp: phaseInv_def orderInv_def readyInv_def)
next
  case (run_ok s rid)
  then show ?case using card_alive [of "g_run s" rid] spawning_pos [of "g_rec s"]
    by (auto simp: countInv_def alive_mem wgDone_def panicInv_def)
next
  case (run_err s rid)
  then show ?case using card_alive [of "g_run s" rid] spawning_pos [of "g_rec s"]
    by (auto simp: countInv_def alive_mem wgDone_def panicInv_def)
qed (simp_all add: panicInv_def)

section \<open>Reachable states\<close>

definition ginv :: "(rid \<Rightarrow> bool) \<Rightarrow> runnableGroup \<Rightarrow> bool" where
  "ginv check s \<longleftrightarrow> phaseInv s \<and> orderInv s \<and> queueInv s \<and> homeInv s \<and> apartInv s \<and> readyInv check s \<and>
     doneInv check s \<and> countInv s \<and> cancelInv s"

lemma ginv_new: "ginv check newRunnableGroup"
  by (simp add: ginv_def newRunnableGroup_def phaseInv_def orderInv_def queueInv_def homeInv_def apartInv_def
      readyInv_def doneInv_def countInv_def cancelInv_def alive_def)

lemma ginv_step: "gmove check s s' \<Longrightarrow> ginv check s \<Longrightarrow> ginv check s'"
  by (simp add: ginv_def phaseInv_step orderInv_step queueInv_step homeInv_step apartInv_step readyInv_step doneInv_step countInv_step cancelInv_step)

lemma ginv_steps: "(gstep check)\<^sup>*\<^sup>* s s' \<Longrightarrow> ginv check s \<Longrightarrow> ginv check s'"
  by (induction rule: rtranclp_induct) (auto elim!: gstep.cases intro: ginv_step)

lemma greach_ginv: "greach check s \<Longrightarrow> ginv check s"
  unfolding greach_def using ginv_steps ginv_new by blast

lemma greach_new: "greach check newRunnableGroup"
  by (simp add: greach_def)

lemma greach_step: "greach check s \<Longrightarrow> g_panic s = None \<Longrightarrow> gmove check s s' \<Longrightarrow> greach check s'"
  unfolding greach_def by (meson gstep.intros rtranclp.rtrancl_into_rtrancl)

lemma gsteps_step: "(gstep check)\<^sup>*\<^sup>* s s' \<Longrightarrow> g_panic s' = None \<Longrightarrow> gmove check s' s'' \<Longrightarrow> (gstep check)\<^sup>*\<^sup>* s s''"
  by (meson gstep.intros rtranclp.rtrancl_into_rtrancl)

text \<open>A runnable that was queued is queued until its check has answered.\<close>

lemma queued_step:
  "gmove check s s' \<Longrightarrow> readyInv check s \<Longrightarrow> rid \<in> set (g_startQueue s) \<union> g_signalReady s \<Longrightarrow>
    rid \<in> set (g_startQueue s') \<union> g_signalReady s'"
proof (induction rule: gmove.induct)
  case (start_ready s r)
  then have "r \<in> g_signalReady s" unfolding readyInv_def by blast
  with start_ready show ?case by (cases "rid = r") auto
next
  case (start_last s r)
  then have "r \<in> g_signalReady s" and "g_startQueue s = [r]"
    using readyInv_send [of check s r] remove1_last [of r "g_startQueue s"] unfolding readyInv_def by blast+
  with start_last show ?case by auto
qed (auto simp: wgDone_def)

lemma queued_steps:
  assumes "(gstep check)\<^sup>*\<^sup>* s s'" and "ginv check s" and "rid \<in> set (g_startQueue s)"
  shows "rid \<in> set (g_startQueue s') \<union> g_signalReady s'"
  using assms
proof (induction rule: rtranclp_induct)
  case (step y z)
  then show ?case
    using queued_step [of check y z rid] ginv_steps [of check s y] by (auto elim!: gstep.cases simp: ginv_def)
qed simp

lemma queued_when_done:
  assumes "greach check s" and "\<not> g_started s" and "g_add s rid = Some AddOk" and "(gstep check)\<^sup>*\<^sup>* s s'"
    and "g_start s' = StDone"
  shows "check rid \<and> g_chk s' rid = Some CkDone \<and> g_run s' rid \<noteq> None"
proof -
  have inv: "ginv check s" "ginv check s'" using assms(1,4) greach_ginv ginv_steps by blast+
  have "rid \<in> set (g_startQueue s)"
    using inv(1) assms(2,3) by (auto simp: ginv_def homeInv_def phaseInv_def)
  then have "rid \<in> set (g_startQueue s') \<union> g_signalReady s'" by (rule queued_steps [OF assms(4) inv(1)])
  moreover have "g_startQueue s' = []" using inv(2) assms(5) by (simp add: ginv_def orderInv_def)
  ultimately have "check rid \<and> g_chk s' rid = Some CkDone" using inv(2) by (auto simp: ginv_def doneInv_def)
  moreover have "homeInv s'" using inv(2) by (simp add: ginv_def)
  ultimately show ?thesis using homeInv_chk by blast
qed

lemma stop_done_steps: "(gstep check)\<^sup>*\<^sup>* s s' \<Longrightarrow> g_stop s = SpDone b \<Longrightarrow> g_stop s' = SpDone b"
  by (induction rule: rtranclp_induct) (auto elim!: gstep.cases gmove.cases)

lemma panicInv_reach: "greach check s \<Longrightarrow> panicInv s"
  unfolding greach_def
proof (induction rule: rtranclp_induct)
  case base
  then show ?case by (simp add: panicInv_def newRunnableGroup_def)
next
  case (step y z)
  then have "ginv check y" using greach_ginv by (auto simp: greach_def)
  with step show ?case by (auto elim!: gstep.cases simp: ginv_def intro: panicInv_step)
qed

end
