(* ===== verification/Runnable_Group_Theorems.thy ===== *)
theory Runnable_Group_Theorems
  imports Runnable_Group_Properties
begin

text \<open>
  The properties of the groups of runnables, with the runs that show them.
\<close>

section \<open>A run of a group with one queued runnable\<close>

text \<open>The state after \<open>Add\<close> of runnable 0, and the one after \<open>Start\<close>.\<close>

definition oneQueued :: runnableGroup where
  "oneQueued = newRunnableGroup\<lparr>g_startQueue := [0], g_add := [0 \<mapsto> AddOk]\<rparr>"

definition oneStarted :: runnableGroup where
  "oneStarted = newRunnableGroup\<lparr>g_started := True, g_signalReady := {0}, g_readyClosed := True, g_wg := 1, g_add := [0 \<mapsto> AddOk],
     g_start := StDone, g_rec := RcRecv, g_run := [0 \<mapsto> RnRunning], g_chk := [0 \<mapsto> CkDone]\<rparr>"

definition oneStopped :: runnableGroup where
  "oneStopped = oneStarted\<lparr>g_stopped := True, g_cancelled := True, g_chClosed := True, g_wg := 0, g_run := [0 \<mapsto> RnDone],
     g_stop := SpDone True\<rparr>"

lemma oneQueued_reach: "greach check oneQueued"
proof -
  note r1 = greach_step [OF greach_new _ gmove.add_call [where rid = 0], unfolded newRunnableGroup_def, simplified]
  note r2 = greach_step [OF r1 _ gmove.add_queue [where rid = 0], unfolded startLocked_def, simplified]
  show ?thesis using r2 by (simp add: oneQueued_def newRunnableGroup_def)
qed

lemma oneStarted_steps: "(gstep (\<lambda>_. True))\<^sup>*\<^sup>* oneQueued oneStarted"
proof -
  have r0: "(gstep (\<lambda>_. True))\<^sup>*\<^sup>* oneQueued oneQueued" by simp
  note r1 = gsteps_step [OF r0 _ gmove.start_call, unfolded oneQueued_def newRunnableGroup_def, simplified]
  note r2 = gsteps_step [OF r1 _ gmove.start_lock, simplified]
  note r3 = gsteps_step [OF r2 _ gmove.start_send [where rid = 0 and rest = "[]"], simplified]
  note r4 = gsteps_step [OF r3 _ gmove.start_wait, simplified]
  note r5 = gsteps_step [OF r4 _ gmove.rec_admit [where rid = 0], simplified]
  note r6 = gsteps_step [OF r5 _ gmove.rec_spawn [where rid = 0], simplified]
  note r7 = gsteps_step [OF r6 _ gmove.chk_signal [where rid = 0], simplified]
  note r8 = gsteps_step [OF r7 _ gmove.start_last [where rid = 0], simplified]
  show ?thesis using r8 by (simp add: oneQueued_def oneStarted_def newRunnableGroup_def)
qed

lemma oneStarted_reach: "greach (\<lambda>_. True) oneStarted"
  using oneQueued_reach oneStarted_steps by (metis greach_def rtranclp_trans)

lemma oneStopped_reach: "greach (\<lambda>_. True) oneStopped"
proof -
  note r0 = oneStarted_reach [unfolded oneStarted_def newRunnableGroup_def, simplified]
  note r1 = greach_step [OF r0 _ gmove.run_ok [where rid = 0], unfolded wgDone_def, simplified]
  note r2 = greach_step [OF r1 _ gmove.stop_call, simplified]
  note r3 = greach_step [OF r2 _ gmove.stop_started, simplified]
  note r4 = greach_step [OF r3 _ gmove.stop_cancel, simplified]
  note r5 = greach_step [OF r4 _ gmove.stop_waited, simplified]
  note r6 = greach_step [OF r5 _ gmove.stop_close, simplified]
  show ?thesis using r6 by (simp add: oneStopped_def oneStarted_def newRunnableGroup_def)
qed

section \<open>Start\<close>

text \<open>C16: when \<open>Start\<close> has returned, every runnable added before has been started and its check has answered yes.\<close>

theorem start_returns_when_all_ready:
  assumes "greach check s" and "\<not> g_started s" and "g_add s rid = Some AddOk" and "(gstep check)\<^sup>*\<^sup>* s s'"
    and "g_start s' = StDone"
  shows "g_run s' rid \<noteq> None \<and> check rid \<and> g_chk s' rid = Some CkDone"
  using queued_when_done [OF assms] by simp

theorem start_returns_when_all_ready_witness:
  "g_run oneStarted 0 \<noteq> None \<and> g_chk oneStarted 0 = Some CkDone"
  using start_returns_when_all_ready [OF oneQueued_reach _ _ oneStarted_steps, of 0]
  by (simp add: oneQueued_def oneStarted_def newRunnableGroup_def)

text \<open>A queued runnable whose check says no keeps \<open>Start\<close> from ever returning, whatever happens to its context, and
  with it \<open>StopAndWait\<close>, which calls \<open>Start\<close>: the group is never stopped nor its context cancelled, not even when the
  context of \<open>StopAndWait\<close> has expired.\<close>

lemma unready_group_never_stops:
  assumes "greach check s" and "\<not> g_started s" and "g_add s rid = Some AddOk" and "\<not> check rid" and "(gstep check)\<^sup>*\<^sup>* s s'"
  shows "g_start s' \<noteq> StDone \<and> \<not> g_stopped s' \<and> \<not> g_cancelled s'"
proof -
  have "g_start s' \<noteq> StDone" using queued_when_done [OF assms(1-3,5)] assms(4) by blast
  moreover have "ginv check s'" using assms(1,5) greach_ginv ginv_steps by blast
  ultimately show ?thesis by (auto simp: ginv_def phaseInv_def orderInv_def cancelInv_def dest: cancelled_stopped)
qed

theorem unready_group_never_stops_witness:
  "\<exists>s'. (gstep (\<lambda>_. False))\<^sup>*\<^sup>* oneQueued s' \<and> g_start s' = StWait \<and> g_retErr s' \<and> g_stop s' = SpStart \<and> \<not> g_cancelled s'"
proof -
  have r0: "(gstep (\<lambda>_. False))\<^sup>*\<^sup>* oneQueued oneQueued" by simp
  note r1 = gsteps_step [OF r0 _ gmove.start_call, unfolded oneQueued_def newRunnableGroup_def, simplified]
  note r2 = gsteps_step [OF r1 _ gmove.start_lock, simplified]
  note r3 = gsteps_step [OF r2 _ gmove.start_send [where rid = 0 and rest = "[]"], simplified]
  note r4 = gsteps_step [OF r3 _ gmove.start_wait, simplified]
  note r5 = gsteps_step [OF r4 _ gmove.rec_admit [where rid = 0], simplified]
  note r6 = gsteps_step [OF r5 _ gmove.rec_spawn [where rid = 0], simplified]
  note r7 = gsteps_step [OF r6 _ gmove.chk_end [where rid = 0], simplified]
  note r8 = gsteps_step [OF r7 _ gmove.start_expired, simplified]
  note r9 = gsteps_step [OF r8 _ gmove.stop_call, simplified]
  have q: "oneQueued = \<lparr>g_started = False, g_startQueue = [0], g_signalReady = {}, g_stopped = False, g_cancelled = False,
     g_chClosed = False, g_readyClosed = False, g_wg = 0, g_errs = [], g_add = [0 \<mapsto> AddOk], g_start = StIdle, g_rec = RcIdle,
     g_run = Map.empty, g_chk = Map.empty, g_stop = SpIdle, g_retErr = False, g_panic = None\<rparr>"
    by (simp add: oneQueued_def newRunnableGroup_def)
  show ?thesis
    by (rule exI, rule conjI, subst q, rule r9)
      (use unready_group_never_stops [OF oneQueued_reach, of 0 "\<lambda>_. False"] r9 q in simp)
qed

section \<open>Running\<close>

text \<open>A step starts only a runnable that was accepted by \<open>Add\<close>, is counted by the wait group and has not been started
  before, and the group is not closed by a \<open>StopAndWait\<close> that has waited for all of them.\<close>

lemma runnable_starts_once:
  assumes "greach check s" and "gstep check s s'" and "g_run s' rid = Some RnRunning" and "g_run s rid \<noteq> Some RnRunning"
  shows "g_run s rid = None \<and> g_add s rid = Some AddOk \<and> 0 < g_wg s \<and> g_stop s \<notin> {SpClose True, SpDone True}"
proof -
  have inv: "ginv check s" by (rule greach_ginv [OF assms(1)])
  have "gmove check s s'" using assms(2) by (auto elim: gstep.cases)
  then have "g_rec s = RcSpawn rid"
    using assms(3,4) by (cases rule: gmove.cases) (auto simp: wgDone_def split: if_splits)
  then show ?thesis
    using inv by (auto simp: ginv_def apartInv_def homeInv_def countInv_def)
qed

theorem runnable_starts_once_witness:
  "\<exists>s s'. greach (\<lambda>_. True) s \<and> gstep (\<lambda>_. True) s s' \<and> g_run s' 0 = Some RnRunning \<and>
    g_add s 0 = Some AddOk \<and> 0 < g_wg s"
proof -
  note r0 = oneQueued_reach [of "\<lambda>_. True", unfolded oneQueued_def newRunnableGroup_def, simplified]
  note r1 = greach_step [OF r0 _ gmove.start_call, simplified]
  note r2 = greach_step [OF r1 _ gmove.start_lock, simplified]
  note r3 = greach_step [OF r2 _ gmove.start_send [where rid = 0 and rest = "[]"], simplified]
  note r5 = greach_step [OF r3 _ gmove.rec_admit [where rid = 0], simplified]
  note st = gstep.intros [OF _ gmove.rec_spawn [where rid = 0], of _ "\<lambda>_. True"]
  show ?thesis
    by (rule exI, rule exI, intro conjI, rule r5, rule st, simp, simp, simp)
      (use runnable_starts_once [OF r5 st, of 0] in simp_all)
qed

text \<open>C15: when \<open>StopAndWait\<close> has returned because the wait group was empty, no runnable runs, and none ever will.\<close>

theorem stop_leaves_nothing_running:
  assumes "greach check s" and "g_stop s = SpDone True" and "(gstep check)\<^sup>*\<^sup>* s s'"
  shows "g_run s' rid \<in> {None, Some RnDone} \<and> g_cancelled s \<and> g_chClosed s"
proof -
  have inv: "ginv check s" "ginv check s'" using assms(1,3) greach_ginv ginv_steps by blast+
  have "g_stop s' = SpDone True" using stop_done_steps [OF assms(3,2)] .
  then have "alive (g_run s') = {}" using inv(2) by (simp add: ginv_def countInv_def)
  then have "g_run s' rid \<noteq> Some RnRunning \<and> g_run s' rid \<noteq> Some RnErr" by (auto simp: alive_def)
  then have "g_run s' rid \<in> {None, Some RnDone}"
    by (cases "g_run s' rid") (auto intro: runPc.exhaust)
  then show ?thesis using inv(1) assms(2) by (simp add: ginv_def phaseInv_def cancelInv_def)
qed

theorem stop_leaves_nothing_running_witness: "g_run oneStopped 0 \<in> {None, Some RnDone} \<and> g_cancelled oneStopped"
  using stop_leaves_nothing_running [OF oneStopped_reach, of oneStopped 0] by (simp add: oneStopped_def)

section \<open>Panics\<close>

text \<open>C17: the only panic of a group is that of an \<open>Add\<close> that sends to the channel \<open>StopAndWait\<close> has closed: \<open>Start\<close>, the
  checks and the wait group never panic.\<close>

theorem only_late_add_panics:
  assumes "greach check s" and "g_panic s = Some t"
  shows "\<exists>rid. t = AddThread rid \<and> g_add s rid = Some AddSend \<and> g_stopped s"
  using panicInv_reach [OF assms(1)] greach_ginv [OF assms(1)] assms(2)
  by (auto simp: panicInv_def ginv_def phaseInv_def dest: closedOf_stoppedOf)

definition lateAdd :: runnableGroup where
  "lateAdd = newRunnableGroup\<lparr>g_started := True, g_stopped := True, g_cancelled := True, g_chClosed := True, g_readyClosed := True,
     g_add := [0 \<mapsto> AddSend], g_start := StDone, g_rec := RcRecv, g_stop := SpDone True, g_panic := Some (AddThread 0)\<rparr>"

lemma lateAdd_reach: "greach check lateAdd"
proof -
  note r1 = greach_step [OF greach_new _ gmove.start_call, unfolded newRunnableGroup_def, simplified]
  note r2 = greach_step [OF r1 _ gmove.start_lock, simplified]
  note r3 = greach_step [OF r2 _ gmove.start_empty, simplified]
  note r4 = greach_step [OF r3 _ gmove.add_call [where rid = 0], simplified]
  note r5 = greach_step [OF r4 _ gmove.add_started [where rid = 0], unfolded startLocked_def, simplified]
  note r6 = greach_step [OF r5 _ gmove.stop_call, simplified]
  note r7 = greach_step [OF r6 _ gmove.stop_started, simplified]
  note r8 = greach_step [OF r7 _ gmove.stop_cancel, simplified]
  note r9 = greach_step [OF r8 _ gmove.stop_waited, simplified]
  note r10 = greach_step [OF r9 _ gmove.stop_close, simplified]
  note r11 = greach_step [OF r10 _ gmove.add_send_closed [where rid = 0], simplified]
  show ?thesis using r11 by (simp add: lateAdd_def newRunnableGroup_def)
qed

theorem only_late_add_panics_witness: "\<exists>rid. g_add lateAdd rid = Some AddSend \<and> g_stopped lateAdd"
  using only_late_add_panics [OF lateAdd_reach, of "AddThread 0"] by (auto simp: lateAdd_def)

text \<open>An \<open>Add\<close> that a \<open>StopAndWait\<close> overtakes between its tests and its send does panic.\<close>

lemma late_add_panics: "\<exists>s. greach check s \<and> g_panic s = Some (AddThread 0)"
  using lateAdd_reach by (intro exI [of _ lateAdd]) (simp add: lateAdd_def)

end
