(* ===== verification/Recorder.thy ===== *)
theory Recorder
  imports Go_Prelude
begin

text \<open>
  Events: the provider of recorders the manager stops at its end (pkg/internal/recorder/recorder.go), and the
  recorder of the reconciler (pkg/event/event.go).

  The provider is shared by the goroutines that record events (\<open>pv_ev\<close>), those of \<open>Stop\<close> (\<open>pv_sp\<close>) and the
  callers of \<open>Stop\<close> (\<open>pv_ret\<close>); a step is what one of them does between two points where it can be stopped.  The
  read/write lock is the set of its readers and its writer; the broadcaster of client-go is whether it has been shut
  down and what was recorded to it.  \<open>owned\<close> is what the producer of the broadcaster says: whether it is stopped with the
  provider.
\<close>

section \<open>The provider\<close>

datatype evPc = EvEnsure | EvRLock | EvTest | EvRecord | EvRUnlock | EvEnd

datatype spPc = SpGet | SpTest | SpWLock | SpShutdown | SpSet | SpUnlock | SpDoneCh | SpEnd

record provider =
  pv_ev :: "nat \<rightharpoonup> evPc"
  pv_sp :: "nat \<rightharpoonup> spPc"
  pv_ret :: "nat \<rightharpoonup> bool"
  pv_readers :: "nat set"
  pv_writer :: "nat option"
  pv_once :: bool
  pv_made :: nat
  pv_stopBroadcaster :: bool
  pv_down :: bool
  pv_stopped :: bool
  pv_recorded :: "nat list"
  pv_lost :: bool

definition NewProvider :: provider where
  "NewProvider = \<lparr>pv_ev = Map.empty, pv_sp = Map.empty, pv_ret = Map.empty, pv_readers = {}, pv_writer = None,
     pv_once = False, pv_made = 0, pv_stopBroadcaster = False, pv_down = False, pv_stopped = False, pv_recorded = [],
     pv_lost = False\<rparr>"

text \<open>\<open>broadcasterOnce\<close>: the first caller makes the broadcaster, the others wait for it.\<close>

definition getBroadcaster :: "bool \<Rightarrow> provider \<Rightarrow> provider" where
  "getBroadcaster owned s =
     (if pv_once s then s else s\<lparr>pv_once := True, pv_made := pv_made s + 1, pv_stopBroadcaster := owned\<rparr>)"

definition evTo :: "nat \<Rightarrow> evPc \<Rightarrow> provider \<Rightarrow> provider" where
  "evTo i pc s = s\<lparr>pv_ev := (pv_ev s)(i \<mapsto> pc)\<rparr>"

definition spTo :: "nat \<Rightarrow> spPc \<Rightarrow> provider \<Rightarrow> provider" where
  "spTo j pc s = s\<lparr>pv_sp := (pv_sp s)(j \<mapsto> pc)\<rparr>"

text \<open>The events of a lazy recorder; \<open>pv_lost\<close>: an event went to a broadcaster that was shut down.\<close>

inductive evMove :: "bool \<Rightarrow> provider \<Rightarrow> provider \<Rightarrow> bool" for owned where
  ev_call: "pv_ev s i = None \<Longrightarrow> evMove owned s (evTo i EvEnsure s)"
| ev_ensure: "pv_ev s i = Some EvEnsure \<Longrightarrow> evMove owned s (evTo i EvRLock (getBroadcaster owned s))"
| ev_rlock: "pv_ev s i = Some EvRLock \<Longrightarrow> pv_writer s = None \<Longrightarrow>
    evMove owned s (evTo i EvTest (s\<lparr>pv_readers := insert i (pv_readers s)\<rparr>))"
| ev_test: "pv_ev s i = Some EvTest \<Longrightarrow> evMove owned s (evTo i (if \<not> pv_stopped s then EvRecord else EvRUnlock) s)"
| ev_record: "pv_ev s i = Some EvRecord \<Longrightarrow>
    evMove owned s (evTo i EvRUnlock (s\<lparr>pv_recorded := pv_recorded s @ [i], pv_lost := pv_lost s \<or> pv_down s\<rparr>))"
| ev_runlock: "pv_ev s i = Some EvRUnlock \<Longrightarrow>
    evMove owned s (evTo i EvEnd (s\<lparr>pv_readers := pv_readers s - {i}\<rparr>))"

text \<open>\<open>Stop\<close>: its goroutine, and the caller, who returns when it is done or when the context has expired.\<close>

inductive spMove :: "bool \<Rightarrow> provider \<Rightarrow> provider \<Rightarrow> bool" for owned where
  sp_call: "pv_sp s j = None \<Longrightarrow> spMove owned s (spTo j SpGet s)"
| sp_get: "pv_sp s j = Some SpGet \<Longrightarrow> spMove owned s (spTo j SpTest (getBroadcaster owned s))"
| sp_test: "pv_sp s j = Some SpTest \<Longrightarrow> spMove owned s (spTo j (if pv_stopBroadcaster s then SpWLock else SpDoneCh) s)"
| sp_lock: "pv_sp s j = Some SpWLock \<Longrightarrow> pv_writer s = None \<Longrightarrow> pv_readers s = {} \<Longrightarrow>
    spMove owned s (spTo j SpShutdown (s\<lparr>pv_writer := Some j\<rparr>))"
| sp_shutdown: "pv_sp s j = Some SpShutdown \<Longrightarrow> spMove owned s (spTo j SpSet (s\<lparr>pv_down := True\<rparr>))"
| sp_set: "pv_sp s j = Some SpSet \<Longrightarrow> spMove owned s (spTo j SpUnlock (s\<lparr>pv_stopped := True\<rparr>))"
| sp_unlock: "pv_sp s j = Some SpUnlock \<Longrightarrow> spMove owned s (spTo j SpDoneCh (s\<lparr>pv_writer := None\<rparr>))"
| sp_done: "pv_sp s j = Some SpDoneCh \<Longrightarrow> spMove owned s (spTo j SpEnd s)"
| sp_returns: "pv_sp s j = Some SpEnd \<Longrightarrow> pv_ret s j = None \<Longrightarrow>
    spMove owned s (s\<lparr>pv_ret := (pv_ret s)(j \<mapsto> True)\<rparr>)"
| sp_expires: "pv_sp s j \<noteq> None \<Longrightarrow> pv_ret s j = None \<Longrightarrow>
    spMove owned s (s\<lparr>pv_ret := (pv_ret s)(j \<mapsto> False)\<rparr>)"

inductive rstep :: "bool \<Rightarrow> provider \<Rightarrow> provider \<Rightarrow> bool" for owned where
  events: "evMove owned s t \<Longrightarrow> rstep owned s t"
| stops: "spMove owned s t \<Longrightarrow> rstep owned s t"

definition rreach :: "bool \<Rightarrow> provider \<Rightarrow> bool" where
  "rreach owned s = (rstep owned)\<^sup>*\<^sup>* NewProvider s"

section \<open>Events of the reconciler (event.go)\<close>

datatype evType = TypeNormal | TypeWarning

record Event =
  ev_Type :: evType
  ev_Reason :: string
  ev_Message :: string
  ev_Annotations :: "(string, string) gmap"

text \<open>The pairs of a list; an odd one at its end is left out.\<close>

fun sliceMap :: "string list \<Rightarrow> (string, string) gmap \<Rightarrow> (string, string) gmap" where
  "sliceMap (k # v # rest) m = sliceMap rest (gput k v m)"
| "sliceMap [k] m = m"
| "sliceMap [] m = m"

definition Normal :: "string \<Rightarrow> string \<Rightarrow> string list \<Rightarrow> Event" where
  "Normal r message keysAndValues =
     \<lparr>ev_Type = TypeNormal, ev_Reason = r, ev_Message = message, ev_Annotations = sliceMap keysAndValues []\<rparr>"

definition Warning :: "string \<Rightarrow> string \<Rightarrow> string list \<Rightarrow> Event" where
  "Warning r err keysAndValues =
     \<lparr>ev_Type = TypeWarning, ev_Reason = r, ev_Message = err, ev_Annotations = sliceMap keysAndValues []\<rparr>"

record APIRecorder =
  ar_annotations :: "(string, string) gmap"

definition NewAPIRecorder :: APIRecorder where
  "NewAPIRecorder = \<lparr>ar_annotations = []\<rparr>"

text \<open>The arguments of the call of \<open>AnnotatedEventf\<close>; the last is a format.\<close>

definition api_Event :: "APIRecorder \<Rightarrow> Event \<Rightarrow> (string, string) gmap \<times> evType \<times> string \<times> string" where
  "api_Event r e = (ar_annotations r, ev_Type e, ev_Reason e, ev_Message e)"

definition api_WithAnnotations :: "string list \<Rightarrow> APIRecorder \<Rightarrow> APIRecorder" where
  "api_WithAnnotations keysAndValues r =
     (let ar = NewAPIRecorder;
          ar = fold (\<lambda>(k, v) ar. ar\<lparr>ar_annotations := gput k v (ar_annotations ar)\<rparr>) (ar_annotations r) ar
      in ar\<lparr>ar_annotations := sliceMap keysAndValues (ar_annotations ar)\<rparr>)"

text \<open>The recorder the reconciler is made with does nothing.\<close>

definition nop_Event :: "Event \<Rightarrow> ((string, string) gmap \<times> evType \<times> string \<times> string) option" where
  "nop_Event e = None"

end
