(* ===== verification/Recorder_Theorems.thy ===== *)
theory Recorder_Theorems
  imports Recorder
begin

text \<open>
  The properties of the recorders: no event is lost in a broadcaster that is shut down, none is recorded after a
  completed \<open>Stop\<close>, and what annotations an event is sent with.
\<close>

section \<open>Invariant\<close>

text \<open>Who holds the lock; a writer is alone.\<close>

definition reading :: "evPc option \<Rightarrow> bool" where
  "reading pc \<longleftrightarrow> pc \<in> {Some EvTest, Some EvRecord, Some EvRUnlock}"

definition writing :: "spPc option \<Rightarrow> bool" where
  "writing pc \<longleftrightarrow> pc \<in> {Some SpShutdown, Some SpSet, Some SpUnlock}"

definition inRead :: "provider \<Rightarrow> nat set" where
  "inRead s = {i. reading (pv_ev s i)}"

definition inWrite :: "provider \<Rightarrow> nat set" where
  "inWrite s = {j. writing (pv_sp s j)}"

lemmas move_defs = evTo_def spTo_def getBroadcaster_def

lemma in_evTo [simp]:
  "inRead (evTo i pc s) = (if reading (Some pc) then insert i (inRead s) else inRead s - {i})"
  "inWrite (evTo i pc s) = inWrite s"
  by (auto simp: inRead_def inWrite_def evTo_def)

lemma in_spTo [simp]:
  "inWrite (spTo j pc s) = (if writing (Some pc) then insert j (inWrite s) else inWrite s - {j})"
  "inRead (spTo j pc s) = inRead s"
  by (auto simp: inRead_def inWrite_def spTo_def)

definition lockInv :: "provider \<Rightarrow> bool" where
  "lockInv s \<longleftrightarrow> pv_readers s = inRead s \<and> inWrite s \<subseteq> set_option (pv_writer s) \<and> (pv_writer s = None \<or> inRead s = {})"

lemma in_keeps [simp]:
  "inRead (getBroadcaster owned s) = inRead s" "inWrite (getBroadcaster owned s) = inWrite s"
  "inRead (s\<lparr>pv_readers := R\<rparr>) = inRead s" "inWrite (s\<lparr>pv_readers := R\<rparr>) = inWrite s"
  "inRead (s\<lparr>pv_writer := W\<rparr>) = inRead s" "inWrite (s\<lparr>pv_writer := W\<rparr>) = inWrite s"
  "inRead (s\<lparr>pv_down := d\<rparr>) = inRead s" "inWrite (s\<lparr>pv_down := d\<rparr>) = inWrite s"
  "inRead (s\<lparr>pv_stopped := d\<rparr>) = inRead s" "inWrite (s\<lparr>pv_stopped := d\<rparr>) = inWrite s"
  "inRead (s\<lparr>pv_ret := r\<rparr>) = inRead s" "inWrite (s\<lparr>pv_ret := r\<rparr>) = inWrite s"
  "inRead (s\<lparr>pv_recorded := e, pv_lost := l\<rparr>) = inRead s" "inWrite (s\<lparr>pv_recorded := e, pv_lost := l\<rparr>) = inWrite s"
  by (simp_all add: inRead_def inWrite_def getBroadcaster_def)

lemma lock_keeps [simp]:
  "pv_readers (evTo i pc s) = pv_readers s" "pv_writer (evTo i pc s) = pv_writer s"
  "pv_readers (spTo j qc s) = pv_readers s" "pv_writer (spTo j qc s) = pv_writer s"
  "pv_readers (getBroadcaster owned s) = pv_readers s" "pv_writer (getBroadcaster owned s) = pv_writer s"
  by (simp_all add: move_defs)

lemma in_read: "pv_ev s i = pc \<Longrightarrow> i \<in> inRead s \<longleftrightarrow> reading pc"
  by (simp add: inRead_def)

lemma in_write: "pv_sp s j = pc \<Longrightarrow> j \<in> inWrite s \<longleftrightarrow> writing pc"
  by (simp add: inWrite_def)

lemma lockInv_ev: "evMove owned s t \<Longrightarrow> lockInv s \<Longrightarrow> lockInv t"
  by (erule evMove.cases; drule in_read) (auto simp: lockInv_def reading_def)

lemma one_writer: "lockInv s \<Longrightarrow> j \<in> inWrite s \<Longrightarrow> pv_writer s = Some j \<and> inWrite s = {j} \<and> inRead s = {}"
  by (cases "pv_writer s") (auto simp: lockInv_def)

lemma lockInv_sp: "spMove owned s t \<Longrightarrow> lockInv s \<Longrightarrow> lockInv t"
proof (induction rule: spMove.induct)
  case (sp_shutdown s j)
  then have "pv_writer s = Some j \<and> inWrite s = {j} \<and> inRead s = {}"
    by (intro one_writer) (simp_all add: in_write writing_def)
  then show ?case using sp_shutdown(2) by (simp add: lockInv_def writing_def)
next
  case (sp_set s j)
  then have "pv_writer s = Some j \<and> inWrite s = {j} \<and> inRead s = {}"
    by (intro one_writer) (simp_all add: in_write writing_def)
  then show ?case using sp_set(2) by (simp add: lockInv_def writing_def)
next
  case (sp_unlock s j)
  then have "pv_writer s = Some j \<and> inWrite s = {j} \<and> inRead s = {}"
    by (intro one_writer) (simp_all add: in_write writing_def)
  then show ?case using sp_unlock(2) by (simp add: lockInv_def writing_def)
next
  case (sp_lock s j)
  then show ?case by (auto simp: lockInv_def writing_def)
qed (simp_all add: lockInv_def writing_def; blast)+

text \<open>The broadcaster is shut down and the provider stopped in one critical section.\<close>

definition downInv :: "provider \<Rightarrow> bool" where
  "downInv s \<longleftrightarrow> \<not> pv_lost s \<and> (\<forall>i. pv_ev s i = Some EvRecord \<longrightarrow> \<not> pv_stopped s) \<and>
     (pv_down s \<longrightarrow> pv_stopped s \<or> pv_writer s \<noteq> None) \<and> (\<forall>j. pv_sp s j = Some SpUnlock \<longrightarrow> pv_stopped s)"

lemma downInv_ev: "evMove owned s t \<Longrightarrow> lockInv s \<Longrightarrow> downInv s \<Longrightarrow> downInv t"
proof (induction rule: evMove.induct)
  case (ev_record s i)
  then have "i \<in> pv_readers s" by (simp add: lockInv_def inRead_def reading_def)
  then have "pv_writer s = None" using ev_record(2) by (auto simp: lockInv_def)
  then have "\<not> pv_down s" using ev_record(1,3) by (auto simp: downInv_def)
  then show ?case using ev_record by (auto simp: downInv_def move_defs)
qed (auto simp: downInv_def move_defs)

lemma downInv_sp: "spMove owned s t \<Longrightarrow> lockInv s \<Longrightarrow> downInv s \<Longrightarrow> downInv t"
proof (induction rule: spMove.induct)
  case (sp_shutdown s j)
  then have "pv_writer s = Some j" using one_writer [of s j] in_write [OF sp_shutdown(1)] by (simp add: writing_def)
  then show ?case using sp_shutdown(3) by (auto simp: downInv_def move_defs)
next
  case (sp_set s j)
  then have "inRead s = {}" using one_writer [of s j] in_write [OF sp_set(1)] by (simp add: writing_def)
  then have "\<not> reading (pv_ev s i)" for i by (auto simp: inRead_def)
  then have "pv_ev s i \<noteq> Some EvRecord" for i by (metis insertCI reading_def)
  then show ?case using sp_set(3) by (auto simp: downInv_def move_defs)
next
  case (sp_unlock s j)
  then show ?case by (auto simp: downInv_def move_defs)
qed (auto simp: downInv_def move_defs)

text \<open>One broadcaster, which only a provider that owns it stops.\<close>

definition onceInv :: "bool \<Rightarrow> provider \<Rightarrow> bool" where
  "onceInv owned s \<longleftrightarrow> pv_made s = of_bool (pv_once s) \<and> pv_stopBroadcaster s = (pv_once s \<and> owned) \<and>
     (\<forall>j. pv_sp s j = Some SpTest \<longrightarrow> pv_once s)"

definition ownInv :: "bool \<Rightarrow> provider \<Rightarrow> bool" where
  "ownInv owned s \<longleftrightarrow> (\<not> owned \<longrightarrow> \<not> pv_down s \<and> (\<forall>j. pv_sp s j \<noteq> Some SpWLock \<and> \<not> writing (pv_sp s j)))"

definition doneInv :: "bool \<Rightarrow> provider \<Rightarrow> bool" where
  "doneInv owned s \<longleftrightarrow> (owned \<longrightarrow> (\<forall>j. pv_sp s j = Some SpDoneCh \<or> pv_sp s j = Some SpEnd \<longrightarrow> pv_stopped s)) \<and>
     (\<forall>j. pv_ret s j = Some True \<longrightarrow> pv_sp s j = Some SpEnd)"

lemma onceInv_step: "rstep owned s t \<Longrightarrow> onceInv owned s \<Longrightarrow> onceInv owned t"
proof (induction rule: rstep.induct)
  case (events s t)
  then show ?case by (induction rule: evMove.induct) (auto simp: onceInv_def move_defs)
next
  case (stops s t)
  then show ?case by (induction rule: spMove.induct) (auto simp: onceInv_def move_defs)
qed

lemma ownInv_step: "rstep owned s t \<Longrightarrow> onceInv owned s \<Longrightarrow> ownInv owned s \<Longrightarrow> ownInv owned t"
proof (induction rule: rstep.induct)
  case (events s t)
  then show ?case by (induction rule: evMove.induct) (auto simp: ownInv_def move_defs)
next
  case (stops s t)
  then show ?case by (induction rule: spMove.induct) (auto simp: ownInv_def onceInv_def move_defs writing_def)
qed

lemma provDone_step: "rstep owned s t \<Longrightarrow> onceInv owned s \<Longrightarrow> downInv s \<Longrightarrow> doneInv owned s \<Longrightarrow> doneInv owned t"
proof (induction rule: rstep.induct)
  case (events s t)
  then show ?case by (induction rule: evMove.induct) (auto simp: doneInv_def move_defs)
next
  case (stops s t)
  then show ?case by (induction rule: spMove.induct) (auto simp: doneInv_def onceInv_def downInv_def move_defs)
qed

definition provInv :: "bool \<Rightarrow> provider \<Rightarrow> bool" where
  "provInv owned s \<longleftrightarrow> lockInv s \<and> downInv s \<and> onceInv owned s \<and> ownInv owned s \<and> doneInv owned s"

lemma provInv_step: "rstep owned s t \<Longrightarrow> provInv owned s \<Longrightarrow> provInv owned t"
  using onceInv_step [of owned s t] ownInv_step [of owned s t] provDone_step [of owned s t]
  by (auto simp: provInv_def elim: rstep.cases intro: lockInv_ev lockInv_sp downInv_ev downInv_sp)

lemma provInv_steps: "(rstep owned)\<^sup>*\<^sup>* s t \<Longrightarrow> provInv owned s \<Longrightarrow> provInv owned t"
  by (induction rule: rtranclp_induct) (simp_all add: provInv_step)

lemma provInv: "rreach owned s \<Longrightarrow> provInv owned s"
  unfolding rreach_def
  by (erule provInv_steps)
    (simp add: NewProvider_def provInv_def lockInv_def downInv_def onceInv_def ownInv_def doneInv_def
      inRead_def inWrite_def reading_def writing_def)

section \<open>Events and Stop\<close>

text \<open>C28: Whatever goroutines record events while the provider is stopped, no event goes to a broadcaster that was shut
  down; one broadcaster is made at most, and it is shut down only when it belongs to the provider.\<close>

theorem no_event_lost:
  assumes "rreach owned s"
  shows "\<not> pv_lost s \<and> pv_made s \<le> 1 \<and> (pv_down s \<longrightarrow> owned)"
  using provInv [OF assms] by (auto simp: provInv_def downInv_def onceInv_def ownInv_def)

lemma stopped_recorded_step:
  "rstep owned s t \<Longrightarrow> provInv owned s \<Longrightarrow> pv_stopped s \<Longrightarrow> pv_stopped t \<and> pv_recorded t = pv_recorded s"
proof (induction rule: rstep.induct)
  case (events s t)
  then show ?case by (induction rule: evMove.induct) (auto simp: provInv_def downInv_def move_defs)
next
  case (stops s t)
  then show ?case by (induction rule: spMove.induct) (auto simp: move_defs)
qed

text \<open>C29: After a \<open>Stop\<close> that returned because it was done, a provider that owns its broadcaster records no event any more.\<close>

theorem stop_ends_recording:
  assumes "rreach True s" and "pv_ret s j = Some True" and "(rstep True)\<^sup>*\<^sup>* s t"
  shows "pv_recorded t = pv_recorded s"
proof -
  have inv: "provInv True s" by (rule provInv [OF assms(1)])
  then have "pv_stopped s" using assms(2) by (auto simp: provInv_def doneInv_def)
  from assms(3) have "provInv True t \<and> pv_stopped t \<and> pv_recorded t = pv_recorded s"
    by (induction rule: rtranclp_induct) (use inv \<open>pv_stopped s\<close> stopped_recorded_step provInv_step in \<open>auto\<close>)
  then show ?thesis by simp
qed

lemma rreach_sp: "rreach owned s \<Longrightarrow> spMove owned s t \<Longrightarrow> rreach owned t"
  unfolding rreach_def by (rule rtranclp.rtrancl_into_rtrancl) (auto intro: rstep.stops)

lemma rreach_ev: "rreach owned s \<Longrightarrow> evMove owned s t \<Longrightarrow> rreach owned t"
  unfolding rreach_def by (rule rtranclp.rtrancl_into_rtrancl) (auto intro: rstep.events)

text \<open>An event is recorded, then the provider is stopped.\<close>

definition oneEvent :: provider where
  "oneEvent = NewProvider\<lparr>pv_ev := [0 \<mapsto> EvEnd], pv_once := True, pv_made := 1, pv_stopBroadcaster := True, pv_recorded := [0]\<rparr>"

lemma oneEvent_reach: "rreach True oneEvent"
proof -
  have "rreach True NewProvider" by (simp add: rreach_def)
  note rreach_ev [OF this ev_call [of _ 0]]
  note rreach_ev [OF this ev_ensure [of _ 0]]
  note rreach_ev [OF this ev_rlock [of _ 0]]
  note rreach_ev [OF this ev_test [of _ 0]]
  note rreach_ev [OF this ev_record [of _ 0]]
  note rreach_ev [OF this ev_runlock [of _ 0]]
  then show ?thesis by (simp add: NewProvider_def move_defs oneEvent_def)
qed

definition stoppedProvider :: provider where
  "stoppedProvider = oneEvent\<lparr>pv_sp := [0 \<mapsto> SpEnd], pv_ret := [0 \<mapsto> True], pv_down := True, pv_stopped := True\<rparr>"

lemma stoppedProvider_reach: "rreach True stoppedProvider"
proof -
  note oneEvent_reach
  note rreach_sp [OF this sp_call [of _ 0]]
  note rreach_sp [OF this sp_get [of _ 0]]
  note rreach_sp [OF this sp_test [of _ 0]]
  note rreach_sp [OF this sp_lock [of _ 0]]
  note rreach_sp [OF this sp_shutdown [of _ 0]]
  note rreach_sp [OF this sp_set [of _ 0]]
  note rreach_sp [OF this sp_unlock [of _ 0]]
  note rreach_sp [OF this sp_done [of _ 0]]
  note rreach_sp [OF this sp_returns [of _ 0]]
  then show ?thesis by (simp add: NewProvider_def oneEvent_def move_defs stoppedProvider_def)
qed

theorem no_event_lost_witness: "\<not> pv_lost stoppedProvider \<and> pv_made stoppedProvider \<le> 1"
  using no_event_lost [OF stoppedProvider_reach] by simp

theorem stop_ends_recording_witness: "pv_recorded (evTo 1 EvEnsure stoppedProvider) = [0]"
proof -
  have "rstep True stoppedProvider (evTo 1 EvEnsure stoppedProvider)"
    by (intro rstep.events ev_call) (simp add: stoppedProvider_def oneEvent_def)
  then have "(rstep True)\<^sup>*\<^sup>* stoppedProvider (evTo 1 EvEnsure stoppedProvider)" by (rule r_into_rtranclp)
  from stop_ends_recording [OF stoppedProvider_reach _ this, of 0]
  show ?thesis by (simp add: stoppedProvider_def oneEvent_def)
qed

section \<open>Annotations\<close>

text \<open>An annotation of a list of keys and values is the last value of its key; the others stay.\<close>

fun lastValue :: "string list \<Rightarrow> string \<Rightarrow> string option" where
  "lastValue (k # v # rest) x = (case lastValue rest x of None \<Rightarrow> (if x = k then Some v else None) | Some w \<Rightarrow> Some w)"
| "lastValue kvs x = None"

lemma sliceMap_last:
  "gget (sliceMap kvs m) x = (case lastValue kvs x of None \<Rightarrow> gget m x | Some v \<Rightarrow> Some v)"
  by (induction kvs m rule: sliceMap.induct) (auto split: option.split)

text \<open>A recorder made with annotations keeps those of the old one and the old one keeps its own; the annotations an
  event was made with are never sent.\<close>

lemma api_annotations:
  assumes "gwf (ar_annotations r)"
  shows "gget (fst (api_Event (api_WithAnnotations kvs r) e)) x =
      (case lastValue kvs x of None \<Rightarrow> gget (ar_annotations r) x | Some v \<Rightarrow> Some v)"
    "api_Event r (Normal reason message kvs) = api_Event r (Normal reason message [])"
    "api_Event r (Warning reason err kvs) = api_Event r (Warning reason err [])"
proof -
  have f: "ar_annotations (fold (\<lambda>(k, v) ar. ar\<lparr>ar_annotations := gput k v (ar_annotations ar)\<rparr>) es ar) =
      fold (\<lambda>(k, v). gput k v) es (ar_annotations ar)" for es ar
    by (induction es arbitrary: ar) auto
  show "gget (fst (api_Event (api_WithAnnotations kvs r) e)) x =
      (case lastValue kvs x of None \<Rightarrow> gget (ar_annotations r) x | Some v \<Rightarrow> Some v)"
    using gget_fold_gput [OF assms, of "[]"]
    by (simp add: api_Event_def api_WithAnnotations_def Let_def sliceMap_last f NewAPIRecorder_def split: option.split)
qed (simp_all add: api_Event_def Normal_def Warning_def)

end
