(* ===== verification/Exec_Report.thy ===== *)
theory Exec_Report
  imports Exec_Run_Theorems Executor_Progress
begin

text \<open>
  What is told of a run: the results in the order in which the functions finished, the total of the executor's
  \<open>Run\<close> (\<open>ExecPostRunFn\<close>), and the report \<open>Print\<close> makes of them (pkg/exec/result/result.go).  The durations are left out,
  as the times of the results are; \<open>BlockResult\<close> is nil in every result, as nothing sets it.
\<close>

section \<open>The report\<close>

text \<open>A line of the report: the number, names, success and reason of a result.\<close>

record reportLine =
  rl_order :: nat
  rl_ExecName :: string
  rl_VertexName :: string
  rl_success :: string
  rl_reason :: string

definition isTotal :: "ResultInfo \<Rightarrow> bool" where
  "isTotal ri \<longleftrightarrow> ri_Type ri = ExecRootType \<and> ri_VertexName ri = ''total''"

definition okString :: "bool \<Rightarrow> string" where
  "okString b = (if b then ''OK'' else ''NOK'')"

fun printResults :: "nat \<Rightarrow> ResultInfo list \<Rightarrow> bool \<Rightarrow> reportLine list \<times> bool" where
  "printResults i [] totalSuccess = ([], totalSuccess)"
| "printResults i (ri # ris) totalSuccess =
     (if isTotal ri then printResults (i + 1) ris totalSuccess
      else
        (let totalSuccess = (if \<not> ri_Success ri then False else totalSuccess);
             line = \<lparr>rl_order = i, rl_ExecName = ri_ExecName ri, rl_VertexName = ri_VertexName ri,
               rl_success = okString (ri_Success ri), rl_reason = ri_Reason ri\<rparr>
         in apfst (Cons line) (printResults (i + 1) ris totalSuccess)))"

text \<open>\<open>Print\<close>: the lines and the overall success.\<close>

definition Print :: "ResultInfo slice \<Rightarrow> reportLine list \<times> string" where
  "Print r = apsnd okString (printResults 0 (slice_Get r) True)"

lemma printResults_success: "snd (printResults i ris b) \<longleftrightarrow> b \<and> (\<forall>ri\<in>set ris. isTotal ri \<or> ri_Success ri)"
  by (induction i ris b rule: printResults.induct) (auto simp: Let_def)

lemma printResults_lines:
  "map rl_VertexName (fst (printResults i ris b)) = map ri_VertexName (filter (\<lambda>ri. \<not> isTotal ri) ris)"
  by (induction i ris b rule: printResults.induct) (auto simp: Let_def)

section \<open>One result for every function that finished\<close>

fun finishedOf :: "logEntry list \<Rightarrow> (string \<times> bool) list" where
  "finishedOf [] = []"
| "finishedOf (Started v # L) = finishedOf L"
| "finishedOf (Finished v b # L) = (v, b) # finishedOf L"

lemma finishedOf_append: "finishedOf (L @ M) = finishedOf L @ finishedOf M"
  by (induction L rule: finishedOf.induct) auto

lemma finishedOf_set: "(v, b) \<in> set (finishedOf L) \<longleftrightarrow> Finished v b \<in> set L"
  by (induction L rule: finishedOf.induct) auto

abbreviation verdict :: "ResultInfo \<Rightarrow> string \<times> bool" where
  "verdict ri \<equiv> (ri_VertexName ri, ri_Success ri)"

lemma results_of_log:
  assumes "flat h" and "slice_Get (curResults w0) = []"
  shows "dataRun h L w0 = Some rs \<Longrightarrow> map verdict (resultsOf rs) = finishedOf L"
proof (induction L arbitrary: rs rule: rev_induct)
  case Nil
  then show ?case using assms(2) by (auto simp: runStart_def)
next
  case (snoc e L)
  then obtain rs' where rs': "dataRun h L w0 = Some rs'" and step: "dataStep h e rs' = Some rs"
    by (auto simp: dataRun_snoc split: Option.bind_splits)
  have ih: "map verdict (resultsOf rs') = finishedOf L" by (rule snoc.IH [OF rs'])
  show ?case
  proof (cases e)
    case (Started v)
    then show ?thesis using step ih by (auto simp: finishedOf_append split: Option.bind_splits)
  next
    case (Finished v b)
    then obtain vc i w' where vc: "GetVertex (h_DAG h) v = Some vc"
      and run: "completeRun h v vc i (rs_world rs') = Some (b, w')" and rs: "rs = rs'\<lparr>rs_world := w'\<rparr>"
      using step by (auto split: Option.bind_splits if_splits)
    obtain ri where "ri_VertexName ri = v" "ri_Success ri = b" "w' = addResult ri (rs_world rs')"
      using completeRun_produces [OF assms(1) vc run] by blast
    then show ?thesis using ih by (simp add: rs Finished finishedOf_append addResult_def slice_Add_def slice_Get_def)
  qed
qed

lemma finishedOf_once: "schedule d L \<Longrightarrow> distinct (map fst (finishedOf L))"
proof (induction rule: schedule.induct)
  case (finishes L v b)
  then have "v \<notin> fst ` set (finishedOf L)" by (auto simp: finishedOf_set)
  then show ?case using finishes.IH by (simp add: finishedOf_append)
qed (simp_all add: finishedOf_append)

text \<open>When a vertex has finished, so have those it depends on, before.\<close>

lemma finishedOf_ordered:
  assumes "schedule d L" and "finishedOf L = as @ (w, b) # bs" and "u \<in> set (GetUpVertexes d w)"
  shows "u \<in> fst ` set as"
  using assms
proof (induction arbitrary: bs rule: schedule.induct)
  case (finishes L v b')
  then have split: "finishedOf L @ [(v, b')] = as @ (w, b) # bs" by (simp add: finishedOf_append)
  show ?case
  proof (cases bs rule: rev_cases)
    case Nil
    then have "w = v" "as = finishedOf L" using split by auto
    then obtain c where "Finished u c \<in> set L"
      using started_deps [OF finishes.hyps(1)] finishes.hyps(2) finishes.prems(2) by blast
    then show ?thesis using \<open>as = finishedOf L\<close> by (force simp: finishedOf_set [symmetric])
  next
    case (snoc cs c)
    then have "finishedOf L = as @ (w, b) # cs" using split by auto
    from finishes.IH [OF this finishes.prems(2)] show ?thesis .
  qed
qed (auto simp: finishedOf_append)

section \<open>A successful run\<close>

text \<open>The executor's \<open>Run\<close>: when the main walk has returned, the handler records the total.\<close>

fun returnedOf :: "thread list \<Rightarrow> bool option" where
  "returnedOf [] = None"
| "returnedOf (TReturned success # ts) = Some success"
| "returnedOf (t # ts) = returnedOf ts"

definition executor_Run :: "execHandler \<Rightarrow> est \<Rightarrow> runState \<Rightarrow> world option" where
  "executor_Run h s rs = map_option (\<lambda>success. RecordFinalResult h success (rs_world rs)) (returnedOf (threads s))"

lemma returnedOf_Some: "returnedOf ts = Some b \<Longrightarrow> TReturned b \<in> set ts"
  by (induction ts rule: returnedOf.induct) auto

lemma returnedOf_None: "returnedOf ts = None \<Longrightarrow> TReturned b \<notin> set ts"
  by (induction ts rule: returnedOf.induct) auto

lemma reachable_mainInv: "reachable d root s \<Longrightarrow> mainInv d s"
  by (induction rule: reachable.induct) (auto intro: mainInv_start mainInv_step)

text \<open>There is one main walk, so it returns one value.\<close>

lemma executor_Run_returned:
  assumes "reachable d root s" and b: "TReturned b \<in> set (threads s)"
  shows "executor_Run h s rs = Some (RecordFinalResult h b (rs_world rs))"
proof -
  obtain b' where b': "returnedOf (threads s) = Some b'" using returnedOf_None b by (cases "returnedOf (threads s)") auto
  have "weigh mains s = 1" using reachable_mainInv [OF assms(1)] by (simp add: mainInv_def)
  from unique_main [OF this returnedOf_Some [OF b'] _ b] have "b' = b" by simp
  then show ?thesis by (simp add: executor_Run_def b')
qed

text \<open>C25: The results of a successful run over a graph without blocks and without a vertex called total: one for every vertex, each successful, none before
  those of the vertices it depends on, and the total at the end; the report has a line for each and says OK.\<close>

theorem successful_run_report:
  assumes "flat h" and "dag_ok (h_DAG h)" and "slice_Get (curResults w0) = []"
    and "reachable (h_DAG h) root s" and "dataRun h (runLog s) w0 = Some rs" and "TReturned True \<in> set (threads s)"
    and "\<not> VertexExists (h_DAG h) ''total''"
  shows "\<exists>w total. executor_Run h s rs = Some w \<and> slice_Get (curResults w) = resultsOf rs @ [total] \<and>
    isTotal total \<and> ri_Success total \<and>
    distinct (map ri_VertexName (resultsOf rs)) \<and> set (map ri_VertexName (resultsOf rs)) = {v. VertexExists (h_DAG h) v} \<and>
    (\<forall>as ri bs. resultsOf rs = as @ ri # bs \<longrightarrow>
      set (GetUpVertexes (h_DAG h) (ri_VertexName ri)) \<subseteq> ri_VertexName ` set as) \<and>
    map rl_VertexName (fst (Print (curResults w))) = map ri_VertexName (resultsOf rs) \<and>
    snd (Print (curResults w)) = ''OK''"
proof -
  let ?R = "resultsOf rs" and ?w = "RecordFinalResult h True (rs_world rs)"
  have sched: "schedule (h_DAG h) (runLog s)" by (rule schedule_runLog [OF assms(2,4)])
  have log: "map verdict ?R = finishedOf (runLog s)" by (rule results_of_log [OF assms(1,3,5)])
  have names: "map ri_VertexName ?R = map fst (finishedOf (runLog s))"
    unfolding log [symmetric] by simp
  have inv: "dataInv h w0 (runLog s) rs" by (rule dataInv_run [OF assms(1,3) sched assms(5)])
  have ex: "VertexExists (h_DAG h) (ri_VertexName ri)" if "ri \<in> set ?R" for ri
    using dataInv_result [OF inv that] by (auto simp: VertexExists_def GetVertex_def)
  have fin: "Finished v True \<in> set (runLog s)" if "VertexExists (h_DAG h) v" for v
    using success_finished(1) [OF assms(4,6) that] .
  have mem: "Finished v b \<in> set (runLog s) \<longleftrightarrow> (\<exists>ri\<in>set ?R. ri_VertexName ri = v \<and> ri_Success ri = b)" for v b
    using inv unfolding dataInv_def by blast
  have dist: "distinct (map ri_VertexName ?R)" unfolding names by (rule finishedOf_once [OF sched])
  have all: "set (map ri_VertexName ?R) = {v. VertexExists (h_DAG h) v}"
    using ex fin mem by (auto simp: image_iff)
  have ok: "ri_Success ri" if ri: "ri \<in> set ?R" for ri
  proof -
    obtain r where r: "r \<in> set ?R" "ri_VertexName r = ri_VertexName ri" "ri_Success r"
      using fin [OF ex [OF ri]] mem by auto
    then have "r = ri" using dist ri by (simp add: distinct_map inj_on_def)
    then show ?thesis using r by simp
  qed
  have order: "set (GetUpVertexes (h_DAG h) (ri_VertexName ri)) \<subseteq> ri_VertexName ` set as" if "?R = as @ ri # bs" for as ri bs
  proof
    fix u assume u: "u \<in> set (GetUpVertexes (h_DAG h) (ri_VertexName ri))"
    have "finishedOf (runLog s) = map verdict as @ (ri_VertexName ri, ri_Success ri) # map verdict bs"
      unfolding log [symmetric] that by simp
    from finishedOf_ordered [OF sched this u] show "u \<in> ri_VertexName ` set as" by force
  qed
  have run: "executor_Run h s rs = Some ?w" by (rule executor_Run_returned [OF assms(4,6)])
  obtain total where t: "slice_Get (curResults ?w) = ?R @ [total]" "isTotal total" "ri_Success total"
    by (simp add: RecordFinalResult_def slice_Add_def slice_Get_def isTotal_def)
  have none: "\<not> isTotal ri" if "ri \<in> set ?R" for ri using ex [OF that] assms(7) by (auto simp: isTotal_def)
  have "filter (\<lambda>ri. \<not> isTotal ri) (?R @ [total]) = ?R" using none t(2) by simp
  then have "map rl_VertexName (fst (Print (curResults ?w))) = map ri_VertexName ?R"
    by (simp add: Print_def t(1) printResults_lines)
  moreover have "snd (Print (curResults ?w)) = ''OK''"
    using ok t by (simp add: Print_def printResults_success okString_def)
  ultimately show ?thesis using run t dist all order by blast
qed

theorem successful_run_report_witness:
  "\<exists>w. executor_Run chainHandler chainEnd (chainState True) = Some w \<and> snd (Print (curResults w)) = ''OK'' \<and>
    map rl_VertexName (fst (Print (curResults w))) = [''r'', ''a'', ''b'']"
proof -
  have "\<not> VertexExists (h_DAG chainHandler) ''total''" by (simp add: chain_handler chain_vertex)
  moreover have "dag_ok (h_DAG chainHandler)" "reachable (h_DAG chainHandler) ''r'' chainEnd"
    by (simp_all add: chain_handler chain_ok chainEnd_reachable)
  ultimately obtain w where "executor_Run chainHandler chainEnd (chainState True) = Some w"
      "map rl_VertexName (fst (Print (curResults w))) = map ri_VertexName (resultsOf (chainState True))"
      "snd (Print (curResults w)) = ''OK''"
    using successful_run_report [OF chain_flat _ chain_start _ chainEnd_run chain_success] by blast
  moreover have "map ri_VertexName (resultsOf (chainState True)) = [''r'', ''a'', ''b'']" by (simp add: chain_results)
  ultimately show ?thesis by auto
qed

text \<open>A task with the name total is taken for the total: its failure does not show in the report.\<close>

lemma total_task_hidden:
  assumes "ri_Type ri = ExecRootType" and "ri_VertexName ri = ''total''"
  shows "Print (slice_Add ri r) = Print r"
proof -
  have "printResults i (ris @ [ri]) b = printResults i ris b" for i ris b
    by (induction i ris b rule: printResults.induct) (simp_all add: isTotal_def assms Let_def)
  then show ?thesis by (simp add: Print_def slice_Add_def slice_Get_def)
qed

end
