(* ===== verification/Exec_Typing.thy ===== *)
theory Exec_Typing
  imports Exec_Run_Theorems
begin

text \<open>
  The types of what a run keeps as \<open>any\<close>: the output store holds only output infos, so that the type switches of
  \<open>GetFinalOutput\<close> and of the functions never miss, and so do the outputs of the results; none is conditioned.  It
  holds for graphs with blocks, whose runs are those of the environment of the block.
\<close>

definition typedWorld :: "world \<Rightarrow> bool" where
  "typedWorld w \<longleftrightarrow> unconditioned (curOutputs w) \<and>
     (\<forall>ri\<in>set (slice_Get (curResults w)). \<forall>out. ri_Output ri = Some out \<longrightarrow> unconditioned out)"

text \<open>The run of a block keeps what the world is.\<close>

definition blocksKeep :: "(world \<Rightarrow> bool) \<Rightarrow> blockEnv \<Rightarrow> bool" where
  "blocksKeep P B \<longleftrightarrow> (\<forall>d w w'. P w \<longrightarrow> inner B d w = Some w' \<longrightarrow> P w')"

section \<open>The state of a function object\<close>

lemma execSingle_state_keeps:
  assumes "keeps I r" and "I s" and "execSingle L r f i s = Some (oe, i', t)"
  shows "I t"
proof -
  have once: "I t" if "initOutputFn r = Some g" "runOnce r j (g n s) = Some (e, t)" for g n j e t
    using runOnce_keeps [OF assms(1) _ that(2)] assms(1,2) that(1) by (simp add: keeps_def)
  have init: "I (g n s)" if "initOutputFn r = Some g" for g n
    using assms(1,2) that by (simp add: keeps_def)
  show ?thesis
    using assms(2,3) once init
    by (auto simp: execSingle_def Let_def split: if_splits Option.bind_splits prod.splits option.splits)
qed

lemma exec_state_keeps:
  assumes "keeps I r" and "I s" and run: "exec L r f i s = Some (oe, i', t)"
  shows "I t"
proof -
  have init: "I (g n s)" if "initOutputFn r = Some g" for g n
    using assms(1,2) that by (simp add: keeps_def)
  consider out err where "blockItems L f i = Inl (out, err)" | "blockItems L f i = Inr None"
    | "blockItems L f i = Inr (Some [])" | v vs where "blockItems L f i = Inr (Some (v # vs))"
    by (metis list.exhaust option.exhaust sum.exhaust surj_pair)
  then show ?thesis
  proof cases
    case 2
    then show ?thesis using run execSingle_state_keeps [OF assms(1,2)] by (simp add: exec_def)
  next
    case 3
    then show ?thesis using run init by (auto simp: exec_def split: Option.bind_splits)
  next
    case (4 v vs)
    then obtain g where g: "initOutputFn r = Some g"
      and ex: "(case execItems L r f 0 (v # vs) i (g (length (v # vs)) s) of None \<Rightarrow> None
          | Some (Some err, i, s) \<Rightarrow> Some ((None, Some err), i, s)
          | Some (None, i, s) \<Rightarrow> execSingle L r f i s) = Some (oe, i', t)"
      using run by (auto simp: exec_def simp del: execItems.simps split: Option.bind_splits)
    then obtain e j u where items: "execItems L r f 0 (v # vs) i (g (length (v # vs)) s) = Some (e, j, u)"
      by (auto split: option.splits)
    have "I u" by (rule execItems_keeps [OF assms(1) init [OF g] items])
    then show ?thesis
      using ex execSingle_state_keeps [OF assms(1)] unfolding items by (cases e) auto
  qed (use assms(2) run in \<open>simp add: exec_def\<close>)
qed

lemma block_keeps: "blocksKeep P B \<Longrightarrow> keeps (\<lambda>r. P (blk_world r)) (NewBlockFn B)"
  by (auto simp: keeps_def NewBlockFn_def block_run_def blocksKeep_def split: option.splits Option.bind_splits)

text \<open>What a function leaves of the world: only a block touches it.\<close>

lemma fnmap_Run_keeps_world:
  assumes "blocksKeep P B" and "P w" and run: "fnmap_Run (functions_Init L B root) vc i w = Some (oe, i', w')"
  shows "P w'"
proof (cases "fn_Type (vc_Function vc) = BlockType")
  case True
  then show ?thesis using run assms(2)
    by (auto simp: fnmap_defs block_Run_def split: Option.bind_splits
        dest!: exec_state_keeps [OF block_keeps [OF assms(1)], rotated])
next
  case False
  from fnmap_Run_any_world [OF run False, of w] run assms(2) show ?thesis by simp
qed

section \<open>The run\<close>

lemma unconditioned_Add:
  assumes "unconditioned out" and "\<And>o'. ob = Some o' \<Longrightarrow> unconditioned o'"
  shows "unconditioned (output_Add ob out)"
proof (cases ob)
  case (Some o')
  have "(\<forall>e\<in>set (fold (\<lambda>(k, v). gput k v) m n). P e)" if "\<forall>e\<in>set m. P e" "\<forall>e\<in>set n. P e"
    for P and m n :: "(string, any) gmap"
    using that
  proof (induction m arbitrary: n)
    case (Cons kv m)
    obtain k v where kv: "kv = (k, v)" by (cases kv)
    have "\<forall>e\<in>set (gput k v n). P e" using Cons.prems set_gput [of k v n] by (auto simp: kv)
    then show ?case using Cons.IH [of "gput k v n"] Cons.prems by (simp add: kv)
  qed simp
  then show ?thesis using assms Some by (simp add: unconditioned_def outs.get_add)
qed (use assms in \<open>simp add: output_Add_def\<close>)

lemma completeRun_typed:
  assumes "h_FnMap h = functions_Init L B root" and "blocksKeep typedWorld B" and "typedWorld w"
    and run: "completeRun h v vc i w = Some (b, w')"
  shows "typedWorld w'"
proof -
  obtain out err i' u where fr: "fnmap_Run (functions_Init L B root) vc i w = Some ((out, err), i', u)"
    and w': "curOutputs w' = output_Add out (curOutputs u)"
      "\<exists>ri. ri_Output ri = out \<and> slice_Get (curResults w') = slice_Get (curResults u) @ [ri]"
    using run assms(1)
    by (auto simp: completeRun_def Let_def slice_Add_def slice_Get_def split: Option.bind_splits)
  have u: "typedWorld u" by (rule fnmap_Run_keeps_world [OF assms(2,3) fr])
  have out: "unconditioned o'" if "out = Some o'" for o'
    using fr unfolding that by (rule fnmap_Run_unconditioned)
  show ?thesis using u w'(2) unconditioned_Add [of "curOutputs u", OF _ out]
    by (auto simp: typedWorld_def w'(1) out)
qed

lemma dataStep_typed:
  assumes "h_FnMap h = functions_Init L B root" and "blocksKeep typedWorld B"
    and "dataStep h e rs = Some rs'" and "typedWorld (rs_world rs)"
  shows "typedWorld (rs_world rs')"
  using assms(3,4) completeRun_typed [OF assms(1,2)]
  by (cases e) (auto split: Option.bind_splits if_splits)

lemma start_typed: "typedWorld w \<Longrightarrow> typedWorld (snd (builder_New L B gvk data d w))"
  by (simp add: builder_New_def Let_def typedWorld_def unconditioned_AddEntry)

lemma dataRun_typed:
  assumes "h_FnMap h = functions_Init L B root" and "blocksKeep typedWorld B" and "typedWorld w0"
  shows "dataRun h E w0 = Some rs \<Longrightarrow> typedWorld (rs_world rs)"
proof (induction E arbitrary: rs rule: rev_induct)
  case Nil
  then show ?case using assms(3) by (auto simp: runStart_def)
next
  case (snoc e E)
  then show ?case using dataStep_typed [OF assms(1,2)] by (auto simp: dataRun_snoc split: Option.bind_splits)
qed

text \<open>Every run that the builder sets up is well-typed, in whatever order its functions start and finish and whatever
  they return, when the runs of its blocks are.\<close>

lemma builder_run_typed:
  assumes "builder_New L B gvk data d world0 = (h, w0)" and "blocksKeep typedWorld B"
    and "dataRun h E w0 = Some rs"
  shows "typedWorld (rs_world rs) \<and> GetConditionedOutput (outputsOf rs) = []"
proof -
  have "typedWorld world0" by (simp add: typedWorld_def world0_def slice_New_def slice_Get_def)
  then have "typedWorld w0" using start_typed [of world0 L B gvk data d] assms(1) by simp
  moreover obtain root where "h_FnMap h = functions_Init L B root"
    using assms(1) by (auto simp: builder_New_def Let_def)
  ultimately have "typedWorld (rs_world rs)" using dataRun_typed assms(2,3) by blast
  then show ?thesis using unconditioned_GetConditionedOutput by (simp add: typedWorld_def)
qed

end
