(* ===== verification/Block_Run.thy ===== *)
theory Block_Run
  imports Exec_Report Exec_Typing
begin

text \<open>
  The run of a block (run of pkg/exec/fnmap/functions/run\_block.go): a handler and an executor over the graph of the
  block, on the function map, the outputs and the results of the run around it.

  A run of the executor enters by the state it ends in (\<open>runs\<close>), whose log drives the handler as in \<open>Exec_Run\<close>.  Blocks in
  blocks take one level of \<open>blocksTo\<close> each; none is left at level 0.  The run of a block is one step of its
  vertex: the vertices of the graph around it do not move while it goes on.
\<close>

section \<open>The handler and the executor of a block\<close>

definition blockHandler :: "fnMap \<Rightarrow> rtdag \<Rightarrow> execHandler" where
  "blockHandler fnmap d = \<lparr>h_Name = GetRootVertex d, h_Type = ExecBlockType, h_DAG = d, h_FnMap = fnmap\<rparr>"

definition blockRun :: "extlib \<Rightarrow> blockEnv \<Rightarrow> string \<Rightarrow> (rtdag \<Rightarrow> world \<Rightarrow> est) \<Rightarrow> rtdag \<Rightarrow> world \<Rightarrow> world go" where
  "blockRun L B rootVertexName runs d w = do {
     _ \<leftarrow> exec_init d;
     rs \<leftarrow> dataRun (blockHandler (functions_Init L B rootVertexName) d) (runLog (runs d w)) w;
     executor_Run (blockHandler (functions_Init L B rootVertexName) d) (runs d w) rs }"

fun blocksTo :: "nat \<Rightarrow> extlib \<Rightarrow> (string \<Rightarrow> rtdag option) \<Rightarrow> string \<Rightarrow> (rtdag \<Rightarrow> world \<Rightarrow> est) \<Rightarrow> blockEnv" where
  "blocksTo 0 L dags root runs = \<lparr>blockDAG = dags, inner = (\<lambda>d w. None)\<rparr>"
| "blocksTo (Suc n) L dags root runs =
     \<lparr>blockDAG = dags, inner = blockRun L (blocksTo n L dags root runs) root runs\<rparr>"

section \<open>Types\<close>

lemma RecordFinalResult_typed: "typedWorld w \<Longrightarrow> typedWorld (RecordFinalResult h b w)"
  by (auto simp: typedWorld_def RecordFinalResult_def slice_Add_def slice_Get_def)

lemma blockRun_typed:
  assumes "blocksKeep typedWorld B" and "typedWorld w" and run: "blockRun L B root runs d w = Some w'"
  shows "typedWorld w'"
proof -
  let ?h = "blockHandler (functions_Init L B root) d"
  obtain rs b where rs: "dataRun ?h (runLog (runs d w)) w = Some rs" and w': "w' = RecordFinalResult ?h b (rs_world rs)"
    using run by (auto simp: blockRun_def executor_Run_def split: Option.bind_splits)
  have "h_FnMap ?h = functions_Init L B root" by (simp add: blockHandler_def)
  from dataRun_typed [OF this assms(1,2) rs] show ?thesis unfolding w' by (rule RecordFinalResult_typed)
qed

lemma blocksTo_keep: "blocksKeep typedWorld (blocksTo n L dags root runs)"
proof (induction n)
  case (Suc n)
  have "typedWorld w'" if "typedWorld w" "blockRun L (blocksTo n L dags root runs) root runs d w = Some w'" for d w w'
    using Suc.IH that by (rule blockRun_typed)
  then show ?case by (simp add: blocksKeep_def)
qed (simp add: blocksKeep_def)

text \<open>C26: Every run that the builder sets up is well-typed, with blocks nested to any depth, in whatever order the functions of
  its graph and of the graphs of its blocks start and finish and whatever they return: the store of the outputs and the outputs
  of the results hold only output infos, none of them conditioned, although they are kept as values of any type.\<close>

theorem nested_run_is_typed:
  assumes "builder_New L (blocksTo n L dags root runs) gvk data d world0 = (h, w0)" and "dataRun h E w0 = Some rs"
  shows "typedWorld (rs_world rs) \<and> GetConditionedOutput (outputsOf rs) = []"
  by (rule builder_run_typed [OF assms(1) blocksTo_keep assms(2)])

text \<open>A graph with a block whose graph is the chain.\<close>

definition blockC :: VertexContext where
  "blockC = (vertexOf (fnOf BlockType Block0 Input0))\<lparr>vc_BlockDAG := Some ''k''\<rparr>"

definition withBlock :: rtdag where
  "withBlock = Connect ''r'' ''k'' (New\<lparr>vertices := [(''r'', rootVertexC), (''k'', blockC)]\<rparr>)"

definition chainBlocks :: blockEnv where
  "chainBlocks = blocksTo 1 sampleLib [''k'' \<mapsto> chain] ''r'' (\<lambda>d w. chainEnd)"

definition nodeResult :: "execHandler \<Rightarrow> string \<Rightarrow> input \<Rightarrow> out_store \<Rightarrow> ResultInfo" where
  "nodeResult h v i out = (chainResult v i out)\<lparr>ri_Type := h_Type h, ri_ExecName := h_Name h\<rparr>"

lemma node_runs:
  assumes "h_FnMap h = functions_Init sampleLib B root"
  shows "completeRun h v rootVertexC i w = Some (True, addResult (nodeResult h v i output_New) w)"
    "completeRun h v (sliceC k refs) i w = Some (True, addResult (nodeResult h v i (emptySlice k)) w)"
  by (simp_all add: completeRun_def assms rootVertexC_def sliceC_def vertexOf_def fnOf_def Function0_def
      fnmap_defs root_Run_def slice_Run_def exec_def blockItems_def HasBlock_def Block0_def execSingle_def
      NewRootFn_def NewSliceFn_def root_getFinalResult_def slice_getFinalResult_def withWorld_def outputOf_def
      outs.get_addEntry outs.get_new Let_def addResult_def emptySlice_def chainResult_def nodeResult_def)

lemma node_outputs: "curOutputs (addResult (nodeResult h v i out) w) = output_Add (Some out) (curOutputs w)"
  by (simp add: addResult_def nodeResult_def chainResult_def)

abbreviation emptyList :: any where
  "emptyList \<equiv> AOutputInfo (OutputInfo False False None (ASlice []))"

lemma chain_block:
  "\<exists>w'. inner chainBlocks chain w = Some w' \<and> gget (output_Get (curOutputs w')) ''res'' = Some emptyList"
proof -
  have "exec_init chain = Some ()" by (simp add: exec_init_def chain_graph chain_vertex)
  then show ?thesis
    by (simp add: chainBlocks_def blockRun_def blockHandler_def chainEnd_def dataRun_def runStart_def chain_vertex node_runs
        executor_Run_def RecordFinalResult_def node_outputs outs.get_add emptySlice_def outs.get_addEntry outs.get_new)
qed

lemma block_node:
  assumes "h_FnMap h = functions_Init sampleLib chainBlocks root"
  shows "\<exists>w'. completeRun h v blockC i w = Some (True, w') \<and> gget (output_Get (curOutputs w')) ''res'' = Some emptyList"
proof -
  obtain w' where w': "inner chainBlocks chain w = Some w'" "gget (output_Get (curOutputs w')) ''res'' = Some emptyList"
    using chain_block by blast
  have "blockDAG chainBlocks ''k'' = Some chain" by (simp add: chainBlocks_def)
  then show ?thesis using w'
    by (simp add: completeRun_def assms blockC_def vertexOf_def fnOf_def Function0_def fnmap_defs block_Run_def exec_def
        blockItems_def HasBlock_def Block0_def execSingle_def NewBlockFn_def block_run_def runOnce_def
        resolveLocalVars_def block_getFinalResult_def Let_def chain_data)
qed

theorem nested_run_is_typed_witness:
  "\<exists>h w0 rs. builder_New sampleLib (blocksTo 1 sampleLib [''k'' \<mapsto> chain] ''r'' (\<lambda>d w. chainEnd)) None ANil withBlock world0 = (h, w0) \<and>
     dataRun h [Started ''r'', Finished ''r'' True, Started ''k'', Finished ''k'' True] w0 = Some rs \<and>
     gget (output_Get (outputsOf rs)) ''res'' = Some emptyList \<and>
     typedWorld (rs_world rs) \<and> GetConditionedOutput (outputsOf rs) = []"
proof -
  obtain h w0 where b: "builder_New sampleLib chainBlocks None ANil withBlock world0 = (h, w0)" by fastforce
  then have h: "h_DAG h = withBlock" "h_FnMap h = functions_Init sampleLib chainBlocks (GetRootVertex withBlock)"
    by (auto simp: builder_New_def Let_def)
  have v: "GetVertex withBlock ''r'' = Some rootVertexC" "GetVertex withBlock ''k'' = Some blockC"
    by (simp_all add: withBlock_def Connect_def AddUpEdge_def AddDownEdge_def addTo_def New_def GetVertex_def)
  let ?i = "\<lambda>w. gatherInput h blockC (curOutputs w)"
  obtain w1 where w1: "completeRun h ''r'' rootVertexC (gatherInput h rootVertexC (curOutputs w0)) w0 = Some (True, w1)"
    using node_runs(1) [OF h(2)] by blast
  obtain w2 where w2: "completeRun h ''k'' blockC (?i w1) w1 = Some (True, w2)"
    and out: "gget (output_Get (curOutputs w2)) ''res'' = Some emptyList"
    using block_node [OF h(2)] by blast
  obtain rs where run: "dataRun h [Started ''r'', Finished ''r'' True, Started ''k'', Finished ''k'' True] w0 = Some rs"
    and rs: "rs_world rs = w2"
    using w1 w2 by (simp add: dataRun_def runStart_def h(1) v)
  from nested_run_is_typed [OF b [unfolded chainBlocks_def] run] b [unfolded chainBlocks_def] run out rs
  show ?thesis by blast
qed

section \<open>Images in blocks\<close>

text \<open>The object an image runs as.\<close>

abbreviation imageObject :: "string \<Rightarrow> VertexContext \<Rightarrow> imageFn" where
  "imageObject root vc \<equiv> \<lparr>img_rootVertexName = root, img_fnconfig = vc_Function vc, img_outputs = vc_Outputs vc,
     img_gvkToVarName = vc_GVKToVarName vc, img_output = output_New, img_numItems = 0, img_errs = []\<rparr>"

lemma gather_keys:
  "set (gkeys (input_Get (fold (\<lambda>ref i. input_AddEntry ref (GetData out ref) i) refs i))) = set refs \<union> set (gkeys (input_Get i))"
  "gwf (input_Get i) \<Longrightarrow> gwf (input_Get (fold (\<lambda>ref i. input_AddEntry ref (GetData out ref) i) refs i))"
  by (induction refs arbitrary: i) (auto simp: ins.get_addEntry simp del: set_map)

lemma image_gather:
  assumes "fn_Type (vc_Function vc) = ContainerType \<or> fn_Type (vc_Function vc) = WasmType"
  shows "set (gkeys (input_Get (gatherInput h vc out))) = insert (GetRootVertex (h_DAG h)) (set (vc_References vc))"
    and "gwf (input_Get (gatherInput h vc out))"
  using assms by (auto simp: gatherInput_def Let_def gather_keys ins.get_addEntry ins.get_new simp del: set_map)

lemma gather_other:
  "k \<notin> set refs \<Longrightarrow> gget (input_Get (fold (\<lambda>ref i. input_AddEntry ref (GetData out ref) i) refs i)) k = gget (input_Get i) k"
  by (induction refs arbitrary: i) (auto simp: ins.get_addEntry)

text \<open>C27: An image with a variable, in a graph whose root has another name than the root of a block, that does not refer to the
  root of the main graph: as a vertex of the main graph it gets what the outputs have for that root, which is at the start of
  the run the resource the run is for; as a vertex of the block it does not get it: the handler of the block adds
  the root of its own graph, and the image keeps that of the main one.\<close>

theorem block_image_without_root:
  assumes image: "fn_Type (vc_Function vc) = ContainerType \<or> fn_Type (vc_Function vc) = WasmType"
    and "builder_New L B gvk data d w = (h, w0)" and "fn_Vars (vc_Function vc) \<noteq> []"
    and "GetRootVertex b \<noteq> GetRootVertex d" and "GetRootVertex d \<notin> set (vc_References vc)"
  defines "obj \<equiv> imageObject (fm_RootVertexName (h_FnMap h)) vc"
  shows "gget (input_Get (image_filterInput obj (gatherInput h vc out))) (GetRootVertex d) = Some (GetData out (GetRootVertex d)) \<and>
    GetData (curOutputs w0) (GetRootVertex d) = data \<and>
    gget (input_Get (image_filterInput obj (gatherInput (blockHandler (h_FnMap h) b) vc out))) (GetRootVertex d) = None"
proof -
  have h: "h_DAG h = d" "fm_RootVertexName (h_FnMap h) = GetRootVertex d"
    using assms(2) by (auto simp: builder_New_def Let_def functions_Init_def Register_def fnmap_New_def)
  have b: "h_DAG (blockHandler (h_FnMap h) b) = b" by (simp add: blockHandler_def)
  note keys = image_gather [OF image]
  have "gget (input_Get (gatherInput h vc out)) (GetRootVertex d) = Some (GetData out (GetRootVertex d))"
    using image assms(5) by (auto simp: gatherInput_def Let_def gather_other h(1) ins.get_addEntry ins.get_new)
  then have "(GetRootVertex d, GetData out (GetRootVertex d)) \<in> set (input_Get (gatherInput h vc out))"
    by (rule map_of_SomeD)
  then have "(GetRootVertex d, GetData out (GetRootVertex d)) \<in> set (input_Get (image_filterInput obj (gatherInput h vc out)))"
    unfolding obj_def image_input_entries [OF keys(2)] using assms(3) by (simp add: h(2))
  moreover have "gwf (input_Get (image_filterInput obj (gatherInput h vc out)))"
    unfolding image_input_entries [OF keys(2)] by (rule distinct_map_filter [OF keys(2)])
  moreover have "GetRootVertex d \<notin> set (gkeys (input_Get (gatherInput (blockHandler (h_FnMap h) b) vc out)))"
    using assms(4,5) by (simp add: keys(1) b del: set_map)
  then have "GetRootVertex d \<notin> set (gkeys (input_Get (image_filterInput obj (gatherInput (blockHandler (h_FnMap h) b) vc out))))"
    unfolding image_input_entries [OF keys(2)] by force
  moreover have "GetData (curOutputs w0) (GetRootVertex d) = data"
    using assms(2) by (auto simp: builder_New_def Let_def GetData_def outs.getValue outs.get_addEntry)
  ultimately show ?thesis by (simp add: gget_None_iff del: set_map)
qed

definition imageC :: VertexContext where
  "imageC = (vertexOf (fnOf ContainerType Block0 Input0\<lparr>fn_Vars := [(''y'', ''$b'')]\<rparr>))\<lparr>vc_References := [''b'']\<rparr>"

definition imageBlock :: rtdag where
  "imageBlock = Connect ''b'' ''i'' (New\<lparr>vertices := [(''b'', rootVertexC), (''i'', imageC)]\<rparr>)"

theorem block_image_without_root_witness:
  "\<exists>h w0. builder_New sampleLib chainBlocks None (AStr ''own'') chain world0 = (h, w0) \<and>
     gget (input_Get (image_filterInput (imageObject ''r'' imageC) (gatherInput h imageC (curOutputs w0)))) ''r'' = Some (AStr ''own'') \<and>
     gget (input_Get (image_filterInput (imageObject ''r'' imageC)
       (gatherInput (blockHandler (h_FnMap h) imageBlock) imageC (curOutputs w0)))) ''r'' = None"
proof -
  obtain h w0 where b: "builder_New sampleLib chainBlocks None (AStr ''own'') chain world0 = (h, w0)" by fastforce
  have r1: "GetRootVertex chain = ''r''"
    by (simp add: GetRootVertex_def chain_graph rootVertexC_def sliceC_def vertexOf_def)
  have r2: "GetRootVertex imageBlock = ''b''"
    by (simp add: GetRootVertex_def GetVertices_def imageBlock_def rootVertexC_def Connect_def AddUpEdge_def AddDownEdge_def
        addTo_def New_def)
  have f: "fm_RootVertexName (h_FnMap h) = ''r''"
    using b by (auto simp: builder_New_def Let_def functions_Init_def Register_def fnmap_New_def r1)
  have i: "fn_Type (vc_Function imageC) = ContainerType \<or> fn_Type (vc_Function imageC) = WasmType"
    "fn_Vars (vc_Function imageC) \<noteq> []" "''r'' \<notin> set (vc_References imageC)"
    by (simp_all add: imageC_def vertexOf_def fnOf_def)
  from block_image_without_root [OF i(1) b i(2), of imageBlock "curOutputs w0", unfolded r1 r2 f] b i(3)
  show ?thesis by auto
qed

end
