(* ===== verification/Function_Options.thy ===== *)
theory Function_Options
  imports Exec_Handler
begin

text \<open>
  How a function object is given what it runs with (pkg/exec/fnmap/function.go, the setters of the nine types in
  functions/run\_*.go, and the switch of \<open>fnMap.Run\<close>).  The objects are kept as the fields that a setter can write;
  what these point to is a handle, nil is \<open>None\<close>.
\<close>

type_synonym handle = "nat option"

text \<open>The fields a setter writes, by type.\<close>

datatype fnObject =
  RootObj
| BlockObj (obj_curOutputs: handle) (obj_curResults: handle) (obj_fnMap: handle)
| SliceObj
| MapObj
| QueryObj (obj_client: handle)
| GTObj
| JQObj
| ImageObj (obj_name: string) (obj_namespace: string) (obj_rootVertexName: string) (obj_serviceClients: handle)

record fnmapConfig =
  fm_Name :: string
  fm_Namespace :: string
  fm_Root :: string
  fm_Client :: handle
  fm_Output :: handle
  fm_Result :: handle
  fm_ServiceClients :: handle

section \<open>The setters\<close>

fun setOutput :: "handle \<Rightarrow> fnObject \<Rightarrow> fnObject" where
  "setOutput out (BlockObj _ res m) = BlockObj out res m"
| "setOutput out f = f"

fun setResult :: "handle \<Rightarrow> fnObject \<Rightarrow> fnObject" where
  "setResult res (BlockObj out _ m) = BlockObj out res m"
| "setResult res f = f"

fun setNameAndNamespace :: "string \<Rightarrow> string \<Rightarrow> fnObject \<Rightarrow> fnObject" where
  "setNameAndNamespace n ns (ImageObj _ _ root sc) = ImageObj n ns root sc"
| "setNameAndNamespace n ns f = f"

fun setClient :: "handle \<Rightarrow> fnObject \<Rightarrow> fnObject" where
  "setClient c (QueryObj _) = QueryObj c"
| "setClient c f = f"

fun setFnMap :: "handle \<Rightarrow> fnObject \<Rightarrow> fnObject" where
  "setFnMap m (BlockObj out res _) = BlockObj out res m"
| "setFnMap m f = f"

fun setRootVertexName :: "string \<Rightarrow> fnObject \<Rightarrow> fnObject" where
  "setRootVertexName n (ImageObj nm ns _ sc) = ImageObj nm ns n sc"
| "setRootVertexName n f = f"

fun setServiceClients :: "handle \<Rightarrow> fnObject \<Rightarrow> fnObject" where
  "setServiceClients sc (ImageObj nm ns root _) = ImageObj nm ns root sc"
| "setServiceClients sc f = f"

section \<open>Options\<close>

datatype FunctionOption =
  WithOutput handle
| WithResult handle
| WithNameAndNamespace string string
| WithClient handle
| WithFnMap handle
| WithRootVertexName string
| WithServiceClients handle

fun applyOption :: "FunctionOption \<Rightarrow> fnObject \<Rightarrow> fnObject" where
  "applyOption (WithOutput out) r = setOutput out r"
| "applyOption (WithResult res) r = setResult res r"
| "applyOption (WithNameAndNamespace n ns) r = setNameAndNamespace n ns r"
| "applyOption (WithClient c) r = setClient c r"
| "applyOption (WithFnMap m) r = setFnMap m r"
| "applyOption (WithRootVertexName n) r = setRootVertexName n r"
| "applyOption (WithServiceClients sc) r = setServiceClients sc r"

definition fn_Init :: "FunctionOption list \<Rightarrow> fnObject \<Rightarrow> fnObject" where
  "fn_Init opts r = fold applyOption opts r"

section \<open>What a run of the function map does\<close>

text \<open>The initializers registered by \<open>functions.Init\<close>.\<close>

fun initializer :: "FunctionType \<Rightarrow> fnObject option" where
  "initializer RootType = Some RootObj"
| "initializer BlockType = Some (BlockObj None None None)"
| "initializer SliceType = Some SliceObj"
| "initializer MapType = Some MapObj"
| "initializer QueryType = Some (QueryObj None)"
| "initializer GoTemplateType = Some GTObj"
| "initializer JQType = Some JQObj"
| "initializer WasmType = Some (ImageObj '''' '''' '''' None)"
| "initializer ContainerType = Some (ImageObj '''' '''' '''' None)"
| "initializer _ = None"

text \<open>The switch of \<open>fnMap.Run\<close>; \<open>self\<close> is the function map.\<close>

definition initRuntime :: "FunctionType \<Rightarrow> fnmapConfig \<Rightarrow> handle \<Rightarrow> fnObject \<Rightarrow> fnObject" where
  "initRuntime t c self fn =
     (case t of
        BlockType \<Rightarrow> setFnMap self (setResult (fm_Result c) (setOutput (fm_Output c) fn))
      | QueryType \<Rightarrow> setClient (fm_Client c) fn
      | ContainerType \<Rightarrow> setServiceClients (fm_ServiceClients c) (setRootVertexName (fm_Root c)
          (setNameAndNamespace (fm_Name c) (fm_Namespace c) fn))
      | WasmType \<Rightarrow> setServiceClients (fm_ServiceClients c) (setRootVertexName (fm_Root c)
          (setNameAndNamespace (fm_Name c) (fm_Namespace c) fn))
      | _ \<Rightarrow> fn)"

definition allOptions :: "fnmapConfig \<Rightarrow> handle \<Rightarrow> FunctionOption set" where
  "allOptions c self = {WithOutput (fm_Output c), WithResult (fm_Result c), WithNameAndNamespace (fm_Name c) (fm_Namespace c),
     WithClient (fm_Client c), WithFnMap self, WithRootVertexName (fm_Root c), WithServiceClients (fm_ServiceClients c)}"

section \<open>Nothing a function keeps is left out\<close>

text \<open>What an object looks like once every option has been applied; the option of one setter twice is the last one.\<close>

fun configured :: "fnmapConfig \<Rightarrow> handle \<Rightarrow> fnObject \<Rightarrow> fnObject" where
  "configured c self (BlockObj _ _ _) = BlockObj (fm_Output c) (fm_Result c) self"
| "configured c self (QueryObj _) = QueryObj (fm_Client c)"
| "configured c self (ImageObj _ _ _ _) = ImageObj (fm_Name c) (fm_Namespace c) (fm_Root c) (fm_ServiceClients c)"
| "configured c self f = f"

text \<open>Options of one configuration: each is idempotent and they commute, so only which of them occur matters.\<close>

lemma applyOption_commute:
  "x \<in> allOptions c self \<Longrightarrow> y \<in> allOptions c self \<Longrightarrow> applyOption x (applyOption y r) = applyOption y (applyOption x r)"
  by (cases r) (auto simp: allOptions_def)

lemma applyOption_twice: "applyOption x (applyOption x r) = applyOption x r"
  by (cases x; cases r) auto

lemma fn_Init_absorb:
  "x \<in> set opts \<Longrightarrow> set opts \<subseteq> allOptions c self \<Longrightarrow> fn_Init opts (applyOption x r) = fn_Init opts r"
proof (induction opts arbitrary: r)
  case (Cons y opts)
  then show ?case
  proof (cases "x = y")
    case False
    then have "fn_Init opts (applyOption x (applyOption y r)) = fn_Init opts (applyOption y r)"
      using Cons by (simp add: fn_Init_def)
    moreover have "applyOption y (applyOption x r) = applyOption x (applyOption y r)"
      using Cons.prems by (intro applyOption_commute [of _ c self]) auto
    ultimately show ?thesis by (simp add: fn_Init_def)
  qed (simp add: fn_Init_def applyOption_twice)
qed simp

lemma fn_Init_configured:
  "set opts \<subseteq> allOptions c self \<Longrightarrow> fn_Init opts (configured c self r) = configured c self r"
proof (induction opts)
  case (Cons x opts)
  have "applyOption x (configured c self r) = configured c self r"
    using Cons.prems by (cases r) (auto simp: allOptions_def)
  then show ?case using Cons by (simp add: fn_Init_def)
qed (simp add: fn_Init_def)

lemma initRuntime_configured:
  "initializer t = Some r \<Longrightarrow> initRuntime t c self r = configured c self r"
  by (cases t) (auto simp: initRuntime_def)

text \<open>C30: \<open>fnMap.Run\<close> sets up an object of every registered type by the setters of its type alone; that is what \<open>Init\<close>
  makes of it with the options of the whole configuration, in any order and with any repetition: no type keeps a value that the
  switch does not give it.\<close>

theorem run_configures_fully:
  assumes "initializer t = Some r" and "set opts = allOptions c self"
  shows "initRuntime t c self r = fn_Init opts r"
proof -
  let ?opts = "[WithOutput (fm_Output c), WithResult (fm_Result c), WithNameAndNamespace (fm_Name c) (fm_Namespace c),
    WithClient (fm_Client c), WithFnMap self, WithRootVertexName (fm_Root c), WithServiceClients (fm_ServiceClients c)]"
  have "fn_Init opts (fn_Init xs r) = fn_Init opts r" if "set xs \<subseteq> set opts" for xs r
    using that
    by (induction xs arbitrary: r) (simp_all add: fn_Init_def [of "_ # _"] fn_Init_absorb [of _ opts c self] assms(2)
        flip: fn_Init_def, simp add: fn_Init_def)
  then have "fn_Init opts (fn_Init ?opts r) = fn_Init opts r" by (simp add: assms(2) allOptions_def)
  moreover have "fn_Init ?opts r = configured c self r" by (cases r) (simp_all add: fn_Init_def)
  ultimately show ?thesis
    using initRuntime_configured [OF assms(1)] fn_Init_configured [of opts c self r] assms(2) by simp
qed

definition sampleConfig :: fnmapConfig where
  "sampleConfig = \<lparr>fm_Name = ''vpc'', fm_Namespace = ''default'', fm_Root = ''r'', fm_Client = Some 1, fm_Output = Some 2,
     fm_Result = Some 3, fm_ServiceClients = Some 4\<rparr>"

theorem run_configures_fully_witness:
  "initRuntime ContainerType sampleConfig (Some 5) (ImageObj '''' '''' '''' None) = ImageObj ''vpc'' ''default'' ''r'' (Some 4)"
proof -
  let ?opts = "[WithServiceClients (Some 4), WithClient (Some 1), WithNameAndNamespace ''vpc'' ''default'', WithOutput (Some 2),
    WithResult (Some 3), WithFnMap (Some 5), WithRootVertexName ''r'']"
  have "set ?opts = allOptions sampleConfig (Some 5)" by (auto simp: allOptions_def sampleConfig_def)
  from run_configures_fully [OF _ this, of ContainerType] show ?thesis by (simp add: fn_Init_def)
qed

text \<open>The types with an initializer are those of the function map, and the name of the root vertex that the map hands to an
  initializer is the one its object keeps.\<close>

lemma registered_types:
  "gget (fm_funcs (functions_Init L B root)) t \<noteq> None \<longleftrightarrow> initializer t \<noteq> None"
  by (cases t) (simp_all add: functions_Init_def Register_def fnmap_New_def)

end
