(* ===== verification/Spec2Isabelle.thy ===== *)
theory Spec2Isabelle
  imports Dag_Properties Validator_Correct Parser_Theorems Executor_Liveness Startup_Theorems Fnruntime_Theorems Runnable_Group_Theorems
    Recorder_Theorems Block_Run Function_Options
begin

text \<open>
  lcnc-runtime is a Kubernetes controller whose behaviour is a configuration file: for a main resource, and for resources it
  owns or watches, pipelines of functions (jq, templates, queries, containers, blocks of functions) that compute the
  resources to apply.  At its start the program validates the configuration and turns every pipeline into a graph of
  functions; at run time the reconciler runs the graph of a resource with a concurrent executor and applies what comes out.

  \<^bold>\<open>Parts, and how they interact.\<close>  \<open>main\<close> makes the manager, reads the configuration, validates and parses it, looks its kinds
  up, builds the controller with its watches, adds it to the manager and starts it.  The work items of the controller go to
  the reconciler, which takes the graph of the main resource and runs it: the builder of a run makes the
  function map and the handler, the executor calls the handler for every vertex, the handler gathers the inputs from the
  output store, lets the function map make and run a function object, and puts its output and result into the stores, from
  which the next vertices read and the reconciler applies.

  \<^bold>\<open>Theories and code\<close> (paths below src/pkg unless given).

  \<^item> \<open>Go_Prelude\<close>: panics and fuel (\<open>'a go\<close>), Go maps as lists of pairs in insertion order, ranges in random order, shared lemmas.
  \<^item> \<open>Config\<close>: api/controllerconfig/v1 and meta/gvk.go.  \<open>Reference\<close>: ccsyntax/reference.go.  \<open>Walker\<close>: the walk of
    parser_walker_config.go and parser_result.go, with the locale \<open>phase\<close>: a walk is a fold of its callbacks over the events of the configuration.
    \<open>Validator\<close>, \<open>Validator_Correct\<close>: parser_validator_syntax.go against the predicate \<open>config_valid\<close>.
  \<^item> \<open>Dag\<close>: ccutils/dag.  \<open>Dag_Reduction\<close> holds the contract of a walk (locales \<open>walk_contract\<close>, \<open>exact_walk\<close>, interpreted on the two
    walks of the code), \<open>Dag_Properties\<close> what follows for the reduction.
  \<^item> \<open>Stores\<close>: ccutils/kv, ccutils/slice, exec/input, exec/output, exec/service, exec/result, with the locale \<open>kv_store\<close> interpreted on each.
    \<open>Exec_Context\<close>: exec/rtdag, ccsyntax/vardag, global_variable.go, config_execution_context.go.
  \<^item> \<open>Parser\<close>: the phases of ccsyntax/parser.go (init, populate, resolve, connect, reduction, external resources).
    \<open>Parser_Graphs\<close>, \<open>Parser_Links\<close>, \<open>Parser_Properties\<close>, \<open>Parser_Theorems\<close>: which vertices and edges come out.
  \<^item> \<open>Executor\<close>: ccutils/executor as a step relation over goroutines.  \<open>Executor_Properties\<close> and \<open>Executor_Theorems\<close>: what every interleaving keeps;
    \<open>Executor_Progress\<close> and \<open>Executor_Liveness\<close>: that runs end, and when they complete.
  \<^item> \<open>Functions\<close>, \<open>Function_Types\<close>, \<open>Function_Options\<close>, \<open>Exec_Handler\<close>: exec/fnmap with its functions, exec/exechandler, exec/builder;
    the locale \<open>fn_object\<close> of \<open>Function_Properties\<close> is the contract between \<open>exec\<close> of fn.go and a type, interpreted on five of
    them.  \<open>Function_Theorems\<close>: what the functions compute.
  \<^item> \<open>Fnruntime\<close>, \<open>Fnruntime_Theorems\<close>: exec/fnruntime and exec/fnlib.
  \<^item> \<open>Exec_Run\<close>, \<open>Exec_Run_Properties\<close>, \<open>Exec_Run_Theorems\<close>, \<open>Exec_Typing\<close>, \<open>Exec_Report\<close>, \<open>Block_Run\<close>: the log of an executor run drives the handler; where
    the values come from, that the result does not depend on the interleaving, types, the report of exec/result, and the runs of blocks.
  \<^item> \<open>Meta\<close>, \<open>Controllerutil\<close>, \<open>Reconciler\<close>, \<open>Internal_Controller\<close>: meta, controller/controllerutil, applicator, controllers,
    controller, internal/controller, builder; their properties in \<open>Controllerutil_Properties\<close> and \<open>Controller_Theorems\<close>.
  \<^item> \<open>Runnable_Group\<close> (its goroutines as a step relation), \<open>Manager\<close>: manager; properties in \<open>Runnable_Group_Properties\<close>,
    \<open>Runnable_Group_Theorems\<close>, \<open>Manager_Theorems\<close>.  \<open>Recorder\<close>, \<open>Recorder_Theorems\<close>: internal/recorder and event.
  \<^item> \<open>Startup\<close>, \<open>Startup_Theorems\<close>: main.go.  This theory: from a configuration to the runs of its graphs.

  \<^bold>\<open>How the code is modelled.\<close>  Structs are records, enumerations datatypes, an \<open>error\<close> is an option or the left of a sum.  A panic
  (nil dereference, index out of range, closed channel) is \<open>None\<close> or, in the executor and the groups, a flag of the
  state.  Where the order of a range over a Go map can be seen, it is a choice: of the parser and the reduction (their orders), of the
  executor (\<open>choice\<close>), of a function over its local variables and of an image over its input (\<open>ranged\<close> with \<open>varOrder\<close> and
  \<open>inputOrder\<close> of the library), and the theorems hold for every order.  The maps of a configuration are visited in the order of
  their lists, which is any order since the theorems are about any configuration; the order of the watches and the ports of the
  services follow it.  The other ranges (outputs of a vertex, stores, resource contexts, the variables given to
  gojq, whose values come in the same order) take the entries as they were put in: their order can change the order of a
  list (reports, objects to apply) and which error comes first.  Graphs and block
  graphs that are shared by pointer live in the execution context under the name \<open>dagptr\<close>.  Goroutines are threads with a program
  point; a step is what one of them does, or two that meet at an unbuffered channel, up to the next point where it can be
  stopped.  The fields of the state are those of the struct with the same name.

  \<^bold>\<open>What the lemmas show.\<close>  Parser: \<open>Parse\<close> returns the graphs that the configuration asks for, well-formed
  and reduced; it returns when they are acyclic, and not on a cycle that a vertex reaches.  Reduction: the vertices, what the root reaches, and which
  vertices have a predecessor are kept, although an edge no path replaces may be cut.  Executor: a vertex runs once,
  after its dependencies, nothing panics, a run nobody cancels takes a bounded number of steps besides the five-second polls of
  its waiting goroutines, and completes when the graph is a tree; with more than one dependency it may deadlock, and then
  polls for ever.  Runs: the values a function reads, their types, the report, and determinism for functions on which the order
  of ranges has no effect (with two local variables that read each other it has).  Functions: what
  each type computes.  Reconciler and controller: what a forgotten work item means, watches, finalizers, owner references.
  Manager and recorder: nothing runs after a completed stop of a group, whose only panic is a late \<open>Add\<close>; a
  second \<open>Start\<close> of the manager fails or, ready, crashes the process; no event is lost.
  Startup: the manager is started only for a valid configuration, and for every good one.

  \<^bold>\<open>Bounds and fuel.\<close>  Only \<open>trwalk\<close> of the reduction needs fuel, since it recurses without a set of visited vertices:
  \<open>None\<close> is a stack that overflows.  On a well-formed acyclic graph fuel above the number of vertices that have a predecessor
  is enough, for the reduction and for \<open>Parse\<close> (\<open>Dag_Properties\<close>, \<open>Parser_Theorems\<close>); on a reachable cycle no fuel is.  Runs of the executor are
  not bounded by fuel: the measure \<open>work\<close> of a state bounds the number of steps of every run from it, polls aside.

  \<^bold>\<open>Parameters.\<close>  \<open>k8slib\<close> (the parser of apiVersion), \<open>extlib\<close> (gojq, text/template, the cluster client, service clients), \<open>rtlib\<close> (what a command
  answers, the environment; the commands a process has run are a part of the model), \<open>objlib\<close> (object conversions), \<open>environ\<close>, \<open>startEnv\<close>, \<open>newEnv\<close>, \<open>mainEnv\<close> (what starting up calls).  The run of
  the graph of a block and the run the reconciler starts are parameters too, so that their theories need
  no executor; the theorems name what they assume of them, and \<open>Block_Run\<close> puts the executor in for the blocks.  The run of a block is one
  step of its vertex: what other vertices finish meanwhile is before or after it.

  \<^bold>\<open>Not modelled.\<close>  Generated code (zz_generated.deepcopy.go) and scheme registration: no logic of its own.  Logging, printing
  of graphs and stores, durations, metrics, the profiler and the flags: output only.  The HTTP server of the probes and its mux, the
  cluster of controller-runtime with the manager's accessors, the REST mapper of meta/gvr.go: calls to libraries.
  pkg/function and pkg/api/fnresult: interfaces and plain types.  Locks are left out where an operation holds one throughout, so that
  operations are sequences; they are part of the state where the code holds them across operations (controller, groups, recorder).
  Timeouts of commands are left out.  YAML nulls in the maps of resources, services and outputs and in the list of
  pipelines, which the decoder makes nil pointers that the walk dereferences, are not modelled: only a null among the vars
  or the tasks of a pipeline is.  A record of the validator keeps a copy of its origin, where the code keeps the pointer.
\<close>

section \<open>From a configuration to a run of its graphs\<close>

text \<open>The vertices and edges a configuration asks for, each with the graph it belongs to.\<close>

definition askedVertices :: "k8slib \<Rightarrow> ControllerConfig \<Rightarrow> (dagptr \<times> string) set" where
  "askedVertices K cfg = (\<Union>e \<in> set (configEvents (\<lambda>r. fst (GetGVK K r)) cfg). eventVertices (\<lambda>r. fst (GetGVK K r)) e)"

definition askedLinks :: "k8slib \<Rightarrow> GlobalVariable \<Rightarrow> ControllerConfig \<Rightarrow> (dagptr \<times> string \<times> string) set" where
  "askedLinks K gvar cfg = (\<Union>e \<in> set (configEvents (\<lambda>r. fst (GetGVK K r)) cfg). eventLinks gvar e)"

lemma VertexExists_keys: "VertexExists d v \<longleftrightarrow> v \<in> fst ` set (vertices d)"
  by (simp add: VertexExists_def gget_None_iff)

lemma parsed_asked:
  assumes "Parse K ord fuel cfg = Some (Some ctx, rs)" and "all_orders_ok ord" and "build K cfg = Some (gvar, ctx0)"
    and "load p ctx = Some d"
  shows "dag_ok d" "VertexExists d v \<longleftrightarrow> (p, v) \<in> askedVertices K cfg"
    "(u, v) \<in> edges d \<Longrightarrow> (p, u, v) \<in> askedLinks K gvar cfg"
    "(\<exists>u. (u, v) \<in> edges d) \<longleftrightarrow> (\<exists>u. (p, u, v) \<in> askedLinks K gvar cfg)"
proof -
  note g = parsed_graphs [OF assms(1-3), folded askedVertices_def askedLinks_def]
  have l: "(p, u, v) \<in> links ctx \<longleftrightarrow> (u, v) \<in> edges d" for u v
    using assms(4) by (simp add: links_def)
  show "dag_ok d" using g assms(4) by (simp add: graphs_ok_def)
  have "v \<in> vnames d \<longleftrightarrow> (p, v) \<in> verts ctx" using assms(4) by (simp add: verts_def)
  then show "VertexExists d v \<longleftrightarrow> (p, v) \<in> askedVertices K cfg"
    using g by (simp add: vnames_def VertexExists_keys)
  show "(u, v) \<in> edges d \<Longrightarrow> (p, u, v) \<in> askedLinks K gvar cfg" using g l by blast
  show "(\<exists>u. (u, v) \<in> edges d) \<longleftrightarrow> (\<exists>u. (p, u, v) \<in> askedLinks K gvar cfg)" using g unfolding l [symmetric] by blast
qed

lemma exec_init_iff:
  assumes "dag_ok d"
  shows "exec_init d = Some () \<longleftrightarrow> (\<forall>(u, v) \<in> edges d. VertexExists d v \<longrightarrow> VertexExists d u)"
proof -
  have up: "set (GetUpVertexes d v) = {u. (u, v) \<in> edges d}" for v
    using assms by (auto simp: dag_ok_def upedges_def)
  have "exec_init d = Some () \<longleftrightarrow> (\<forall>v \<in> fst ` set (vertices d). \<forall>u \<in> set (GetUpVertexes d v). VertexExists d u)"
    by (auto simp: exec_init_def list_all_iff GetVertices_def split_beta)
  also have "\<dots> \<longleftrightarrow> (\<forall>(u, v) \<in> edges d. VertexExists d v \<longrightarrow> VertexExists d u)"
    unfolding up by (auto simp: VertexExists_keys)
  finally show ?thesis .
qed

section \<open>A resource with some tasks\<close>

abbreviation deletePtr :: dagptr where
  "deletePtr \<equiv> DagPtr FOWFor (kind ''A'') OperationDelete None"

lemmas config_eval = oneFor_def configEvents_def objectEvents_def refEvents_def GetPipeline_def pipelineOf_def object_def
  pipelineEvents_def entryEvents_def task_def elementEvents.simps elementOrigin_def originFow_def GetServices_def
  functionLinks_def functionStrings_def inputStrings_def Input0_def Function0_def Block0_def HasBlock_def linkTo_def ptrOf_def
  GetGVK_def sampleK_def kind_def insert_commute Let_def

definition ghost :: ControllerConfig where
  "ghost = oneFor [(''y'', task [''ghost''])]"

lemma chainCfg_asked:
  "askedVertices sampleK chainCfg = {(applyPtr, ''r''), (deletePtr, ''r''), (applyPtr, ''x''), (applyPtr, ''y'')}"
  "askedLinks sampleK gvar chainCfg = {(applyPtr, ''x'', ''y''), (applyPtr, ''r'', ''y'')}"
  unfolding askedLinks_def chainCfg_links by (simp_all add: askedVertices_def chainCfg_def config_eval)

lemma ghost_asked:
  "askedVertices sampleK ghost = {(applyPtr, ''r''), (deletePtr, ''r''), (applyPtr, ''y'')}"
  "askedLinks sampleK gvar ghost = {(applyPtr, ''ghost'', ''y'')}"
  by (simp_all add: askedVertices_def askedLinks_def ghost_def config_eval)

text \<open>The parsed graph of the chain, ready to run.\<close>

lemma chainCfg_graph:
  "\<exists>ctx d s. Parse sampleK (\<lambda>_. id_orders) 9 chainCfg = Some (Some ctx, []) \<and> load applyPtr ctx = Some d \<and>
    execute_from d ''r'' [] [''r'', ''x'', ''y''] = Some s"
proof -
  have "map_option (map_prod (map_option (\<lambda>ctx. case load applyPtr ctx of
      Some d \<Rightarrow> (case execute_from d ''r'' [] [''r'', ''x'', ''y''] of Some s \<Rightarrow> True | None \<Rightarrow> False) | None \<Rightarrow> False)) id)
      (Parse sampleK (\<lambda>_. id_orders) 9 chainCfg) = Some (Some True, [])"
    by code_simp
  then show ?thesis by (auto split: option.split_asm simp del: load.simps)
qed

section \<open>Dependencies and panics\<close>

text \<open>C4: when every dependency the configuration asks for joins two vertices of the same graph, no run of a graph of
  the parsed configuration panics: neither when it is set up, nor in any state it can reach.\<close>

theorem known_dependencies_run_safely:
  assumes "Parse K ord fuel cfg = Some (Some ctx, rs)" and "all_orders_ok ord" and "build K cfg = Some (gvar, ctx0)"
    and "\<forall>(p, u, v) \<in> askedLinks K gvar cfg. (p, u) \<in> askedVertices K cfg \<longleftrightarrow> (p, v) \<in> askedVertices K cfg"
    and "load p ctx = Some d"
  shows "exec_init d = Some () \<and> (reachable d root s \<longrightarrow> \<not> panicked s)"
proof -
  note g = parsed_asked [OF assms(1-3,5)]
  have both: "VertexExists d u \<longleftrightarrow> VertexExists d v" if "(u, v) \<in> edges d" for u v
    using assms(4) g(3) [OF that] g(2) by fastforce
  then have "exec_init d = Some ()" using exec_init_iff [OF g(1)] by blast
  moreover have "\<not> panicked s" if "reachable d root s"
    using no_panic [OF g(1) _ that] both by blast
  ultimately show ?thesis by blast
qed

theorem known_dependencies_run_safely_witness:
  "\<exists>ctx d s. Parse sampleK (\<lambda>_. id_orders) 9 chainCfg = Some (Some ctx, []) \<and> load applyPtr ctx = Some d \<and>
    exec_init d = Some () \<and> reachable d ''r'' s \<and> \<not> panicked s"
proof -
  obtain ctx d s where c: "Parse sampleK (\<lambda>_. id_orders) 9 chainCfg = Some (Some ctx, [])" "load applyPtr ctx = Some d"
      and e: "execute_from d ''r'' [] [''r'', ''x'', ''y''] = Some s"
    using chainCfg_graph by blast
  obtain gvar ctx0 where b: "build sampleK chainCfg = Some (gvar, ctx0)" using chainCfg_build by blast
  show ?thesis
    using known_dependencies_run_safely [OF c(1) all_orders_ok_id b _ c(2), of "''r''" s] c reachable.begin_run [OF e]
    by (auto simp: chainCfg_asked)
qed

text \<open>C35: when Parse accepts a configuration with a task that has dependencies and all of them name no vertex of its graph,
  every run of the graph, and with it the reconciliation, panics before it starts.\<close>

theorem unknown_dependency_panics:
  assumes "Parse K ord fuel cfg = Some (Some ctx, rs)" and "all_orders_ok ord" and "build K cfg = Some (gvar, ctx0)"
    and "(p, v) \<in> askedVertices K cfg" and "(p, u, v) \<in> askedLinks K gvar cfg"
    and "\<forall>u. (p, u, v) \<in> askedLinks K gvar cfg \<longrightarrow> (p, u) \<notin> askedVertices K cfg"
  shows "\<exists>d. load p ctx = Some d \<and>
    (\<forall>root bls L innerRun run sc g x. runDAG L innerRun run sc \<lparr>DAG = d, RootVertexName = root, BlockDAGs = bls\<rparr> g x = None)"
proof -
  note all = parsed_graphs [OF assms(1-3), folded askedVertices_def askedLinks_def]
  have "(p, v) \<in> verts ctx" using all assms(4) by simp
  then obtain d where d: "load p ctx = Some d" by (auto simp: verts_def)
  note g = parsed_asked [OF assms(1-3) d]
  obtain u' where u': "(u', v) \<in> edges d" using g(4) assms(5) by blast
  then have "\<not> VertexExists d u'" using g(2,3) assms(6) by blast
  moreover have "VertexExists d v" using g(2) assms(4) by blast
  ultimately have "exec_init d \<noteq> Some ()" using exec_init_iff [OF g(1)] u' by blast
  then have "exec_init d = None" by (cases "exec_init d") simp_all
  then show ?thesis using d by (auto simp: runDAG_def builder_New_def Let_def)
qed

theorem unknown_dependency_panics_witness:
  "\<exists>ctx d. Parse sampleK (\<lambda>_. id_orders) 9 ghost = Some (Some ctx, []) \<and> load applyPtr ctx = Some d \<and>
    (\<forall>L innerRun run sc g x. runDAG L innerRun run sc \<lparr>DAG = d, RootVertexName = ''r'', BlockDAGs = []\<rparr> g x = None)"
proof -
  have "(case Parse sampleK (\<lambda>_. id_orders) 9 ghost of Some (Some ctx, rs) \<Rightarrow> rs = [] | _ \<Rightarrow> False)"
    by code_simp
  then obtain ctx where c: "Parse sampleK (\<lambda>_. id_orders) 9 ghost = Some (Some ctx, [])"
    by (auto split: option.splits)
  have "(case build sampleK ghost of None \<Rightarrow> False | Some _ \<Rightarrow> True)" by code_simp
  then obtain gvar ctx0 where b: "build sampleK ghost = Some (gvar, ctx0)" by (auto split: option.splits)
  show ?thesis
    using unknown_dependency_panics [OF c all_orders_ok_id b, of applyPtr "''y''" "''ghost''"] c by (auto simp: ghost_asked)
qed

section \<open>Tasks nobody starts\<close>

text \<open>C36: a vertex of a parsed graph that is not the first one and asks for no predecessor keeps every run of the graph
  from succeeding, although nothing fails: the run waits for it, and nothing ever starts it.\<close>

theorem orphan_vertex_never_succeeds:
  assumes "Parse K ord fuel cfg = Some (Some ctx, rs)" and "all_orders_ok ord" and "build K cfg = Some (gvar, ctx0)"
    and "load p ctx = Some d" and "(p, v) \<in> askedVertices K cfg" and "\<forall>u. (p, u, v) \<notin> askedLinks K gvar cfg"
    and "v \<noteq> root" and "reachable d root s"
  shows "TReturned True \<notin> set (threads s) \<and> Started v \<notin> set (runLog s)"
proof -
  note g = parsed_asked [OF assms(1-4)]
  have "VertexExists d v" using g(2) assms(5) by blast
  have no: "\<not> below d root v"
  proof
    assume "below d root v"
    then have "(root, v) \<in> (edges d)\<^sup>*" by (simp add: below_def)
    then obtain u where "(u, v) \<in> edges d" using assms(7) by (cases rule: rtrancl.cases) auto
    then show False using g(3) assms(6) by blast
  qed
  then have "TReturned True \<notin> set (threads s)"
    using success_finished(2) [OF assms(8) _ \<open>VertexExists d v\<close>] by blast
  moreover have "Started v \<notin> set (runLog s)"
    using base_inv [OF assms(8)] no by (auto simp: base_inv_def below_log_def)
  ultimately show ?thesis by blast
qed

theorem orphan_vertex_never_succeeds_witness:
  "\<exists>ctx d s. Parse sampleK (\<lambda>_. id_orders) 9 chainCfg = Some (Some ctx, []) \<and> load applyPtr ctx = Some d \<and>
    reachable d ''r'' s \<and> TReturned True \<notin> set (threads s)"
proof -
  obtain ctx d s where c: "Parse sampleK (\<lambda>_. id_orders) 9 chainCfg = Some (Some ctx, [])" "load applyPtr ctx = Some d"
      and e: "execute_from d ''r'' [] [''r'', ''x'', ''y''] = Some s"
    using chainCfg_graph by blast
  obtain gvar ctx0 where b: "build sampleK chainCfg = Some (gvar, ctx0)" using chainCfg_build by blast
  show ?thesis
    using orphan_vertex_never_succeeds [OF c(1) all_orders_ok_id b c(2), of "''x''" "''r''" s] c reachable.begin_run [OF e]
    by (auto simp: chainCfg_asked)
qed

section \<open>Configurations whose runs complete\<close>

text \<open>Every vertex depends on exactly one other of its graph, the first one on none, and no dependencies are circular.\<close>

definition treeAsked :: "k8slib \<Rightarrow> GlobalVariable \<Rightarrow> ControllerConfig \<Rightarrow> dagptr \<Rightarrow> string \<Rightarrow> bool" where
  "treeAsked K gvar cfg p root \<longleftrightarrow> (p, root) \<in> askedVertices K cfg \<and>
     (\<forall>u v. (p, u, v) \<in> askedLinks K gvar cfg \<longrightarrow> (p, u) \<in> askedVertices K cfg \<and> (p, v) \<in> askedVertices K cfg \<and> v \<noteq> root) \<and>
     (\<forall>v. (p, v) \<in> askedVertices K cfg \<longrightarrow> v \<noteq> root \<longrightarrow> (\<exists>!u. (p, u, v) \<in> askedLinks K gvar cfg)) \<and>
     acyclic {(u, v). (p, u, v) \<in> askedLinks K gvar cfg}"

lemma treeAsked_treeLike:
  assumes "Parse K ord fuel cfg = Some (Some ctx, rs)" and "all_orders_ok ord" and "build K cfg = Some (gvar, ctx0)"
    and "load p ctx = Some d" and tree: "treeAsked K gvar cfg p root"
  shows "treeLike d root"
proof -
  note g = parsed_asked [OF assms(1-4)]
  have up: "set (GetUpVertexes d v) = {u. (u, v) \<in> edges d}" "distinct (GetUpVertexes d v)" for v
    using g(1) by (auto simp: dag_ok_def upedges_def)
  have asked: "(p, root) \<in> askedVertices K cfg"
    "(p, u, v) \<in> askedLinks K gvar cfg \<Longrightarrow> (p, u) \<in> askedVertices K cfg \<and> (p, v) \<in> askedVertices K cfg \<and> v \<noteq> root"
    "(p, v) \<in> askedVertices K cfg \<Longrightarrow> v \<noteq> root \<Longrightarrow> \<exists>!u. (p, u, v) \<in> askedLinks K gvar cfg"
    "acyclic {(u, v). (p, u, v) \<in> askedLinks K gvar cfg}" for u v
    using tree by (simp_all add: treeAsked_def)
  have e: "VertexExists d u \<and> VertexExists d v \<and> v \<noteq> root" if "(u, v) \<in> edges d" for u v
    using asked(2) [OF g(3) [OF that]] by (simp add: g(2))
  have one: "u = u'" if "(u, v) \<in> edges d" "(u', v) \<in> edges d" for u u' v
  proof -
    note l = g(3) [OF that(1)] g(3) [OF that(2)]
    then have "\<exists>!u. (p, u, v) \<in> askedLinks K gvar cfg" using asked(2,3) by blast
    then show ?thesis using l by blast
  qed
  have "length (GetUpVertexes d v) \<le> 1" for v
  proof (cases "GetUpVertexes d v")
    case (Cons u us)
    then have "us \<noteq> [] \<Longrightarrow> hd us = u" using up(1) [of v] one by (metis insert_iff list.set(2) list.set_sel(1) mem_Collect_eq)
    then show ?thesis using Cons up(2) [of v] by (cases us) auto
  qed simp
  moreover have "acyclic (edges d)"
    by (rule acyclic_subset [of "{(u, v). (p, u, v) \<in> askedLinks K gvar cfg}"]) (use asked(4) g(3) in auto)
  then have wf: "wf (edges d)" using g(1) by (simp add: dag_ok_def finite_acyclic_wf)
  have "(root, v) \<in> (edges d)\<^sup>*" if "VertexExists d v" for v
    using wf that
  proof (induction v rule: wf_induct_rule)
    case (less v)
    show ?case
    proof (cases "v = root")
      case False
      then have "\<exists>u. (p, u, v) \<in> askedLinks K gvar cfg" using asked(3) [of v] less.prems g(2) by blast
      then obtain u where "(u, v) \<in> edges d" using g(4) by blast
      then show ?thesis using less.IH e by (meson rtrancl.rtrancl_into_rtrancl)
    qed simp
  qed
  moreover have "VertexExists d root" using asked(1) by (simp add: g(2))
  moreover have "False" if "(u, root) \<in> edges d" for u using e [OF that] by simp
  then have "set (GetUpVertexes d root) = {}" using up(1) [of root] by auto
  then have "GetUpVertexes d root = []" by simp
  ultimately show ?thesis using g(1) e unfolding treeLike_def by blast
qed

text \<open>C7: When every task of a graph depends on exactly one other vertex of it and nothing is circular, a run of the
  graph, in whatever order its goroutines move, always comes to its end, polls aside: it has then run every task of the configuration
  exactly once and returned, with success when no task failed and nobody cancelled.\<close>

theorem tree_configuration_completes:
  assumes "Parse K ord fuel cfg = Some (Some ctx, rs)" and "all_orders_ok ord" and "build K cfg = Some (gvar, ctx0)"
    and "load p ctx = Some d" and "treeAsked K gvar cfg p root"
    and "execute_from d root depOrd mainOrd = Some s\<^sub>0" and "run_choices d cs s\<^sub>0 = Some s" and "Cancel \<notin> set cs"
  shows "int (length cs) \<le> work d s\<^sub>0 \<and>
    (stuck d s \<longrightarrow>
      (\<forall>v. (p, v) \<in> askedVertices K cfg \<longrightarrow> count_list (runLog s) (Started v) = 1 \<and> (\<exists>b. Finished v b \<in> set (runLog s))) \<and>
      (\<exists>b. TReturned b \<in> set (threads s)) \<and>
      ((\<forall>v. Finished v False \<notin> set (runLog s)) \<longrightarrow> TReturned True \<in> set (threads s)))"
proof -
  have tree: "treeLike d root" by (rule treeAsked_treeLike [OF assms(1-5)])
  have v: "(p, v) \<in> askedVertices K cfg \<longleftrightarrow> VertexExists d v" for v by (simp add: parsed_asked(2) [OF assms(1-4)])
  have "acyclic (edges d)"
    by (rule acyclic_subset [of "{(u, v). (p, u, v) \<in> askedLinks K gvar cfg}"])
      (use assms(5) parsed_asked(3) [OF assms(1-4)] in \<open>auto simp: treeAsked_def\<close>)
  then have "int (length cs) \<le> work d s\<^sub>0"
    using run_choices_bounded [OF treeLikeD(1) [OF tree] _ assms(7,8)] work_nonneg [of d s] by simp
  then show ?thesis unfolding v using tree_run_ends [OF tree assms(6,7)] assms(8) by blast
qed

definition lineCfg :: ControllerConfig where
  "lineCfg = oneFor [(''x'', task [''r''])]"

lemma lineCfg_asked:
  "askedVertices sampleK lineCfg = {(applyPtr, ''r''), (deletePtr, ''r''), (applyPtr, ''x'')}"
  "askedLinks sampleK gvar lineCfg = {(applyPtr, ''r'', ''x'')}"
  by (auto simp: askedVertices_def askedLinks_def lineCfg_def config_eval)

definition lineRun :: "choice list" where
  "lineRun = [Exec 2, Mark 2 [''r''], choice.Start 1, Finish 1 True [''x''], Sync 1 3, CloseDep 1, choice.Start 3,
     Finish 3 True [], FnDone 1 0, CloseFn 1, FnDone 3 0, CloseFn 3, MainEnd 0]"

definition lineEnds :: "rtdag \<Rightarrow> bool" where
  "lineEnds d = (case execute_from d ''r'' [] [''r'', ''x''] of None \<Rightarrow> False
     | Some s0 \<Rightarrow> (case run_choices d lineRun s0 of None \<Rightarrow> False | Some s \<Rightarrow> ended s))"

lemma lineCfg_run:
  "\<exists>ctx d s\<^sub>0 s. Parse sampleK (\<lambda>_. id_orders) 9 lineCfg = Some (Some ctx, []) \<and> load applyPtr ctx = Some d \<and>
    execute_from d ''r'' [] [''r'', ''x''] = Some s\<^sub>0 \<and> run_choices d lineRun s\<^sub>0 = Some s \<and> ended s"
proof -
  have "map_option (map_prod (map_option (\<lambda>ctx. map_option lineEnds (load applyPtr ctx))) id)
      (Parse sampleK (\<lambda>_. id_orders) 9 lineCfg) = Some (Some (Some True), [])"
    by code_simp
  then obtain ctx d where "Parse sampleK (\<lambda>_. id_orders) 9 lineCfg = Some (Some ctx, [])" "load applyPtr ctx = Some d"
      and "lineEnds d"
    by (auto simp del: load.simps)
  then show ?thesis by (auto simp: lineEnds_def simp del: load.simps split: option.splits)
qed

theorem tree_configuration_completes_witness:
  "\<exists>ctx d s\<^sub>0 s. Parse sampleK (\<lambda>_. id_orders) 9 lineCfg = Some (Some ctx, []) \<and> load applyPtr ctx = Some d \<and>
    run_choices d lineRun s\<^sub>0 = Some s \<and> count_list (runLog s) (Started ''x'') = 1 \<and> (\<exists>b. TReturned b \<in> set (threads s))"
proof -
  obtain ctx d s\<^sub>0 s where c: "Parse sampleK (\<lambda>_. id_orders) 9 lineCfg = Some (Some ctx, [])" "load applyPtr ctx = Some d"
      "execute_from d ''r'' [] [''r'', ''x''] = Some s\<^sub>0" "run_choices d lineRun s\<^sub>0 = Some s" "ended s"
    using lineCfg_run by blast
  have "(case build sampleK lineCfg of None \<Rightarrow> False | Some _ \<Rightarrow> True)" by code_simp
  then obtain gvar ctx0 where b: "build sampleK lineCfg = Some (gvar, ctx0)" by (auto split: option.splits)
  have "{(u, v). (applyPtr, u, v) \<in> askedLinks sampleK gvar lineCfg} = {(''r'', ''x'')}" by (auto simp: lineCfg_asked)
  moreover have "acyclic {(''r'', ''x'')}" by (simp add: acyclic_def trancl_insert)
  ultimately have t: "treeAsked sampleK gvar lineCfg applyPtr ''r''" by (auto simp: treeAsked_def lineCfg_asked)
  have "Cancel \<notin> set lineRun" by (simp add: lineRun_def)
  from tree_configuration_completes [OF c(1) all_orders_ok_id b c(2) t c(3,4) this] ended_stuck [OF c(5)] c
  show ?thesis by (auto simp: lineCfg_asked)
qed

end
